(* ===== verification/Py_Prelude.thy ===== *)
theory Py_Prelude
  imports Main "HOL-Library.Char_ord" "HOL-Library.Code_Target_Nat"
begin

text \<open>
  Shared ground of the development: the hint collections, the fragment of Python's built-in
  types the application relies on (string methods, \<open>int()\<close>, decimal printing), exceptions as
  values, and generic list lemmas.

  A Python \<open>str\<close> is a HOL \<^typ>\<open>string\<close> whose characters stand for the code points 0 to 255
  (Latin-1). Inside that repertoire white space, line boundaries and digits are exactly the ones
  CPython uses, the non-ASCII ones included: the superscripts two, three and one answer True to
  \<open>str.isdigit()\<close> and are still refused by \<open>int()\<close>.

  A point in time is an \<^typ>\<open>int\<close>: microseconds since the epoch in UTC, the resolution of
  \<open>datetime\<close>.
\<close>

named_theorems str_simps "characterisations of the string methods"
named_theorems frame_simps "what an operation leaves unchanged"

type_synonym time = int
type_synonym pk = nat

section \<open>Time spans\<close>

definition seconds :: "int \<Rightarrow> int" where "seconds n = n * 1000000"
definition minutes :: "int \<Rightarrow> int" where "minutes n = seconds (60 * n)"
definition hours :: "int \<Rightarrow> int" where "hours n = minutes (60 * n)"
definition days :: "int \<Rightarrow> int" where "days n = hours (24 * n)"

lemmas span_defs = days_def hours_def minutes_def seconds_def

section \<open>Exceptions as values\<close>

datatype py_exn =
    ValueError
  | TypeError
  | IndexError
  | KeyError
  | ImproperlyConfigured string
  | ValidationError string
  | RegexError
  | RuntimeError string
  | LogParseError string
  | SSHConnectionError string
  | LockHeldError string
  | DoesNotExist
  | Http404

type_synonym 'a res = "py_exn + 'a"

definition res_bind :: "'a res \<Rightarrow> ('a \<Rightarrow> 'b res) \<Rightarrow> 'b res" where
  "res_bind r f = (case r of Inl e \<Rightarrow> Inl e | Inr a \<Rightarrow> f a)"

lemma res_bind_simps [simp]:
  "res_bind (Inl e) f = Inl e"
  "res_bind (Inr a) f = f a"
  by (simp_all add: res_bind_def)

lemma res_bind_Inr_iff: "res_bind r f = Inr b \<longleftrightarrow> (\<exists>a. r = Inr a \<and> f a = Inr b)"
  by (cases r) simp_all

section \<open>Characters\<close>

definition cp :: "char \<Rightarrow> nat" where "cp c = of_char c"

definition py_ws :: "char \<Rightarrow> bool" where
  "py_ws c \<longleftrightarrow> (let n = cp c in 9 \<le> n \<and> n \<le> 13 \<or> 28 \<le> n \<and> n \<le> 32 \<or> n = 133 \<or> n = 160)"

definition line_break :: "char \<Rightarrow> bool" where
  "line_break c \<longleftrightarrow> (let n = cp c in 10 \<le> n \<and> n \<le> 13 \<or> 28 \<le> n \<and> n \<le> 30 \<or> n = 133)"

definition ascii_digit :: "char \<Rightarrow> bool" where
  "ascii_digit c \<longleftrightarrow> 48 \<le> cp c \<and> cp c \<le> 57"

definition py_digit :: "char \<Rightarrow> bool" where
  "py_digit c \<longleftrightarrow> ascii_digit c \<or> cp c = 178 \<or> cp c = 179 \<or> cp c = 185"

definition lower_char :: "char \<Rightarrow> char" where
  "lower_char c = (let n = cp c in
     if 65 \<le> n \<and> n \<le> 90 \<or> 192 \<le> n \<and> n \<le> 222 \<and> n \<noteq> 215 then char_of (n + 32) else c)"

definition upper_char :: "char \<Rightarrow> string" where
  "upper_char c = (let n = cp c in
     if n = 223 then ''SS''
     else if 97 \<le> n \<and> n \<le> 122 \<or> 224 \<le> n \<and> n \<le> 254 \<and> n \<noteq> 247 then [char_of (n - 32)]
     else [c])"

section \<open>String methods\<close>

definition py_lstrip :: "string \<Rightarrow> string" where "py_lstrip s = dropWhile py_ws s"
definition rstrip_with :: "('a \<Rightarrow> bool) \<Rightarrow> 'a list \<Rightarrow> 'a list" where
  "rstrip_with P s = rev (dropWhile P (rev s))"
definition py_strip :: "string \<Rightarrow> string" where "py_strip s = rstrip_with py_ws (py_lstrip s)"

definition py_lower :: "string \<Rightarrow> string" where "py_lower s = map lower_char s"
definition py_upper :: "string \<Rightarrow> string" where "py_upper s = concat (map upper_char s)"

definition py_isdigit :: "string \<Rightarrow> bool" where
  "py_isdigit s \<longleftrightarrow> s \<noteq> [] \<and> list_all py_digit s"

definition ascii_digits :: "string \<Rightarrow> bool" where
  "ascii_digits s \<longleftrightarrow> s \<noteq> [] \<and> list_all ascii_digit s"

definition starts_with :: "string \<Rightarrow> string \<Rightarrow> bool" where
  "starts_with p s \<longleftrightarrow> take (length p) s = p"

fun replace_char :: "char \<Rightarrow> char \<Rightarrow> string \<Rightarrow> string" where
  "replace_char a b [] = []"
| "replace_char a b (x # xs) = (if x = a then b else x) # replace_char a b xs"

text \<open>\<open>s.split(c)\<close> for a one-character separator (on \<open>bytes\<close> as well).\<close>

fun split_on :: "'a \<Rightarrow> 'a list \<Rightarrow> 'a list list" where
  "split_on c [] = [[]]"
| "split_on c (x # xs) =
     (if x = c then [] # split_on c xs
      else (case split_on c xs of [] \<Rightarrow> [[x]] | y # ys \<Rightarrow> (x # y) # ys))"

fun join_with :: "'a list \<Rightarrow> 'a list list \<Rightarrow> 'a list" where
  "join_with sep [] = []"
| "join_with sep [x] = x"
| "join_with sep (x # y # ys) = x @ sep @ join_with sep (y # ys)"

text \<open>\<open>s.partition(c)\<close>: head, whether the separator was found, tail.\<close>

definition py_partition :: "'a \<Rightarrow> 'a list \<Rightarrow> 'a list \<times> bool \<times> 'a list" where
  "py_partition c s = (takeWhile (\<lambda>x. x \<noteq> c) s, c \<in> set s, tl (dropWhile (\<lambda>x. x \<noteq> c) s))"

text \<open>\<open>s.rsplit(c, 1)\<close>.\<close>

definition rsplit1 :: "'a \<Rightarrow> 'a list \<Rightarrow> 'a list list" where
  "rsplit1 c s =
     (if c \<notin> set s then [s]
      else [rev (tl (dropWhile (\<lambda>x. x \<noteq> c) (rev s))), rev (takeWhile (\<lambda>x. x \<noteq> c) (rev s))])"

text \<open>\<open>s.splitlines()\<close>: carriage return and line feed together are one boundary, and a final
  boundary does not open an empty last line.\<close>

fun splitlines_aux :: "string \<Rightarrow> string \<Rightarrow> string list" where
  "splitlines_aux acc [] = (if acc = [] then [] else [rev acc])"
| "splitlines_aux acc (c # cs) =
     (if c = CHR 0x0D then
        (case cs of
           d # ds \<Rightarrow> if d = CHR 0x0A then rev acc # splitlines_aux [] ds
                    else rev acc # splitlines_aux [] cs
         | [] \<Rightarrow> rev acc # splitlines_aux [] cs)
      else if line_break c then rev acc # splitlines_aux [] cs
      else splitlines_aux (c # acc) cs)"

definition splitlines :: "string \<Rightarrow> string list" where "splitlines s = splitlines_aux [] s"

section \<open>Numbers and text\<close>

definition digit_val :: "char \<Rightarrow> nat" where "digit_val c = cp c - 48"
definition digit_char :: "nat \<Rightarrow> char" where "digit_char d = char_of (48 + d)"

definition digits_val :: "string \<Rightarrow> nat" where
  "digits_val s = foldl (\<lambda>v c. v * 10 + digit_val c) 0 s"

fun nat_str :: "nat \<Rightarrow> string" where
  "nat_str n = (if n < 10 then [digit_char n] else nat_str (n div 10) @ [digit_char (n mod 10)])"

declare nat_str.simps [simp del]

definition int_str :: "int \<Rightarrow> string" where
  "int_str i = (if i < 0 then CHR ''-'' # nat_str (nat (- i)) else nat_str (nat i))"

text \<open>
  \<open>int(text)\<close>: surrounding white space, one sign, decimal digits with single underscores between
  them, and at most 4300 digits (\<open>sys.int_info.default_max_str_digits\<close>). None is the
  \<open>ValueError\<close>.
\<close>

fun underscored :: "string \<Rightarrow> bool" where
  "underscored [] = False"
| "underscored [c] = ascii_digit c"
| "underscored (c # d # cs) =
     (ascii_digit c \<and> (if d = CHR ''_'' then underscored cs else underscored (d # cs)))"

definition py_int :: "string \<Rightarrow> int option" where
  "py_int text =
     (let s = py_strip text;
          neg = (case s of c # _ \<Rightarrow> c = CHR ''-'' | [] \<Rightarrow> False);
          body = (case s of c # cs \<Rightarrow> if c = CHR ''-'' \<or> c = CHR ''+'' then cs else s | [] \<Rightarrow> []);
          ds = filter (\<lambda>c. c \<noteq> CHR ''_'') body
      in if underscored body \<and> length ds \<le> 4300
         then Some (if neg then - int (digits_val ds) else int (digits_val ds))
         else None)"

text \<open>
  Text accepted by \<open>float()\<close>. The model keeps the accepted literal instead of a binary
  approximation, so nothing is claimed about rounding.
\<close>

definition underscored_opt :: "string \<Rightarrow> bool" where
  "underscored_opt s \<longleftrightarrow> s = [] \<or> underscored s"

definition float_mantissa :: "string \<Rightarrow> bool" where
  "float_mantissa s \<longleftrightarrow>
     (case py_partition (CHR ''.'') s of (a, dot, b) \<Rightarrow>
        if dot then underscored_opt a \<and> underscored_opt b \<and> (a \<noteq> [] \<or> b \<noteq> [])
        else underscored a)"

definition strip_sign :: "string \<Rightarrow> string" where
  "strip_sign s = (case s of c # cs \<Rightarrow> if c = CHR ''-'' \<or> c = CHR ''+'' then cs else s | [] \<Rightarrow> [])"

definition py_float :: "string \<Rightarrow> string option" where
  "py_float text =
     (let s = py_strip text; body = py_lower (strip_sign s) in
      if body \<in> {''inf'', ''infinity'', ''nan''} then Some s
      else (case py_partition (CHR ''e'') body of (m, e, x) \<Rightarrow>
              if float_mantissa m \<and> (\<not> e \<or> underscored (strip_sign x)) then Some s else None))"

text \<open>\<open>repr()\<close> of a \<open>str\<close>, as the messages quote their arguments.\<close>

definition hex2 :: "nat \<Rightarrow> string" where
  "hex2 n = map (\<lambda>d. if d < 10 then char_of (48 + d) else char_of (87 + d)) [n div 16 mod 16, n mod 16]"

definition repr_char :: "char \<Rightarrow> char \<Rightarrow> string" where
  "repr_char q c =
     (let n = cp c in
      if c = q \<or> n = 92 then [CHR 0x5C, c]
      else if n = 9 then [CHR 0x5C, CHR ''t'']
      else if n = 10 then [CHR 0x5C, CHR ''n'']
      else if n = 13 then [CHR 0x5C, CHR ''r'']
      else if n < 32 \<or> 127 \<le> n \<and> n \<le> 160 \<or> n = 173 then CHR 0x5C # CHR ''x'' # hex2 n
      else [c])"

definition py_repr :: "string \<Rightarrow> string" where
  "py_repr s =
     (let q = (if CHR 0x27 \<in> set s \<and> CHR 0x22 \<notin> set s then CHR 0x22 else CHR 0x27)
      in q # concat (map (repr_char q) s) @ [q])"

section \<open>Stripping, splitting and joining: lemmas\<close>

lemma dropWhile_id_hd: "(xs = [] \<or> \<not> P (hd xs)) \<Longrightarrow> dropWhile P xs = xs"
  by (cases xs) auto

lemma rstrip_with_append [simp]: "\<not> P x \<Longrightarrow> rstrip_with P (xs @ [x]) = xs @ [x]"
  by (simp add: rstrip_with_def)

lemma rstrip_with_id: "(xs = [] \<or> \<not> P (last xs)) \<Longrightarrow> rstrip_with P xs = xs"
  by (cases xs rule: rev_cases) (auto simp: rstrip_with_def)

lemma py_strip_id [str_simps]:
  "(s = [] \<or> \<not> py_ws (hd s) \<and> \<not> py_ws (last s)) \<Longrightarrow> py_strip s = s"
  by (auto simp: py_strip_def py_lstrip_def dropWhile_id_hd rstrip_with_id)

lemma py_strip_no_ws: "list_all (\<lambda>c. \<not> py_ws c) s \<Longrightarrow> py_strip s = s"
  by (cases "s = []") (auto simp: list_all_iff intro!: py_strip_id)

lemma py_strip_ends:
  assumes "py_strip s \<noteq> []"
  shows "\<not> py_ws (hd (py_strip s))" "\<not> py_ws (last (py_strip s))"
proof -
  let ?t = "dropWhile py_ws s"
  have e: "py_strip s = rev (dropWhile py_ws (rev ?t))"
    by (simp add: py_strip_def py_lstrip_def rstrip_with_def)
  from assms e have ne: "dropWhile py_ws (rev ?t) \<noteq> []" by simp
  then show "\<not> py_ws (last (py_strip s))"
    using hd_dropWhile[OF ne] by (simp add: e last_rev)
  have "rev ?t = takeWhile py_ws (rev ?t) @ dropWhile py_ws (rev ?t)" by simp
  then have t: "?t = py_strip s @ rev (takeWhile py_ws (rev ?t))"
    by (metis e rev_append rev_rev_ident)
  then have "?t \<noteq> []" using assms by (metis append_is_Nil_conv)
  then have "\<not> py_ws (hd ?t)" by (rule hd_dropWhile)
  moreover have "hd ?t = hd (py_strip s)" using t assms by (metis hd_append2)
  ultimately show "\<not> py_ws (hd (py_strip s))" by simp
qed

lemma py_strip_idem [simp]: "py_strip (py_strip s) = py_strip s"
  by (cases "py_strip s = []") (simp_all add: py_strip_id py_strip_ends)

lemma dropWhile_keeps: "c \<in> set xs \<Longrightarrow> \<not> P c \<Longrightarrow> c \<in> set (dropWhile P xs)"
  by (induction xs) auto

lemma py_strip_keeps: "c \<in> set s \<Longrightarrow> \<not> py_ws c \<Longrightarrow> c \<in> set (py_strip s)"
  by (simp add: py_strip_def py_lstrip_def rstrip_with_def dropWhile_keeps)

lemma split_on_not_Nil [simp]: "split_on c s \<noteq> []"
  by (cases s) (auto split: list.splits)

lemma split_on_no_sep: "c \<notin> set s \<Longrightarrow> split_on c s = [s]"
  by (induction s) auto

lemma split_on_append_sep: "c \<notin> set p \<Longrightarrow> split_on c (p @ c # s) = p # split_on c s"
  by (induction p) auto

lemma join_split_on: "join_with [c] (split_on c s) = s"
proof (induction s)
  case (Cons x s)
  then show ?case
    by (cases "split_on c s"; cases "tl (split_on c s)") (auto split: list.splits)
qed simp

lemma split_on_join:
  assumes "ps \<noteq> []" "\<forall>p\<in>set ps. c \<notin> set p"
  shows "split_on c (join_with [c] ps) = ps"
  using assms
proof (induction "[c]" ps rule: join_with.induct)
  case 3 then show ?case by (simp add: split_on_append_sep)
qed (auto simp: split_on_no_sep)

lemma split_on_pieces: "p \<in> set (split_on c s) \<Longrightarrow> c \<notin> set p"
  by (induction s arbitrary: p) (auto split: if_splits list.splits)

lemma split_on_set: "p \<in> set (split_on c s) \<Longrightarrow> set p \<subseteq> set s"
  by (induction s arbitrary: p) (auto split: if_splits list.splits, fastforce+)

lemma split_on_append:
  "split_on c (a @ b) = butlast (split_on c a) @ (last (split_on c a) @ hd (split_on c b)) # tl (split_on c b)"
proof (induction a)
  case Nil
  then show ?case by (cases "split_on c b") auto
next
  case (Cons x a)
  then show ?case by (cases "split_on c a") auto
qed

lemma length_split_on: "length (split_on c s) = Suc (count_list s c)"
proof (induction s)
  case (Cons x s)
  then show ?case by (cases "split_on c s") auto
qed simp

section \<open>Digits and decimal text: lemmas\<close>

lemma cp_char_of [simp]: "n < 256 \<Longrightarrow> cp (char_of n) = n"
  by (simp add: cp_def)

lemma cp_less [simp]: "cp c < 256"
  by (simp add: cp_def)

lemma cp_inject: "cp a = cp b \<longleftrightarrow> a = b"
  by (simp add: cp_def)

lemma digit_char_simps [simp]:
  assumes "d < 10"
  shows "digit_val (digit_char d) = d" "ascii_digit (digit_char d)" "\<not> py_ws (digit_char d)"
    "cp (digit_char d) = 48 + d"
  using assms by (auto simp: digit_val_def digit_char_def ascii_digit_def py_ws_def Let_def)

lemma ascii_digit_not_ws: "ascii_digit c \<Longrightarrow> \<not> py_ws c"
  by (auto simp: ascii_digit_def py_ws_def Let_def)

lemma ascii_digit_py: "ascii_digit c \<Longrightarrow> py_digit c"
  by (simp add: py_digit_def)

lemma digit_char_val: "ascii_digit c \<Longrightarrow> digit_char (digit_val c) = c"
  by (simp add: ascii_digit_def digit_char_def digit_val_def cp_def)

lemma digit_val_less: "ascii_digit c \<Longrightarrow> digit_val c < 10"
  by (auto simp: ascii_digit_def digit_val_def)

lemma digits_val_Nil [simp]: "digits_val [] = 0"
  by (simp add: digits_val_def)

lemma digits_val_snoc [simp]: "digits_val (s @ [c]) = digits_val s * 10 + digit_val c"
  by (simp add: digits_val_def)

lemma nat_str_small: "n < 10 \<Longrightarrow> nat_str n = [digit_char n]"
  by (simp add: nat_str.simps)

lemma nat_str_large: "\<not> n < 10 \<Longrightarrow> nat_str n = nat_str (n div 10) @ [digit_char (n mod 10)]"
  by (subst nat_str.simps) simp

lemma digits_val_nat_str [simp]: "digits_val (nat_str n) = n"
proof (induction n rule: nat_str.induct)
  case (1 n)
  then show ?case by (cases "n < 10") (simp_all add: nat_str_small nat_str_large digits_val_def)
qed

lemma nat_str_digits: "list_all ascii_digit (nat_str n)"
proof (induction n rule: nat_str.induct)
  case (1 n)
  then show ?case by (cases "n < 10") (simp_all add: nat_str_small nat_str_large)
qed

lemma nat_str_not_Nil [simp]: "nat_str n \<noteq> []"
  by (subst nat_str.simps) simp

lemma nat_str_inject [simp]: "nat_str m = nat_str n \<longleftrightarrow> m = n"
  by (metis digits_val_nat_str)

lemma ascii_digits_nat_str [simp]: "ascii_digits (nat_str n)"
  by (simp add: ascii_digits_def nat_str_digits)

lemma py_isdigit_nat_str [simp]: "py_isdigit (nat_str n)"
  using nat_str_digits[of n] by (auto simp: py_isdigit_def list_all_iff ascii_digit_py)

lemma nat_str_no_char: "\<not> ascii_digit c \<Longrightarrow> c \<notin> set (nat_str n)"
  using nat_str_digits[of n] by (auto simp: list_all_iff)

lemma length_nat_str_le: "n < 10 ^ Suc k \<Longrightarrow> length (nat_str n) \<le> Suc k"
proof (induction k arbitrary: n)
  case 0
  then show ?case by (simp add: nat_str_small)
next
  case (Suc k)
  then have "n div 10 < 10 ^ Suc k" by (simp add: less_mult_imp_div_less mult.commute)
  then show ?case using Suc.IH[of "n div 10"]
    by (cases "n < 10") (simp_all add: nat_str_small nat_str_large)
qed

lemma hd_nat_str: "n \<noteq> 0 \<Longrightarrow> hd (nat_str n) \<noteq> CHR ''0''"
proof (induction n rule: nat_str.induct)
  case (1 n)
  show ?case
  proof (cases "n < 10")
    case True
    then have "cp (hd (nat_str n)) \<noteq> cp (CHR ''0'')" using 1 by (simp add: nat_str_small cp_def digit_char_def)
    then show ?thesis by auto
  next
    case False
    then show ?thesis using 1 by (simp add: nat_str_large)
  qed
qed

lemma underscored_digits: "ascii_digits s \<Longrightarrow> underscored s"
  by (induction s rule: underscored.induct) (auto simp: ascii_digits_def ascii_digit_def cp_def)

lemma ascii_digits_hd_last:
  assumes "ascii_digits s" shows "ascii_digit (hd s)" "ascii_digit (last s)"
  using assms by (auto simp: ascii_digits_def list_all_iff)

lemma py_int_digits:
  assumes s: "ascii_digits s" and len: "length s \<le> 4300"
  shows "py_int s = Some (int (digits_val s))"
proof -
  obtain c cs where cs: "s = c # cs" using s by (cases s) (auto simp: ascii_digits_def)
  have strip: "py_strip s = s"
    using s by (auto simp: ascii_digits_def list_all_iff intro!: py_strip_no_ws ascii_digit_not_ws)
  have c: "c \<noteq> CHR ''-''" "c \<noteq> CHR ''+''"
    using s cs by (auto simp: ascii_digits_def ascii_digit_def cp_def)
  have "filter (\<lambda>c. c \<noteq> CHR ''_'') s = s"
    using s by (intro filter_True) (auto simp: ascii_digits_def list_all_iff ascii_digit_def cp_def)
  then show ?thesis
    using underscored_digits[OF s] len strip c cs by (simp add: py_int_def Let_def)
qed

lemma py_int_nat_str: "length (nat_str n) \<le> 4300 \<Longrightarrow> py_int (nat_str n) = Some (int n)"
  by (simp add: py_int_digits)

end
