(* ===== verification/Py_Regex.thy ===== *)
theory Py_Regex
  imports Py_Prelude
begin

text \<open>
  The fragment of Python's \<open>re\<close> the application uses, with the engine's backtracking order made
  explicit: a pattern applied to a text yields the list of its successes in the order in which
  the engine would try them, and \<open>match\<close> takes the first. Every repetition in the source is a
  greedy one over a character class, so that is the only repetition here.
\<close>

section \<open>Character classes and patterns\<close>

datatype cset =
    NonSpace            \<comment> \<open>\<open>\S\<close>\<close>
  | Space               \<comment> \<open>\<open>\s\<close>\<close>
  | Digit               \<comment> \<open>\<open>\d\<close>\<close>
  | AnyChar             \<comment> \<open>the dot: anything but a line feed\<close>
  | OneOf string
  | NoneOf string

fun in_cset :: "cset \<Rightarrow> char \<Rightarrow> bool" where
  "in_cset NonSpace c = (\<not> py_ws c)"
| "in_cset Space c = py_ws c"
| "in_cset Digit c = ascii_digit c"
| "in_cset AnyChar c = (c \<noteq> CHR 0x0A)"
| "in_cset (OneOf s) c = (c \<in> set s)"
| "in_cset (NoneOf s) c = (c \<notin> set s)"

datatype re =
    Eps
  | Lit char
  | Rep cset nat "nat option"
  | Cat re re
  | Alt re re
  | Grp string re
  | Eol                 \<comment> \<open>\<open>$\<close>: at the end, or before a final line feed\<close>

type_synonym captures = "(string \<times> string) list"

definition rep_lengths :: "cset \<Rightarrow> nat \<Rightarrow> nat option \<Rightarrow> string \<Rightarrow> nat list" where
  "rep_lengths cs lo hi s =
     (let run = length (takeWhile (in_cset cs) s);
          top = (case hi of None \<Rightarrow> run | Some h \<Rightarrow> min run h)
      in rev [lo..<Suc top])"

fun successes :: "re \<Rightarrow> string \<Rightarrow> captures \<Rightarrow> (string \<times> captures) list" where
  "successes Eps s cs = [(s, cs)]"
| "successes (Lit c) s cs = (case s of [] \<Rightarrow> [] | x # xs \<Rightarrow> if x = c then [(xs, cs)] else [])"
| "successes (Rep k lo hi) s cs = map (\<lambda>n. (drop n s, cs)) (rep_lengths k lo hi s)"
| "successes (Cat p q) s cs = concat (map (\<lambda>(s', cs'). successes q s' cs') (successes p s cs))"
| "successes (Alt p q) s cs = successes p s cs @ successes q s cs"
| "successes (Grp g p) s cs =
     map (\<lambda>(s', cs'). (s', (g, take (length s - length s') s) # cs')) (successes p s cs)"
| "successes Eol s cs = (if s = [] \<or> s = [CHR 0x0A] then [(s, cs)] else [])"

text \<open>\<open>pattern.match(s)\<close>: the rest of the text and the captures of the first success.\<close>

definition re_match :: "re \<Rightarrow> string \<Rightarrow> (string \<times> captures) option" where
  "re_match p s = (case successes p s [] of [] \<Rightarrow> None | x # _ \<Rightarrow> Some x)"

text \<open>\<open>pattern.search(s)\<close>: the first position with a match.\<close>

fun re_search :: "re \<Rightarrow> string \<Rightarrow> (string \<times> captures) option" where
  "re_search p [] = re_match p []"
| "re_search p (c # s) =
     (case re_match p (c # s) of Some x \<Rightarrow> Some x | None \<Rightarrow> re_search p s)"

fun cats :: "re list \<Rightarrow> re" where
  "cats [] = Eps"
| "cats (p # ps) = Cat p (cats ps)"

fun alts :: "re list \<Rightarrow> re" where
  "alts [] = Rep AnyChar 1 (Some 0)"
| "alts [p] = p"
| "alts (p # ps) = Alt p (alts ps)"

definition lits :: "string \<Rightarrow> re" where "lits s = cats (map Lit s)"

definition one :: "cset \<Rightarrow> re" where "one k = Rep k 1 (Some 1)"
definition plus :: "cset \<Rightarrow> re" where "plus k = Rep k 1 None"
definition star :: "cset \<Rightarrow> re" where "star k = Rep k 0 None"

section \<open>Laws of the matcher\<close>

text \<open>Every success consumes a prefix, and only adds captures.\<close>

lemma successes_suffix:
  "(s', cs') \<in> set (successes p s cs) \<Longrightarrow> \<exists>u. s = u @ s'"
proof (induction p arbitrary: s cs s' cs')
  case (Rep k lo hi)
  then obtain n where "s' = drop n s" by auto
  then show ?case by (metis append_take_drop_id)
next
  case (Cat p q)
  then obtain t ct where t: "(t, ct) \<in> set (successes p s cs)" "(s', cs') \<in> set (successes q t ct)" by auto
  then obtain u v where "s = u @ t" "t = v @ s'" using Cat.IH by blast
  then show ?case by auto
qed (auto split: list.splits if_splits)

lemma successes_Cat_empty: "successes p s cs = [] \<Longrightarrow> successes (Cat p q) s cs = []"
  by simp

lemma successes_Cat_assoc: "successes (Cat (Cat p q) r) s cs = successes (Cat p (Cat q r)) s cs"
proof -
  have "concat (map (\<lambda>(a, b). successes r a b) (concat (map f xs))) =
        concat (map (\<lambda>x. concat (map (\<lambda>(a, b). successes r a b) (f x))) xs)" for f xs
    by (induction xs) auto
  then show ?thesis by (simp add: case_prod_beta')
qed

lemma successes_cats_append: "successes (cats (ps @ qs)) s cs = successes (Cat (cats ps) (cats qs)) s cs"
proof (induction ps arbitrary: s cs)
  case (Cons p ps)
  then show ?case using successes_Cat_assoc[of p "cats ps" "cats qs" s cs] by (simp add: case_prod_beta')
qed simp

lemma successes_lits:
  "successes (lits u) s cs = (if take (length u) s = u then [(drop (length u) s, cs)] else [])"
proof (induction u arbitrary: s)
  case Nil
  then show ?case by (simp add: lits_def)
next
  case (Cons c u)
  then show ?case by (cases s) (auto simp: lits_def)
qed

text \<open>
  A greedy run followed by a character outside its class commits: the engine may give characters
  back, but when what follows fails on every shorter run only the longest one is left.
\<close>

lemma rep_lengths_run:
  assumes "list_all (in_cset k) u" "s = [] \<or> \<not> in_cset k (hd s)" "hi = None \<or> hi = Some (length u)"
    and "lo \<le> length u"
  shows "rep_lengths k lo hi (u @ s) = length u # rev [lo..<length u]"
proof -
  have "takeWhile (in_cset k) (u @ s) = u"
    using assms by (cases s) (auto simp: list_all_iff takeWhile_append2)
  then show ?thesis using assms(3,4) by (auto simp: rep_lengths_def Let_def)
qed

lemma rep_commit:
  assumes "list_all (in_cset k) u" "s = [] \<or> \<not> in_cset k (hd s)" "hi = None \<or> hi = Some (length u)"
    and "lo \<le> length u" and fail: "\<And>n. n < length u \<Longrightarrow> f n = []"
  shows "concat (map f (rep_lengths k lo hi (u @ s))) = f (length u)"
  using fail by (auto simp: rep_lengths_run[OF assms(1-4)])

lemma successes_rep_commit:
  assumes "list_all (in_cset k) u" "s = [] \<or> \<not> in_cset k (hd s)" "hi = None \<or> hi = Some (length u)"
    and "lo \<le> length u" and "\<And>n cs. n < length u \<Longrightarrow> successes q (drop n u @ s) cs = []"
  shows "successes (Cat (Rep k lo hi) q) (u @ s) cs = successes q s cs"
    and "successes (Cat (Grp g (Rep k lo hi)) q) (u @ s) cs = successes q s ((g, u) # cs)"
proof -
  show "successes (Cat (Rep k lo hi) q) (u @ s) cs = successes q s cs"
    using rep_commit[OF assms(1-4), of "\<lambda>n. successes q (drop n (u @ s)) cs"] assms(5)
    by (simp add: comp_def)
  let ?c = "\<lambda>n. (g, take (length (u @ s) - length (drop n (u @ s))) (u @ s)) # cs"
  show "successes (Cat (Grp g (Rep k lo hi)) q) (u @ s) cs = successes q s ((g, u) # cs)"
    using rep_commit[OF assms(1-4), of "\<lambda>n. successes q (drop n (u @ s)) (?c n)"] assms(5)
    by (simp add: comp_def)
qed

text \<open>Two continuations that fail on every shorter run: a literal outside the class, and the end.\<close>

lemma lit_fails_inside:
  assumes "list_all (in_cset k) u" "\<not> in_cset k d" "n < length u"
  shows "successes (Cat (Lit d) q) (drop n u @ s) cs = []"
proof -
  have "drop n u = u ! n # drop (Suc n) u" using assms(3) by (simp add: Cons_nth_drop_Suc)
  moreover have "u ! n \<noteq> d" using assms by (auto simp: list_all_length)
  ultimately show ?thesis by simp
qed

lemma eol_fails_inside:
  assumes "CHR 0x0A \<notin> set u" "n < length u"
  shows "successes (Cat Eol q) (drop n u) cs = []"
proof -
  have "drop n u \<noteq> []" "set (drop n u) \<subseteq> set u" using assms(2) by (auto dest: in_set_dropD)
  then show ?thesis using assms(1) by auto
qed

end
