(* ===== verification/Py_Datetime.thy ===== *)
theory Py_Datetime
  imports Py_Regex
begin

text \<open>
  \<open>datetime.strptime(text, "%d/%b/%Y:%H:%M:%S %z")\<close>: the regular expression CPython builds for
  this format (case-insensitive, C locale), the offset arithmetic of \<open>%z\<close>, and the conversion of
  the calendar fields to an instant. None is the \<open>ValueError\<close>.
\<close>

section \<open>The calendar\<close>

definition is_leap :: "nat \<Rightarrow> bool" where
  "is_leap y \<longleftrightarrow> y mod 4 = 0 \<and> (y mod 100 \<noteq> 0 \<or> y mod 400 = 0)"

definition days_in_month :: "nat \<Rightarrow> nat \<Rightarrow> nat" where
  "days_in_month y m =
     (if m = 2 then (if is_leap y then 29 else 28)
      else if m \<in> {4, 6, 9, 11} then 30 else 31)"

definition days_before_month :: "nat \<Rightarrow> nat \<Rightarrow> nat" where
  "days_before_month y m = sum_list (map (days_in_month y) [1..<m])"

text \<open>\<open>date.toordinal()\<close>: the first of January of year 1 is day 1.\<close>

definition ymd_ordinal :: "nat \<Rightarrow> nat \<Rightarrow> nat \<Rightarrow> nat" where
  "ymd_ordinal y m d =
     (let y1 = y - 1 in y1 * 365 + y1 div 4 - y1 div 100 + y1 div 400) + days_before_month y m + d"

record civil =
  c_year :: nat
  c_month :: nat
  c_day :: nat
  c_hour :: nat
  c_minute :: nat
  c_second :: nat

definition civil_valid :: "civil \<Rightarrow> bool" where
  "civil_valid c \<longleftrightarrow>
     1 \<le> c_year c \<and> c_year c \<le> 9999 \<and> 1 \<le> c_month c \<and> c_month c \<le> 12
     \<and> 1 \<le> c_day c \<and> c_day c \<le> days_in_month (c_year c) (c_month c)
     \<and> c_hour c \<le> 23 \<and> c_minute c \<le> 59 \<and> c_second c \<le> 59"

definition instant :: "civil \<Rightarrow> int \<Rightarrow> time" where
  "instant c offset_us =
     ((int (ymd_ordinal (c_year c) (c_month c) (c_day c)) - 719163) * 86400
      + int (c_hour c * 3600 + c_minute c * 60 + c_second c)) * 1000000 - offset_us"

section \<open>The pattern\<close>

definition month_names :: "string list" where
  "month_names = [''jan'', ''feb'', ''mar'', ''apr'', ''may'', ''jun'',
                  ''jul'', ''aug'', ''sep'', ''oct'', ''nov'', ''dec'']"

definition ci :: "string \<Rightarrow> re" where
  "ci s = cats (map (\<lambda>c. one (OneOf (c # upper_char c))) s)"

definition digit_in :: "string \<Rightarrow> re" where "digit_in s = one (OneOf s)"
definition dig :: re where "dig = one Digit"

definition re_day :: re where
  "re_day = Grp ''d'' (alts
     [cats [Lit (CHR ''3''), digit_in ''01''], cats [digit_in ''12'', dig],
      cats [Lit (CHR ''0''), digit_in ''123456789''], digit_in ''123456789'',
      cats [Lit (CHR '' ''), digit_in ''123456789'']])"

definition re_month :: re where "re_month = Grp ''b'' (alts (map ci month_names))"
definition re_year :: re where "re_year = Grp ''Y'' (cats [dig, dig, dig, dig])"
definition re_hour :: re where
  "re_hour = Grp ''H'' (alts [cats [Lit (CHR ''2''), digit_in ''0123''], cats [digit_in ''01'', dig], dig])"
definition re_minute :: re where
  "re_minute = Grp ''M'' (alts [cats [digit_in ''012345'', dig], dig])"
definition re_second :: re where
  "re_second = Grp ''S'' (alts [cats [Lit (CHR ''6''), digit_in ''01''], cats [digit_in ''012345'', dig], dig])"

definition opt :: "re \<Rightarrow> re" where "opt p = Alt p Eps"

definition re_zone :: re where
  "re_zone = Grp ''z'' (Alt
     (cats [one (OneOf ''+-''), dig, dig, opt (Lit (CHR '':'')), digit_in ''012345'', dig,
            opt (cats [opt (Lit (CHR '':'')), digit_in ''012345'', dig,
                       opt (cats [Lit (CHR ''.''), Rep Digit 1 (Some 6)])])])
     (Lit (CHR ''Z'')))"

definition log_time_re :: re where
  "log_time_re = cats [re_day, Lit (CHR ''/''), re_month, Lit (CHR ''/''), re_year, Lit (CHR '':''),
     re_hour, Lit (CHR '':''), re_minute, Lit (CHR '':''), re_second, plus Space, re_zone]"

section \<open>Reading the captures\<close>

definition cap :: "captures \<Rightarrow> string \<Rightarrow> string" where
  "cap cs g = (case map_of cs g of Some s \<Rightarrow> s | None \<Rightarrow> [])"

definition cap_nat :: "captures \<Rightarrow> string \<Rightarrow> nat" where
  "cap_nat cs g = digits_val (filter ascii_digit (cap cs g))"

definition month_number :: "string \<Rightarrow> nat" where
  "month_number s = Suc (length (takeWhile (\<lambda>m. m \<noteq> py_lower s) month_names))"

text \<open>The offset of \<open>%z\<close> in microseconds; inconsistent colons are refused.\<close>

definition zone_offset :: "string \<Rightarrow> int option" where
  "zone_offset z =
     (if z = ''Z'' then Some 0
      else
        (let colon = z ! 3 = CHR '':'';
             z1 = (if colon then take 3 z @ drop 4 z else z);
             bad = colon \<and> length z1 > 5 \<and> z1 ! 5 \<noteq> CHR '':'';
             z2 = (if colon \<and> length z1 > 5 then take 5 z1 @ drop 6 z1 else z1);
             hh = digits_val (take 2 (drop 1 z2)); mm = digits_val (take 2 (drop 3 z2));
             ss = digits_val (take 2 (drop 5 z2));
             frac = drop 8 z2;
             us = digits_val (frac @ replicate (6 - length frac) (CHR ''0''));
             total = int (hh * 3600 + mm * 60 + ss) * 1000000 + int us
         in if bad then None
            else if \<not> list_all ascii_digit (take 2 (drop 5 z2)) then None
            else Some (if hd z = CHR ''-'' then - total else total)))"

definition strptime_log :: "string \<Rightarrow> time option" where
  "strptime_log s =
     (case re_match log_time_re s of
        None \<Rightarrow> None
      | Some (rest, cs) \<Rightarrow>
          if rest \<noteq> [] then None
          else
            (let c = \<lparr>c_year = cap_nat cs ''Y'', c_month = month_number (cap cs ''b''),
                      c_day = cap_nat cs ''d'', c_hour = cap_nat cs ''H'',
                      c_minute = cap_nat cs ''M'', c_second = cap_nat cs ''S''\<rparr>
             in (case zone_offset (cap cs ''z'') of
                   None \<Rightarrow> None
                 | Some off \<Rightarrow>
                     if civil_valid c \<and> \<bar>off\<bar> < hours 24 then Some (instant c off) else None)))"

end
