(* ===== verification/Py_Ipaddress.thy ===== *)
theory Py_Ipaddress
  imports Py_Prelude
begin

text \<open>
  The part of Python's \<open>ipaddress\<close> module the application calls: parsing and printing of
  addresses and networks, and \<open>summarize_address_range\<close>. An address is an unbounded Python
  integer there, hence a \<^typ>\<open>nat\<close> here, with the 32 or 128 bit bound proved rather than built in.
  None is the \<open>ValueError\<close> (\<open>AddressValueError\<close> and \<open>NetmaskValueError\<close> are subclasses of it).

  The second half proves what the application relies on: printing and parsing are inverse, the
  blocks of a summarized range are aligned, disjoint and cover exactly the range, and network
  containment is containment of the address intervals.
\<close>

section \<open>Addresses\<close>

datatype ipaddr = V4 nat | V6 nat "string option"

fun ip_int :: "ipaddr \<Rightarrow> nat" where
  "ip_int (V4 n) = n"
| "ip_int (V6 n _) = n"

fun ip_version :: "ipaddr \<Rightarrow> nat" where
  "ip_version (V4 _) = 4"
| "ip_version (V6 _ _) = 6"

fun max_prefixlen :: "ipaddr \<Rightarrow> nat" where
  "max_prefixlen (V4 _) = 32"
| "max_prefixlen (V6 _ _) = 128"

definition parse_octet :: "string \<Rightarrow> nat option" where
  "parse_octet s =
     (if \<not> ascii_digits s then None
      else if length s > 3 then None
      else if s \<noteq> ''0'' \<and> hd s = CHR ''0'' then None
      else if digits_val s > 255 then None
      else Some (digits_val s))"

definition ipv4_of_string :: "string \<Rightarrow> nat option" where
  "ipv4_of_string s =
     (case map parse_octet (split_on (CHR ''.'') s) of
        [Some a, Some b, Some c, Some d] \<Rightarrow> Some (((a * 256 + b) * 256 + c) * 256 + d)
      | _ \<Rightarrow> None)"

definition ipv4_str :: "nat \<Rightarrow> string" where
  "ipv4_str n =
     join_with ''.'' [nat_str (n div 16777216 mod 256), nat_str (n div 65536 mod 256),
                      nat_str (n div 256 mod 256), nat_str (n mod 256)]"

subsection \<open>IPv6\<close>

definition hex_digit :: "char \<Rightarrow> bool" where
  "hex_digit c \<longleftrightarrow> ascii_digit c \<or> 97 \<le> cp c \<and> cp c \<le> 102 \<or> 65 \<le> cp c \<and> cp c \<le> 70"

definition hex_val :: "char \<Rightarrow> nat" where
  "hex_val c = (if ascii_digit c then cp c - 48 else if 97 \<le> cp c then cp c - 87 else cp c - 55)"

definition hex_char :: "nat \<Rightarrow> char" where
  "hex_char d = (if d < 10 then char_of (48 + d) else char_of (87 + d))"

fun hex_str :: "nat \<Rightarrow> string" where
  "hex_str n = (if n < 16 then [hex_char n] else hex_str (n div 16) @ [hex_char (n mod 16)])"

declare hex_str.simps [simp del]

definition hexs_val :: "string \<Rightarrow> nat" where
  "hexs_val s = foldl (\<lambda>v c. v * 16 + hex_val c) 0 s"

definition parse_hextet :: "string \<Rightarrow> nat option" where
  "parse_hextet s =
     (if \<not> list_all hex_digit s then None
      else if length s > 4 then None
      else if s = [] then None
      else Some (hexs_val s))"

fun push_hextets :: "nat \<Rightarrow> string list \<Rightarrow> nat option" where
  "push_hextets v [] = Some v"
| "push_hextets v (p # ps) =
     (case parse_hextet p of None \<Rightarrow> None | Some h \<Rightarrow> push_hextets (v * 65536 + h) ps)"

text \<open>An IPv4-style last part is rewritten to two hextets.\<close>

definition v4_suffix :: "string list \<Rightarrow> string list option" where
  "v4_suffix parts =
     (if CHR ''.'' \<in> set (last parts) then
        (case ipv4_of_string (last parts) of
           None \<Rightarrow> None
         | Some v \<Rightarrow> Some (butlast parts @ [hex_str (v div 65536 mod 65536), hex_str (v mod 65536)]))
      else Some parts)"

definition skip_indices :: "string list \<Rightarrow> nat list" where
  "skip_indices parts = filter (\<lambda>i. parts ! i = []) [1..<length parts - 1]"

definition fill_skipped :: "string list \<Rightarrow> nat \<Rightarrow> nat \<Rightarrow> nat option" where
  "fill_skipped parts hi lo =
     (if hi + lo > 7 then None
      else (case push_hextets 0 (take hi parts) of
              None \<Rightarrow> None
            | Some v \<Rightarrow> push_hextets (v * 65536 ^ (8 - (hi + lo))) (drop (length parts - lo) parts)))"

definition ipv6_of_parts :: "string list \<Rightarrow> nat option" where
  "ipv6_of_parts parts =
     (case skip_indices parts of
        [] \<Rightarrow>
          if length parts \<noteq> 8 \<or> hd parts = [] \<or> last parts = [] then None
          else push_hextets 0 parts
      | [k] \<Rightarrow>
          (let hi = (if hd parts = [] then k - 1 else k);
               lo0 = length parts - k - 1;
               lo = (if last parts = [] then lo0 - 1 else lo0)
           in if hd parts = [] \<and> hi \<noteq> 0 then None
              else if last parts = [] \<and> lo \<noteq> 0 then None
              else fill_skipped parts hi lo)
      | _ \<Rightarrow> None)"

definition ipv6_of_string :: "string \<Rightarrow> nat option" where
  "ipv6_of_string s =
     (let parts = split_on (CHR '':'') s in
      if length parts < 3 then None
      else (case v4_suffix parts of
              None \<Rightarrow> None
            | Some ps \<Rightarrow> if length ps > 9 then None else ipv6_of_parts ps))"

definition hextets :: "nat \<Rightarrow> nat list" where
  "hextets n = map (\<lambda>i. n div 65536 ^ (7 - i) mod 65536) [0..<8]"

text \<open>The scan of \<open>_compress_hextets\<close>: best start, best length, current start, current length.\<close>

fun zero_runs :: "nat \<Rightarrow> nat \<times> nat \<Rightarrow> nat \<times> nat \<Rightarrow> nat list \<Rightarrow> nat \<times> nat" where
  "zero_runs i best cur [] = best"
| "zero_runs i best cur (h # hs) =
     (if h = 0 then
        (let start = (if snd cur = 0 then i else fst cur); len = Suc (snd cur);
             best' = (if len > snd best then (start, len) else best)
         in zero_runs (Suc i) best' (start, len) hs)
      else zero_runs (Suc i) best (0, 0) hs)"

definition compress_hextets :: "nat list \<Rightarrow> string list" where
  "compress_hextets hs =
     (let (start, len) = zero_runs 0 (0, 0) (0, 0) hs; ss = map hex_str hs
      in if len > 1 then
           (if start = 0 then [[]] else []) @ take start ss @ [[]] @ drop (start + len) ss
           @ (if start + len = length hs then [[]] else [])
         else ss)"

definition hextets_str :: "nat \<Rightarrow> string" where
  "hextets_str n = join_with '':'' (compress_hextets (hextets n))"

text \<open>Since Python 3.13 an address of \<open>::ffff:0:0/96\<close> is printed with its IPv4 part in dotted form.\<close>

definition ipv4_mapped :: "nat \<Rightarrow> nat option" where
  "ipv4_mapped n = (if n div 2 ^ 32 = 65535 then Some (n mod 2 ^ 32) else None)"

definition ipv6_str :: "nat \<Rightarrow> string" where
  "ipv6_str n =
     (case ipv4_mapped n of
        None \<Rightarrow> hextets_str n
      | Some v \<Rightarrow> hextets_str (n div 2 ^ 32) @ CHR '':'' # ipv4_str v)"

subsection \<open>\<open>ip_address\<close> and \<open>str\<close>\<close>

definition split_scope_id :: "string \<Rightarrow> (string \<times> string option) option" where
  "split_scope_id s =
     (case py_partition (CHR ''%'') s of (a, sep, scope) \<Rightarrow>
        if \<not> sep then Some (a, None)
        else if scope = [] \<or> CHR ''%'' \<in> set scope then None
        else Some (a, Some scope))"

definition ipv6_address :: "string \<Rightarrow> ipaddr option" where
  "ipv6_address s =
     (if CHR ''/'' \<in> set s then None
      else (case split_scope_id s of
              None \<Rightarrow> None
            | Some (a, scope) \<Rightarrow> map_option (\<lambda>n. V6 n scope) (ipv6_of_string a)))"

definition ip_address :: "string \<Rightarrow> ipaddr option" where
  "ip_address s =
     (case ipv4_of_string s of Some n \<Rightarrow> Some (V4 n) | None \<Rightarrow> ipv6_address s)"

fun ip_str :: "ipaddr \<Rightarrow> string" where
  "ip_str (V4 n) = ipv4_str n"
| "ip_str (V6 n None) = ipv6_str n"
| "ip_str (V6 n (Some scope)) = ipv6_str n @ CHR ''%'' # scope"

section \<open>Networks\<close>

datatype ipnet = Net (net_addr: ipaddr) (net_len: nat)

definition host_bits :: "ipnet \<Rightarrow> nat" where
  "host_bits net = max_prefixlen (net_addr net) - net_len net"

text \<open>\<open>_prefix_from_prefix_string\<close>.\<close>

definition prefix_of_digits :: "nat \<Rightarrow> string \<Rightarrow> nat option" where
  "prefix_of_digits bits s =
     (if ascii_digits s \<and> length s \<le> 4300 \<and> digits_val s \<le> bits then Some (digits_val s) else None)"

fun rzeros :: "nat \<Rightarrow> nat \<Rightarrow> nat" where
  "rzeros 0 n = 0"
| "rzeros (Suc k) n = (if odd n then 0 else Suc (rzeros k (n div 2)))"

fun bit_length :: "nat \<Rightarrow> nat" where
  "bit_length n = (if n = 0 then 0 else Suc (bit_length (n div 2)))"

declare bit_length.simps [simp del]

text \<open>\<open>_prefix_from_ip_int\<close>: ones then zeros.\<close>

definition prefix_of_mask :: "nat \<Rightarrow> nat \<Rightarrow> nat option" where
  "prefix_of_mask bits m =
     (let z = rzeros bits m in if m div 2 ^ z = 2 ^ (bits - z) - 1 then Some (bits - z) else None)"

definition prefix_of_mask_string :: "string \<Rightarrow> nat option" where
  "prefix_of_mask_string s =
     (case ipv4_of_string s of
        None \<Rightarrow> None
      | Some m \<Rightarrow> (case prefix_of_mask 32 m of
                     Some p \<Rightarrow> Some p
                   | None \<Rightarrow> prefix_of_mask 32 (2 ^ 32 - 1 - m)))"

text \<open>Clearing the host bits; a cleared IPv6 address is rebuilt from its integer without scope.\<close>

definition mask_addr :: "ipaddr \<Rightarrow> nat \<Rightarrow> ipnet" where
  "mask_addr a p =
     (let b = 2 ^ (max_prefixlen a - p); n = ip_int a div b * b in
      if n = ip_int a then Net a p
      else (case a of V4 _ \<Rightarrow> Net (V4 n) p | V6 _ _ \<Rightarrow> Net (V6 n None) p))"

definition ipv4_network :: "string \<Rightarrow> ipnet option" where
  "ipv4_network s =
     (case split_on (CHR ''/'') s of
        [a] \<Rightarrow> map_option (\<lambda>n. Net (V4 n) 32) (ipv4_of_string a)
      | [a, m] \<Rightarrow>
          (case ipv4_of_string a of
             None \<Rightarrow> None
           | Some n \<Rightarrow>
               (case (case prefix_of_digits 32 m of Some p \<Rightarrow> Some p | None \<Rightarrow> prefix_of_mask_string m) of
                  None \<Rightarrow> None
                | Some p \<Rightarrow> Some (mask_addr (V4 n) p)))
      | _ \<Rightarrow> None)"

definition ipv6_network :: "string \<Rightarrow> ipnet option" where
  "ipv6_network s =
     (case split_on (CHR ''/'') s of
        [a] \<Rightarrow> map_option (\<lambda>x. Net x 128) (ipv6_address a)
      | [a, m] \<Rightarrow>
          (case ipv6_address a of
             None \<Rightarrow> None
           | Some x \<Rightarrow> map_option (mask_addr x) (prefix_of_digits 128 m))
      | _ \<Rightarrow> None)"

text \<open>\<open>ip_network(s, strict=False)\<close>.\<close>

definition ip_network :: "string \<Rightarrow> ipnet option" where
  "ip_network s = (case ipv4_network s of Some n \<Rightarrow> Some n | None \<Rightarrow> ipv6_network s)"

definition net_str :: "ipnet \<Rightarrow> string" where
  "net_str net = ip_str (net_addr net) @ CHR ''/'' # nat_str (net_len net)"

definition net_range :: "ipnet \<Rightarrow> nat set" where
  "net_range net = {ip_int (net_addr net) ..< ip_int (net_addr net) + 2 ^ host_bits net}"

text \<open>PostgreSQL's \<open>outer >>= inner\<close> on networks of one family.\<close>

definition net_contains :: "ipnet \<Rightarrow> ipnet \<Rightarrow> bool" where
  "net_contains outer inner \<longleftrightarrow>
     ip_version (net_addr outer) = ip_version (net_addr inner)
     \<and> net_len outer \<le> net_len inner
     \<and> ip_int (net_addr outer) div 2 ^ host_bits outer = ip_int (net_addr inner) div 2 ^ host_bits outer"

section \<open>Ranges as networks\<close>

text \<open>The loop of \<open>summarize_address_range\<close> on integers: pairs of first address and prefix length.\<close>

function summarize_ints :: "nat \<Rightarrow> nat \<Rightarrow> nat \<Rightarrow> (nat \<times> nat) list" where
  "summarize_ints bits a b =
     (if a \<le> b then
        (let nb = min (rzeros bits a) (bit_length (b - a + 1) - 1)
         in (a, bits - nb) # (if a + 2 ^ nb = 2 ^ bits then [] else summarize_ints bits (a + 2 ^ nb) b))
      else [])"
  by pat_completeness auto
termination
  by (relation "measure (\<lambda>(bits, a, b). Suc b - a)") (auto intro!: diff_less_mono2)

declare summarize_ints.simps [simp del]

definition summarize_address_range :: "ipaddr \<Rightarrow> ipaddr \<Rightarrow> (ipnet list) res" where
  "summarize_address_range x y =
     (if ip_version x \<noteq> ip_version y then Inl TypeError
      else if ip_int y < ip_int x then Inl ValueError
      else Inr (map (\<lambda>(n, p). Net (case x of V4 _ \<Rightarrow> V4 n | V6 _ _ \<Rightarrow> V6 n None) p)
                    (summarize_ints (max_prefixlen x) (ip_int x) (ip_int y))))"

section \<open>IPv4 text: lemmas\<close>

lemma digit_char_0 [simp]: "digit_char 0 = CHR ''0''"
  by code_simp

lemma parse_octet_nat_str [simp]:
  assumes "n < 256" shows "parse_octet (nat_str n) = Some n"
proof -
  have l: "length (nat_str n) \<le> 3" using length_nat_str_le[of n 2] assms by simp
  have z: "nat_str n \<noteq> ''0'' \<Longrightarrow> n \<noteq> 0" by (cases n) (auto simp: nat_str_small)
  show ?thesis using l z hd_nat_str[of n] assms by (auto simp: parse_octet_def)
qed

lemma ascii_digits_val_str:
  assumes "ascii_digits s" "s = ''0'' \<or> hd s \<noteq> CHR ''0''"
  shows "nat_str (digits_val s) = s"
  using assms
proof (induction s rule: rev_induct)
  case Nil then show ?case by (simp add: ascii_digits_def)
next
  case (snoc c s)
  have c: "ascii_digit c" "digit_val c < 10"
    using snoc.prems by (auto simp: ascii_digits_def digit_val_less)
  show ?case
  proof (cases "s = []")
    case True
    then show ?thesis using c by (simp add: digits_val_def nat_str_small digit_char_val)
  next
    case False
    then have s: "ascii_digits s" "hd s \<noteq> CHR ''0''" using snoc.prems by (auto simp: ascii_digits_def)
    then have IH: "nat_str (digits_val s) = s" using snoc.IH by blast
    have "digits_val s \<noteq> 0"
    proof
      assume "digits_val s = 0"
      then have "s = nat_str 0" using IH by simp
      then show False using s by (simp add: nat_str_small)
    qed
    then have "\<not> digits_val s * 10 + digit_val c < 10" by simp
    then show ?thesis using IH c by (simp add: nat_str_large digit_char_val)
  qed
qed

lemma parse_octet_SomeD:
  assumes "parse_octet s = Some n" shows "n < 256" "nat_str n = s"
proof -
  have *: "ascii_digits s" "s = ''0'' \<or> hd s \<noteq> CHR ''0''" "n = digits_val s" "n \<le> 255"
    using assms by (auto simp: parse_octet_def split: if_splits)
  then show "n < 256" "nat_str n = s" by (simp_all add: ascii_digits_val_str)
qed

lemma dot_not_digit: "CHR ''.'' \<notin> set (nat_str n)" 
  by (rule nat_str_no_char) (simp add: ascii_digit_def cp_def)

lemma ipv4_octets:
  assumes "n < 2 ^ 32"
  shows "((n div 16777216 mod 256 * 256 + n div 65536 mod 256) * 256 + n div 256 mod 256) * 256 + n mod 256 = (n::nat)"
proof -
  have "n = n div 256 * 256 + n mod 256" "n div 256 = n div 65536 * 256 + n div 256 mod 256"
    "n div 65536 = n div 16777216 * 256 + n div 65536 mod 256"
    using div_mult_mod_eq[of n 256] div_mult_mod_eq[of "n div 256" 256] div_mult_mod_eq[of "n div 65536" 256]
    by (simp_all add: div_mult2_eq[symmetric])
  moreover have "n div 16777216 mod 256 = n div 16777216" using assms by (simp add: div_less_iff_less_mult)
  ultimately show ?thesis by presburger
qed

lemma ipv4_roundtrip:
  assumes "n < 2 ^ 32" shows "ipv4_of_string (ipv4_str n) = Some n"
proof -
  have "split_on (CHR ''.'') (ipv4_str n) =
    [nat_str (n div 16777216 mod 256), nat_str (n div 65536 mod 256),
     nat_str (n div 256 mod 256), nat_str (n mod 256)]"
    unfolding ipv4_str_def by (rule split_on_join) (simp_all add: dot_not_digit)
  then have "map parse_octet (split_on (CHR ''.'') (ipv4_str n)) =
    [Some (n div 16777216 mod 256), Some (n div 65536 mod 256), Some (n div 256 mod 256), Some (n mod 256)]"
    by simp
  then show ?thesis
    by (simp only: ipv4_of_string_def list.case option.case ipv4_octets[OF assms])
qed

lemma ipv4_of_string_SomeD:
  assumes "ipv4_of_string s = Some n"
  obtains a b c d where "split_on (CHR ''.'') s = map nat_str [a, b, c, d]"
    "a < 256" "b < 256" "c < 256" "d < 256" "n = ((a * 256 + b) * 256 + c) * 256 + d"
proof -
  obtain a b c d where m: "map parse_octet (split_on (CHR ''.'') s) = [Some a, Some b, Some c, Some d]"
    and n: "n = ((a * 256 + b) * 256 + c) * 256 + d"
    using assms by (auto simp: ipv4_of_string_def split: list.splits option.splits)
  then obtain sa sb sc sd where s: "split_on (CHR ''.'') s = [sa, sb, sc, sd]"
    and p: "parse_octet sa = Some a" "parse_octet sb = Some b" "parse_octet sc = Some c" "parse_octet sd = Some d"
    by (auto simp: map_eq_Cons_conv)
  show ?thesis using that[of a b c d] s n p parse_octet_SomeD by simp
qed

lemma ipv4_value_octets:
  assumes "a < 256" "b < 256" "c < 256" "d < (256::nat)" and n: "n = ((a * 256 + b) * 256 + c) * 256 + d"
  shows "n div 16777216 mod 256 = a" "n div 65536 mod 256 = b" "n div 256 mod 256 = c" "n mod 256 = d" "n < 2 ^ 32"
proof -
  have e: "(x * 256 + y) mod 256 = y" "(x * 256 + y) div 256 = x" if "y < 256" for x y :: nat
    using that by simp_all
  have 1: "n mod 256 = d" "n div 256 = (a * 256 + b) * 256 + c" unfolding n by (rule e, fact)+
  have 2: "n div 256 div 256 = a * 256 + b" "n div 256 mod 256 = c" unfolding 1 by (rule e, fact)+
  have 3: "n div 256 div 256 div 256 = a" "n div 256 div 256 mod 256 = b" unfolding 2 by (rule e, fact)+
  show "n mod 256 = d" "n div 256 mod 256 = c" using 1 2 by auto
  show "n div 65536 mod 256 = b" "n div 16777216 mod 256 = a"
    using 3 assms by (simp_all add: div_mult2_eq[symmetric])
  show "n < 2 ^ 32" using assms by simp
qed

lemma ipv4_canonical:
  assumes "ipv4_of_string s = Some n" shows "ipv4_str n = s" "n < 2 ^ 32"
proof -
  obtain a b c d where s: "split_on (CHR ''.'') s = map nat_str [a, b, c, d]"
    and v: "a < 256" "b < 256" "c < 256" "d < 256" "n = ((a * 256 + b) * 256 + c) * 256 + d"
    using ipv4_of_string_SomeD[OF assms] by metis
  have "ipv4_str n = join_with ''.'' (map nat_str [a, b, c, d])"
    unfolding ipv4_str_def using ipv4_value_octets[OF v] by simp
  also have "\<dots> = s" using join_split_on[of "CHR ''.''" s] s by simp
  finally show "ipv4_str n = s" .
  show "n < 2 ^ 32" using ipv4_value_octets[OF v] by simp
qed

section \<open>The blocks of a summarized range\<close>

lemma rzeros_dvd: "2 ^ rzeros k n dvd (n::nat)"
proof (induction k arbitrary: n)
  case (Suc k)
  show ?case
  proof (cases "odd n")
    case False
    then obtain m where n: "n = 2 * m" by blast
    have "2 ^ rzeros k m dvd m" by (rule Suc.IH)
    then show ?thesis using n by simp
  qed simp
qed simp

lemma rzeros_le: "rzeros k n \<le> k"
  by (induction k arbitrary: n) auto

lemma pow_dvd_rzeros: "2 ^ j dvd (n::nat) \<Longrightarrow> j \<le> k \<Longrightarrow> j \<le> rzeros k n"
proof (induction k arbitrary: n j)
  case (Suc k)
  show ?case
  proof (cases j)
    case (Suc i)
    then obtain m where n: "n = 2 * m" and m: "2 ^ i dvd m" using Suc.prems by (auto simp: dvd_def)
    then show ?thesis using Suc.IH[of i m] Suc Suc.prems by simp
  qed simp
qed simp

lemma bit_length_bound: "n < 2 ^ bit_length n"
proof (induction n rule: bit_length.induct)
  case (1 n)
  show ?case
  proof (cases "0 < n")
    case False then show ?thesis by (simp add: bit_length.simps[of 0])
  next
    case True
    then have "n div 2 < 2 ^ bit_length (n div 2)" using 1 by simp
    then have "n < 2 * 2 ^ bit_length (n div 2)" by linarith
    moreover have "bit_length n = Suc (bit_length (n div 2))" using True by (subst bit_length.simps) simp
    ultimately show ?thesis by simp
  qed
qed

lemma bit_length_le: "0 < n \<Longrightarrow> 2 ^ (bit_length n - 1) \<le> n"
proof (induction n rule: bit_length.induct)
  case (1 n)
  show ?case
  proof (cases "n div 2 = 0")
    case True
    then have "n = 1" using 1 by simp
    then show ?thesis by (simp add: bit_length.simps[of "Suc 0"] bit_length.simps[of 0])
  next
    case False
    then have IH: "2 ^ (bit_length (n div 2) - 1) \<le> n div 2" using 1 by simp
    have pos: "bit_length (n div 2) \<noteq> 0" using False by (subst bit_length.simps) simp
    have bl: "bit_length n = Suc (bit_length (n div 2))" using 1 by (subst bit_length.simps) simp
    have "2 ^ (bit_length n - 1) = 2 * 2 ^ (bit_length (n div 2) - 1)"
      using pos bl by (cases "bit_length (n div 2)") auto
    also have "\<dots> \<le> n" using IH by linarith
    finally show ?thesis .
  qed
qed

definition block_range :: "nat \<Rightarrow> nat \<times> nat \<Rightarrow> nat set" where
  "block_range bits = (\<lambda>(n, p). {n ..< n + 2 ^ (bits - p)})"

definition block_ok :: "nat \<Rightarrow> nat \<times> nat \<Rightarrow> bool" where
  "block_ok bits = (\<lambda>(n, p). p \<le> bits \<and> 2 ^ (bits - p) dvd n \<and> n + 2 ^ (bits - p) \<le> 2 ^ bits)"

lemma summarize_step:
  assumes "a \<le> b" and nb: "nb = min (rzeros bits a) (bit_length (b - a + 1) - 1)"
  shows "a + 2 ^ nb \<le> Suc b" "2 ^ nb dvd a" "nb \<le> bits"
proof -
  have "(2::nat) ^ nb \<le> 2 ^ (bit_length (b - a + 1) - 1)" using nb by simp
  also have "\<dots> \<le> b - a + 1" by (rule bit_length_le) simp
  finally have "(2::nat) ^ nb \<le> b - a + 1" .
  then show "a + 2 ^ nb \<le> Suc b" using assms(1) by linarith
  have "(2::nat) ^ nb dvd 2 ^ rzeros bits a" using nb by (simp add: le_imp_power_dvd)
  then show "2 ^ nb dvd a" using rzeros_dvd dvd_trans by blast
  show "nb \<le> bits" using nb rzeros_le[of bits a] by simp
qed

lemma summarize_ints_Cons:
  assumes "a \<le> b" "b < 2 ^ bits"
  obtains nb where "summarize_ints bits a b = (a, bits - nb) # summarize_ints bits (a + 2 ^ nb) b"
    "a + 2 ^ nb \<le> Suc b" "2 ^ nb dvd a" "nb \<le> bits"
proof -
  define nb where nb: "nb = min (rzeros bits a) (bit_length (b - a + 1) - 1)"
  have "summarize_ints bits a b = (a, bits - nb) # (if a + 2 ^ nb = 2 ^ bits then [] else summarize_ints bits (a + 2 ^ nb) b)"
    using assms by (simp add: summarize_ints.simps[of bits a b] nb Let_def)
  moreover have "summarize_ints bits (a + 2 ^ nb) b = []" if "a + 2 ^ nb = 2 ^ bits"
    using that assms by (simp add: summarize_ints.simps)
  ultimately have "summarize_ints bits a b = (a, bits - nb) # summarize_ints bits (a + 2 ^ nb) b"
    by simp
  then show ?thesis using that summarize_step[OF assms(1) nb] by blast
qed

lemma summarize_ints_Nil: "b < a \<Longrightarrow> summarize_ints bits a b = []"
  by (simp add: summarize_ints.simps)

lemma summarize_ints_induct [consumes 1, case_names Nil Cons]:
  assumes "b < 2 ^ bits"
    and N: "\<And>a. b < a \<Longrightarrow> summarize_ints bits a b = [] \<Longrightarrow> P a"
    and C: "\<And>a nb. a \<le> b \<Longrightarrow> a + 2 ^ nb \<le> Suc b \<Longrightarrow> 2 ^ nb dvd a \<Longrightarrow> nb \<le> bits \<Longrightarrow>
       summarize_ints bits a b = (a, bits - nb) # summarize_ints bits (a + 2 ^ nb) b \<Longrightarrow>
       P (a + 2 ^ nb) \<Longrightarrow> P a"
  shows "P a"
proof (induction "Suc b - a" arbitrary: a rule: less_induct)
  case less
  show ?case
  proof (cases "a \<le> b")
    case True
    obtain nb where nb: "summarize_ints bits a b = (a, bits - nb) # summarize_ints bits (a + 2 ^ nb) b"
      "a + 2 ^ nb \<le> Suc b" "2 ^ nb dvd a" "nb \<le> bits"
      by (rule summarize_ints_Cons[OF True assms(1)])
    have "Suc b - (a + 2 ^ nb) < Suc b - a" using True by (auto intro!: diff_less_mono2)
    then have "P (a + 2 ^ nb)" by (rule less)
    then show ?thesis using C[OF True nb(2-4) nb(1)] by simp
  next
    case False
    then show ?thesis using N summarize_ints_Nil by simp
  qed
qed

lemma summarize_ints_cover:
  assumes "b < 2 ^ bits"
  shows "(\<Union>x\<in>set (summarize_ints bits a b). block_range bits x) = {a..b}"
  using assms
proof (induction a rule: summarize_ints_induct)
  case (Cons a nb)
  have "block_range bits (a, bits - nb) = {a ..< a + 2 ^ nb}" using Cons by (simp add: block_range_def)
  then show ?case using Cons by auto
qed auto

lemma summarize_ints_ok:
  assumes "b < 2 ^ bits"
  shows "list_all (block_ok bits) (summarize_ints bits a b)"
  using assms
proof (induction a rule: summarize_ints_induct)
  case (Cons a nb)
  then show ?case using assms by (simp add: block_ok_def)
qed simp

lemma summarize_ints_sorted:
  assumes "b < 2 ^ bits"
  shows "sorted_wrt (\<lambda>x y. \<forall>i\<in>block_range bits x. \<forall>j\<in>block_range bits y. i < j) (summarize_ints bits a b)"
  using assms
proof (induction a rule: summarize_ints_induct)
  case (Cons a nb)
  have "\<forall>y\<in>set (summarize_ints bits (a + 2 ^ nb) b). block_range bits y \<subseteq> {a + 2 ^ nb..b}"
    using summarize_ints_cover[OF assms, of "a + 2 ^ nb"] by blast
  moreover have "block_range bits (a, bits - nb) = {a ..< a + 2 ^ nb}" using Cons by (simp add: block_range_def)
  ultimately show ?case using Cons by fastforce
qed simp

section \<open>IPv6 text: lemmas\<close>

lemma hex_char_simps [simp]:
  assumes "d < 16"
  shows "hex_val (hex_char d) = d" "hex_digit (hex_char d)"
    "hex_char d \<noteq> CHR '':''" "hex_char d \<noteq> CHR ''.''" "hex_char d \<noteq> CHR ''%''" "hex_char d \<noteq> CHR ''/''"
proof -
  have "d \<in> set [0..<16]" using assms by simp
  moreover have "list_all (\<lambda>d. hex_val (hex_char d) = d \<and> hex_digit (hex_char d) \<and>
    hex_char d \<noteq> CHR '':'' \<and> hex_char d \<noteq> CHR ''.'' \<and> hex_char d \<noteq> CHR ''%'' \<and> hex_char d \<noteq> CHR ''/'') [0..<16]"
    by code_simp
  ultimately have "hex_val (hex_char d) = d \<and> hex_digit (hex_char d) \<and>
    hex_char d \<noteq> CHR '':'' \<and> hex_char d \<noteq> CHR ''.'' \<and> hex_char d \<noteq> CHR ''%'' \<and> hex_char d \<noteq> CHR ''/''"
    unfolding list_all_iff by (rule bspec[rotated])
  then show "hex_val (hex_char d) = d" "hex_digit (hex_char d)"
    "hex_char d \<noteq> CHR '':''" "hex_char d \<noteq> CHR ''.''" "hex_char d \<noteq> CHR ''%''" "hex_char d \<noteq> CHR ''/''"
    by blast+
qed

lemma hex_str_small: "n < 16 \<Longrightarrow> hex_str n = [hex_char n]"
  by (simp add: hex_str.simps)

lemma hex_str_large: "\<not> n < 16 \<Longrightarrow> hex_str n = hex_str (n div 16) @ [hex_char (n mod 16)]"
  by (subst hex_str.simps) simp

lemma hexs_val_snoc [simp]: "hexs_val (s @ [c]) = hexs_val s * 16 + hex_val c"
  by (simp add: hexs_val_def)

lemma hex_str_props:
  "hexs_val (hex_str n) = n \<and> list_all hex_digit (hex_str n) \<and> hex_str n \<noteq> []
   \<and> set (hex_str n) \<inter> {CHR '':'', CHR ''.'', CHR ''%'', CHR ''/''} = {}"
proof (induction n rule: hex_str.induct)
  case (1 n)
  show ?case
  proof (cases "n < 16")
    case True
    then show ?thesis by (simp add: hex_str_small hexs_val_def)
  next
    case False
    then show ?thesis using 1 by (simp add: hex_str_large)
  qed
qed

lemma hex_str_simps [simp]:
  "hexs_val (hex_str n) = n" "list_all hex_digit (hex_str n)" "hex_str n \<noteq> []"
  "CHR '':'' \<notin> set (hex_str n)" "CHR ''.'' \<notin> set (hex_str n)"
  "CHR ''%'' \<notin> set (hex_str n)" "CHR ''/'' \<notin> set (hex_str n)"
  using hex_str_props[of n] by auto

lemma length_hex_str: "n < 16 ^ Suc k \<Longrightarrow> length (hex_str n) \<le> Suc k"
proof (induction k arbitrary: n)
  case 0
  then show ?case by (simp add: hex_str_small)
next
  case (Suc k)
  then have "n div 16 < 16 ^ Suc k" by (simp add: less_mult_imp_div_less mult.commute)
  then show ?case using Suc.IH[of "n div 16"]
    by (cases "n < 16") (simp_all add: hex_str_small hex_str_large)
qed

lemma parse_hextet_hex_str: "n < 65536 \<Longrightarrow> parse_hextet (hex_str n) = Some n"
  using length_hex_str[of n 3] by (simp add: parse_hextet_def)

definition hextets_val :: "nat \<Rightarrow> nat list \<Rightarrow> nat" where
  "hextets_val = foldl (\<lambda>v h. v * 65536 + h)"

lemma hextets_val_simps [simp]:
  "hextets_val v [] = v" "hextets_val v (h # hs) = hextets_val (v * 65536 + h) hs"
  "hextets_val v (hs @ ks) = hextets_val (hextets_val v hs) ks"
  by (simp_all add: hextets_val_def)

lemma hextets_val_zeros: "hextets_val v (replicate k 0) = v * 65536 ^ k"
  by (induction k arbitrary: v) simp_all

lemma push_hextets_str:
  "list_all (\<lambda>h. h < 65536) hs \<Longrightarrow> push_hextets v (map hex_str hs) = Some (hextets_val v hs)"
  by (induction hs arbitrary: v) (simp_all add: parse_hextet_hex_str)

lemma hexs_val_bound: "list_all hex_digit s \<Longrightarrow> hexs_val s < 16 ^ length s"
proof (induction s rule: rev_induct)
  case (snoc c s)
  then have "hex_val c < 16" "hexs_val s < 16 ^ length s"
    by (auto simp: hex_digit_def hex_val_def ascii_digit_def)
  then show ?case by simp
qed (simp add: hexs_val_def)

lemma parse_hextet_bound:
  assumes "parse_hextet s = Some h" shows "h < 65536"
proof -
  have *: "list_all hex_digit s" "length s \<le> 4" "h = hexs_val s"
    using assms by (auto simp: parse_hextet_def split: if_splits)
  have "h < 16 ^ length s" using hexs_val_bound * by simp
  also have "\<dots> \<le> 16 ^ 4" using * by (intro power_increasing) auto
  finally show ?thesis by simp
qed

lemma push_hextets_bound:
  "push_hextets v ps = Some n \<Longrightarrow> v < 65536 ^ k \<Longrightarrow> n < 65536 ^ (k + length ps)"
proof (induction ps arbitrary: v k)
  case (Cons p ps)
  then obtain h where h: "parse_hextet p = Some h" "push_hextets (v * 65536 + h) ps = Some n"
    by (auto split: option.splits)
  have "v * 65536 + h < 65536 ^ Suc k" using parse_hextet_bound[OF h(1)] Cons.prems(2) by simp
  then show ?case using Cons.IH[OF h(2)] by fastforce
qed simp

lemma hextets_step: "n div 65536 ^ Suc k * 65536 + n div 65536 ^ k mod 65536 = n div (65536::nat) ^ k"
  unfolding power_Suc2 div_mult2_eq by simp

lemma hextets_telescope:
  "hextets_val (n div 65536 ^ Suc m) (map (\<lambda>k. n div 65536 ^ k mod 65536) (rev [0..<Suc m])) = n"
proof (induction m)
  case 0
  then show ?case using hextets_step[of n 0] by simp
next
  case (Suc m)
  have "rev [0..<Suc (Suc m)] = Suc m # rev [0..<Suc m]" by simp
  then show ?case using hextets_step[of n "Suc m"] Suc by (simp del: power_Suc upt_Suc)
qed

lemma hextets_val_hextets:
  assumes "n < 2 ^ 128" shows "hextets_val 0 (hextets n) = n"
proof -
  have "hextets n = map (\<lambda>k. n div 65536 ^ k mod 65536) (rev [0..<Suc 7])"
    by (simp add: hextets_def upt_rec)
  moreover have "n div 65536 ^ Suc 7 = 0" using assms by simp
  ultimately show ?thesis using hextets_telescope[of n 7] by simp
qed

lemma hextets_small: "list_all (\<lambda>h. h < 65536) (hextets n)"
  by (simp add: hextets_def list_all_iff)

lemma length_hextets [simp]: "length (hextets n) = 8"
  by (simp add: hextets_def)

text \<open>What the scan knows after \<open>i\<close> hextets: the best and the current run lie in the prefix and are zero.\<close>

definition zero_run :: "nat list \<Rightarrow> nat \<times> nat \<Rightarrow> bool" where
  "zero_run hs r \<longleftrightarrow> fst r + snd r \<le> length hs \<and> (\<forall>i. fst r \<le> i \<and> i < fst r + snd r \<longrightarrow> hs ! i = 0)"

lemma zero_runs_inv:
  "zero_run pre best \<Longrightarrow> zero_run pre cur \<Longrightarrow> (snd cur = 0 \<or> fst cur + snd cur = length pre) \<Longrightarrow>
   zero_run (pre @ hs) (zero_runs (length pre) best cur hs)"
proof (induction hs arbitrary: pre best cur)
  case (Cons h hs)
  have mono: "zero_run (pre @ [h]) r" if "zero_run pre r" for r
    using that by (auto simp: zero_run_def nth_append)
  show ?case
  proof (cases "h = 0")
    case True
    define start where "start = (if snd cur = 0 then length pre else fst cur)"
    have pos: "start + Suc (snd cur) = length (pre @ [h])"
      using Cons.prems(3) by (auto simp: start_def)
    have "(pre @ [h]) ! i = 0" if "start \<le> i" "i < start + Suc (snd cur)" for i
    proof (cases "i = length pre")
      case False
      then have "i < length pre" "snd cur \<noteq> 0" "fst cur \<le> i" "i < fst cur + snd cur"
        using that pos Cons.prems(3) by (auto simp: start_def split: if_splits)
      then show ?thesis using Cons.prems(2) by (simp add: zero_run_def nth_append)
    qed (simp add: True)
    then have cur: "zero_run (pre @ [h]) (start, Suc (snd cur))"
      using pos by (simp add: zero_run_def)
    let ?best = "if Suc (snd cur) > snd best then (start, Suc (snd cur)) else best"
    have best: "zero_run (pre @ [h]) ?best"
      using cur mono[OF Cons.prems(1)] by simp
    have "zero_run ((pre @ [h]) @ hs) (zero_runs (length (pre @ [h])) ?best (start, Suc (snd cur)) hs)"
      by (rule Cons.IH[OF best cur]) (use pos in simp)
    moreover have "zero_runs (length pre) best cur (h # hs) = zero_runs (length (pre @ [h])) ?best (start, Suc (snd cur)) hs"
      using True by (simp add: start_def Let_def)
    ultimately show ?thesis by (simp only: append_assoc append_Cons append_Nil)
  next
    case False
    have z: "zero_run (pre @ [h]) (0, 0)" by (simp add: zero_run_def)
    have "zero_run ((pre @ [h]) @ hs) (zero_runs (length (pre @ [h])) best (0, 0) hs)"
      by (rule Cons.IH[OF mono[OF Cons.prems(1)] z]) simp
    then show ?thesis using False by simp
  qed
qed simp

lemma zero_runs_run: "zero_run hs (zero_runs 0 (0, 0) (0, 0) hs)"
  using zero_runs_inv[of "[]" "(0,0)" "(0,0)" hs] by (simp add: zero_run_def)

lemma zero_run_split:
  assumes "zero_run hs (s, l)"
  shows "hs = take s hs @ replicate l 0 @ drop (s + l) hs"
proof -
  have "take l (drop s hs) = replicate l 0"
    using assms by (intro nth_equalityI) (auto simp: zero_run_def)
  then show ?thesis by (metis add.commute append_take_drop_id drop_drop)
qed

lemma skip_indices_one:
  assumes "pre \<noteq> []" "post \<noteq> []" "\<forall>p\<in>set (tl pre). p \<noteq> []" "\<forall>p\<in>set (butlast post). p \<noteq> []"
  shows "skip_indices (pre @ [] # post) = [length pre]"
proof -
  let ?ps = "pre @ [] # post"
  have u: "[1..<length ?ps - 1] = [1..<length pre] @ [length pre] @ [Suc (length pre)..<length pre + length post]"
    using assms(1,2) upt_add_eq_append[of 1 "length pre" "length post"]
    by (simp add: upt_conv_Cons Suc_le_eq)
  have 1: "filter (\<lambda>i. ?ps ! i = []) [1..<length pre] = []"
  proof -
    have "?ps ! i \<noteq> []" if "1 \<le> i" "i < length pre" for i
    proof -
      have "pre ! i = tl pre ! (i - 1)" using that by (simp add: nth_tl)
      moreover have "tl pre ! (i - 1) \<in> set (tl pre)" using that by (intro nth_mem) auto
      ultimately show ?thesis using assms(3) that by (simp add: nth_append)
    qed
    then show ?thesis by (simp add: filter_empty_conv)
  qed
  have 2: "filter (\<lambda>i. ?ps ! i = []) [Suc (length pre)..<length pre + length post] = []"
  proof -
    have "?ps ! i \<noteq> []" if i: "Suc (length pre) \<le> i" "i < length pre + length post" for i
    proof -
      obtain j where j: "i = Suc (length pre) + j" using le_Suc_ex[OF i(1)] by blast
      have "?ps ! (length pre + Suc j) = ([] # post) ! Suc j" by (rule nth_append_length_plus)
      then have "?ps ! i = post ! j" using j by simp
      also have "\<dots> = butlast post ! j" using i j by (intro nth_butlast[symmetric]) auto
      finally have e: "?ps ! i = butlast post ! j" .
      have "butlast post ! j \<in> set (butlast post)" using i j by (intro nth_mem) auto
      then show ?thesis unfolding e using assms(4) by blast
    qed
    then show ?thesis by (simp add: filter_empty_conv)
  qed
  show ?thesis unfolding skip_indices_def u using 1 2 by simp
qed

text \<open>The parts on both sides of a compressed run of \<open>l\<close> groups from position \<open>s\<close>; a run at an end leaves an empty part.\<close>

definition parts_before :: "nat \<Rightarrow> string list \<Rightarrow> string list" where
  "parts_before s ss = (if s = 0 then [[]] else take s ss)"

definition parts_after :: "nat \<Rightarrow> string list \<Rightarrow> string list" where
  "parts_after s ss = (if s = length ss then [[]] else drop s ss)"

lemma parts_lengths:
  assumes "s + l \<le> length ss" "ss \<noteq> []"
  shows "length (parts_before s ss) = (if s = 0 then 1 else s)"
    "length (parts_after (s + l) ss) = (if s + l = length ss then 1 else length ss - (s + l))"
    "parts_before s ss \<noteq> []" "parts_after (s + l) ss \<noteq> []"
  using assms by (auto simp: parts_before_def parts_after_def)

lemma parts_skip:
  assumes ne: "\<forall>p\<in>set ss. p \<noteq> []" and sl: "s + l \<le> length ss" "ss \<noteq> []"
  shows "skip_indices (parts_before s ss @ [] # parts_after (s + l) ss) = [length (parts_before s ss)]"
proof (rule skip_indices_one)
  have "set (tl (parts_before s ss)) \<subseteq> set ss"
    using set_take_subset[of s ss] list.set_sel(2)[of "take s ss"]
    by (cases "s = 0"; cases "take s ss = []") (auto simp: parts_before_def)
  then show "\<forall>p\<in>set (tl (parts_before s ss)). p \<noteq> []" using ne by blast
  have "set (butlast (parts_after (s + l) ss)) \<subseteq> set ss"
    using set_drop_subset[of "s + l" ss] by (auto simp: parts_after_def dest!: in_set_butlastD)
  then show "\<forall>p\<in>set (butlast (parts_after (s + l) ss)). p \<noteq> []" using ne by blast
qed (rule parts_lengths[OF sl])+

lemma parts_ends:
  assumes ne: "\<forall>p\<in>set ss. p \<noteq> []" and sl: "s + l \<le> length ss" "ss \<noteq> []"
  shows "hd (parts_before s ss @ [] # parts_after (s + l) ss) = [] \<longleftrightarrow> s = 0"
    and "last (parts_before s ss @ [] # parts_after (s + l) ss) = [] \<longleftrightarrow> s + l = length ss"
proof -
  have ends: "hd ss \<noteq> []" "last ss \<noteq> []" using ne sl(2) hd_in_set last_in_set by blast+
  show "hd (parts_before s ss @ [] # parts_after (s + l) ss) = [] \<longleftrightarrow> s = 0"
  proof (cases "s = 0")
    case False
    then have "hd (take s ss @ [] # parts_after (s + l) ss) = hd ss" using sl(2) by (simp add: hd_append hd_take)
    then show ?thesis using False ends by (simp add: parts_before_def)
  qed (simp add: parts_before_def)
  show "last (parts_before s ss @ [] # parts_after (s + l) ss) = [] \<longleftrightarrow> s + l = length ss"
  proof (cases "s + l = length ss")
    case False
    then have "last (drop (s + l) ss) = last ss" using sl(1) by (intro last_drop) simp
    then show ?thesis using False ends parts_lengths(4)[OF sl] by (simp add: parts_after_def)
  qed (simp add: parts_after_def)
qed

lemma ipv6_of_parts_gap:
  assumes len: "length hs = 8" and small: "list_all (\<lambda>h. h < 65536) hs" and sl: "s + l \<le> 8" "1 < l"
  shows "ipv6_of_parts (parts_before s (map hex_str hs) @ [] # parts_after (s + l) (map hex_str hs))
    = Some (hextets_val (hextets_val 0 (take s hs) * 65536 ^ l) (drop (s + l) hs))"
proof -
  let ?ss = "map hex_str hs"
  let ?pre = "parts_before s ?ss" and ?post = "parts_after (s + l) ?ss"
  have ne: "\<forall>p\<in>set ?ss. p \<noteq> []" and bound: "s + l \<le> length ?ss" "?ss \<noteq> []" using len sl by auto
  note lens = parts_lengths[OF bound] and skip = parts_skip[OF ne bound] and ends = parts_ends[OF ne bound]
  define lo where "lo = 8 - (s + l)"
  have take: "take s (?pre @ [] # ?post) = take s ?ss" using lens(1) by (simp add: parts_before_def)
  have drop: "drop (length (?pre @ [] # ?post) - lo) (?pre @ [] # ?post) = drop (s + l) ?ss"
    using lens(2) len sl by (auto simp: parts_after_def lo_def)
  have hi: "(if hd (?pre @ [] # ?post) = [] then length ?pre - 1 else length ?pre) = s" using ends(1) lens(1) by auto
  have lo: "(if last (?pre @ [] # ?post) = [] then length (?pre @ [] # ?post) - length ?pre - 1 - 1
             else length (?pre @ [] # ?post) - length ?pre - 1) = lo"
    using ends(2) lens(2) len lo_def by auto
  have exp: "8 - (s + lo) = l" "\<not> s + lo > 7" "s + l = 8 \<longrightarrow> lo = 0" using sl by (auto simp: lo_def)
  have "list_all (\<lambda>h. h < 65536) (take s hs)" "list_all (\<lambda>h. h < 65536) (drop (s + l) hs)"
    using small by (auto simp: list_all_iff dest: in_set_takeD in_set_dropD)
  then have p1: "push_hextets 0 (take s ?ss) = Some (hextets_val 0 (take s hs))"
    and p2: "push_hextets v (drop (s + l) ?ss) = Some (hextets_val v (drop (s + l) hs))" for v
    by (simp_all add: take_map drop_map push_hextets_str)
  show ?thesis
    unfolding ipv6_of_parts_def fill_skipped_def skip list.case Let_def hi lo take p1 option.case drop exp(1) p2
    using ends exp(2,3) len by auto
qed

lemma ipv6_of_parts_compressed:
  assumes len: "length hs = 8" and small: "list_all (\<lambda>h. h < 65536) hs"
  shows "ipv6_of_parts (compress_hextets hs) = Some (hextets_val 0 hs)"
proof -
  obtain s l where sl: "zero_runs 0 (0, 0) (0, 0) hs = (s, l)" by fastforce
  have run: "zero_run hs (s, l)" using zero_runs_run[of hs] sl by simp
  let ?ss = "map hex_str hs"
  have ne: "\<forall>p\<in>set ?ss. p \<noteq> []" by auto
  show ?thesis
  proof (cases "l > 1")
    case False
    have "?ss \<noteq> []" using len by auto
    then have "hd ?ss \<noteq> []" "last ?ss \<noteq> []" using ne hd_in_set last_in_set by blast+
    moreover have "compress_hextets hs = ?ss" using False by (simp add: compress_hextets_def sl)
    moreover have "skip_indices ?ss = []" using ne len by (auto simp: skip_indices_def filter_empty_conv)
    ultimately show ?thesis using len small by (simp add: ipv6_of_parts_def push_hextets_str)
  next
    case True
    have "s + l \<le> 8" using run len by (simp add: zero_run_def)
    note gap = ipv6_of_parts_gap[OF len small this True]
    have "compress_hextets hs = parts_before s ?ss @ [] # parts_after (s + l) ?ss"
      using True len by (simp add: compress_hextets_def sl parts_before_def parts_after_def Let_def)
    then have "ipv6_of_parts (compress_hextets hs) = Some (hextets_val 0 (take s hs @ replicate l 0 @ drop (s + l) hs))"
      using gap by (simp add: hextets_val_zeros)
    then show ?thesis using zero_run_split[OF run] by simp
  qed
qed

lemma compress_hextets_parts:
  assumes ps: "compress_hextets hs = ps" "p \<in> set ps"
  shows "p = [] \<or> p \<in> hex_str ` set hs"
proof -
  have "set (take s (map hex_str hs)) \<subseteq> hex_str ` set hs" "set (drop s (map hex_str hs)) \<subseteq> hex_str ` set hs" for s
    using set_take_subset[of s "map hex_str hs"] set_drop_subset[of s "map hex_str hs"] by simp_all
  note sub = this
  obtain s l where sl: "zero_runs 0 (0, 0) (0, 0) hs = (s, l)" by fastforce
  have "set (compress_hextets hs) \<subseteq> insert [] (hex_str ` set hs)"
    using sub(1)[of s] sub(2)[of "s + l"]
    by (auto simp: compress_hextets_def sl Let_def)
  then show ?thesis using ps by blast
qed

lemma compress_hextets_length:
  assumes "length hs = 8"
  shows "3 \<le> length (compress_hextets hs)" "length (compress_hextets hs) \<le> 9"
proof -
  obtain s l where sl: "zero_runs 0 (0, 0) (0, 0) hs = (s, l)" by fastforce
  have "s + l \<le> 8" using zero_runs_run[of hs] sl assms by (simp add: zero_run_def)
  then show "3 \<le> length (compress_hextets hs)" "length (compress_hextets hs) \<le> 9"
    using assms by (auto simp: compress_hextets_def sl Let_def)
qed

lemma compress_hextets_clean:
  assumes "c \<in> {CHR '':'', CHR ''.'', CHR ''%'', CHR ''/''}" "p \<in> set (compress_hextets hs)"
  shows "c \<notin> set p"
  using compress_hextets_parts[OF refl assms(2)] assms(1) by auto

lemma hextets_roundtrip:
  assumes "n < 2 ^ 128" shows "ipv6_of_string (hextets_str n) = Some n"
proof -
  let ?ps = "compress_hextets (hextets n)"
  have len: "3 \<le> length ?ps" "length ?ps \<le> 9" by (simp_all add: compress_hextets_length)
  then have ne: "?ps \<noteq> []" by auto
  have "split_on (CHR '':'') (hextets_str n) = ?ps"
    unfolding hextets_str_def using ne compress_hextets_clean[of "CHR '':''"] by (intro split_on_join) auto
  moreover have "v4_suffix ?ps = Some ?ps"
    using compress_hextets_clean[of "CHR ''.''" "last ?ps" "hextets n"] ne by (simp add: v4_suffix_def)
  ultimately show ?thesis
    using len ipv6_of_parts_compressed[of "hextets n"] hextets_small hextets_val_hextets[OF assms]
    by (simp add: ipv6_of_string_def)
qed

lemma join_with_set: "c \<in> set (join_with sep ps) \<Longrightarrow> c \<in> set sep \<or> (\<exists>p\<in>set ps. c \<in> set p)"
  by (induction sep ps rule: join_with.induct) auto

lemma sep_in_join: "length ps \<ge> 2 \<Longrightarrow> set sep \<subseteq> set (join_with sep ps)"
  by (induction sep ps rule: join_with.induct) auto

lemma hextets_str_set:
  "c \<in> set (hextets_str n) \<Longrightarrow> c = CHR '':'' \<or> hex_digit c"
  "CHR '':'' \<in> set (hextets_str n)"
proof -
  show "c = CHR '':'' \<or> hex_digit c" if c: "c \<in> set (hextets_str n)"
  proof (cases "c = CHR '':''")
    case False
    then obtain p where p: "p \<in> set (compress_hextets (hextets n))" "c \<in> set p"
      using c by (auto simp: hextets_str_def dest!: join_with_set)
    then obtain h where "p = hex_str h" using compress_hextets_parts[OF refl p(1)] by auto
    then show ?thesis using p(2) hex_str_props[of h] by (simp add: list_all_iff)
  qed simp
  show "CHR '':'' \<in> set (hextets_str n)"
    using sep_in_join[of "compress_hextets (hextets n)" "'':''"] compress_hextets_length(1)[of "hextets n"]
    by (simp add: hextets_str_def)
qed

lemma ipv4_str_set: "c \<in> set (ipv4_str n) \<Longrightarrow> ascii_digit c \<or> c = CHR ''.''"
  using nat_str_digits by (auto simp: ipv4_str_def list_all_iff dest!: join_with_set)

lemma ipv6_str_chars:
  assumes "c \<in> set (ipv6_str n)" shows "c = CHR '':'' \<or> c = CHR ''.'' \<or> hex_digit c"
  using assms hextets_str_set(1) ipv4_str_set
  by (auto simp: ipv6_str_def hex_digit_def split: option.splits)

text \<open>A mapped address splits into the pieces of its plain form, with the last two of them joined.\<close>

lemma hextets_mapped:
  assumes "ipv4_mapped n = Some v"
  shows "hextets n = [0, 0, 0, 0, 0, 65535, v div 65536 mod 65536, v mod 65536]"
proof -
  have v: "n div 4294967296 = 65535" "v = n mod 4294967296"
    using assms by (auto simp: ipv4_mapped_def split: if_splits)
  have "65535 * 4294967296 + v = n" using div_mult_mod_eq[of n 4294967296] unfolding v(1) v(2)[symmetric] .
  then have n: "n = v + 4294901760 * 65536" by simp
  have "n div 65536 = v div 65536 + 65535 * 65536" unfolding n by (subst div_mult_self1) simp_all
  then have "n div 65536 mod 65536 = v div 65536 mod 65536" by (simp only: mod_mult_self1)
  moreover have "n mod 65536 = v mod 65536" unfolding n by (rule mod_mult_self1)
  moreover have "n < 281474976710656"
    using \<open>65535 * 4294967296 + v = n\<close> mod_less_divisor[of 4294967296 n, folded v(2)] by simp
  moreover have "[0..<8] = [0, 1, 2, 3, 4, 5, 6, 7::nat]" by (simp add: upt_rec)
  ultimately show ?thesis using v(1) by (simp add: hextets_def del: upt_Suc)
qed

lemma ipv6_roundtrip:
  assumes "n < 2 ^ 128" shows "ipv6_of_string (ipv6_str n) = Some n"
proof (cases "ipv4_mapped n")
  case None
  then show ?thesis using hextets_roundtrip[OF assms] by (simp add: ipv6_str_def)
next
  case (Some v)
  have h: "hextets_str 65535 = ''::ffff''" by code_simp
  have z: "zero_runs 0 (0, 0) (0, 0) [0, 0, 0, 0, 0, 65535, a, b] = (0, 5)" for a b
    by (simp add: Let_def)
  let ?a = "hex_str (v div 65536 mod 65536)" and ?b = "hex_str (v mod 65536)"
  have c: "compress_hextets (hextets n) = [[], [], hex_str 65535, ?a, ?b]"
    by (simp only: hextets_mapped[OF Some] compress_hextets_def z prod.case Let_def) simp
  have f: "hex_str 65535 = ''ffff''" by code_simp
  have v: "v < 2 ^ 32" "n div 4294967296 = 65535" using Some by (auto simp: ipv4_mapped_def split: if_splits)
  have "ipv6_str n = join_with '':'' [[], [], ''ffff'', ipv4_str v]"
    by (simp add: ipv6_str_def Some v(2) h)
  moreover have "split_on (CHR '':'') (join_with '':'' [[], [], ''ffff'', ipv4_str v]) = [[], [], ''ffff'', ipv4_str v]"
    using ipv4_str_set[of "CHR '':''" v] by (intro split_on_join) (auto simp: ascii_digit_def cp_def)
  ultimately have s: "split_on (CHR '':'') (ipv6_str n) = [[], [], ''ffff'', ipv4_str v]" by simp
  have "CHR ''.'' \<in> set (ipv4_str v)"
    using sep_in_join[of "[nat_str (v div 16777216 mod 256), nat_str (v div 65536 mod 256),
                      nat_str (v div 256 mod 256), nat_str (v mod 256)]" "''.''"] by (simp add: ipv4_str_def)
  then have "v4_suffix [[], [], ''ffff'', ipv4_str v] = Some (compress_hextets (hextets n))"
    by (simp add: v4_suffix_def ipv4_roundtrip[OF v(1)] c f)
  moreover have "ipv6_of_parts (compress_hextets (hextets n)) = Some n"
    using ipv6_of_parts_compressed[of "hextets n"] hextets_small hextets_val_hextets[OF assms] by simp
  ultimately show ?thesis by (simp add: ipv6_of_string_def s c)
qed

lemma fill_skipped_bound:
  assumes "fill_skipped ps hi lo = Some n" shows "n < 2 ^ 128"
proof -
  obtain v where v: "hi + lo \<le> 7" "push_hextets 0 (take hi ps) = Some v"
    "push_hextets (v * 65536 ^ (8 - (hi + lo))) (drop (length ps - lo) ps) = Some n"
    using assms by (auto simp: fill_skipped_def not_less split: if_splits option.splits)
  let ?h = "length (take hi ps)" and ?l = "length (drop (length ps - lo) ps)"
  have "v < 65536 ^ ?h" using push_hextets_bound[OF v(2), of 0] by simp
  then have "v * 65536 ^ (8 - (hi + lo)) < 65536 ^ (?h + (8 - (hi + lo)))"
    by (simp add: power_add)
  then have "n < 65536 ^ (?h + (8 - (hi + lo)) + ?l)" by (rule push_hextets_bound[OF v(3)])
  also have "\<dots> \<le> 65536 ^ 8" using v(1) by (intro power_increasing) auto
  finally show ?thesis by simp
qed

lemma ipv6_of_parts_bound:
  assumes "ipv6_of_parts ps = Some n" shows "n < 2 ^ 128"
proof (cases "skip_indices ps = []")
  case True
  then have "length ps = 8" "push_hextets 0 ps = Some n"
    using assms by (auto simp: ipv6_of_parts_def split: if_splits)
  then show ?thesis using push_hextets_bound[of 0 ps n 0] by simp
next
  case False
  then obtain hi lo where "fill_skipped ps hi lo = Some n"
    using assms by (auto simp: ipv6_of_parts_def Let_def split: list.splits if_splits)
  then show ?thesis by (rule fill_skipped_bound)
qed

lemma ipv6_of_string_bound:
  assumes "ipv6_of_string s = Some n" shows "n < 2 ^ 128"
proof -
  obtain ps where "ipv6_of_parts ps = Some n"
    using assms by (auto simp: ipv6_of_string_def Let_def split: if_splits option.splits)
  then show ?thesis by (rule ipv6_of_parts_bound)
qed

section \<open>Printing and parsing as a contract\<close>

locale codec =
  fixes parse :: "'s \<Rightarrow> 'v option" and show_val :: "'v \<Rightarrow> 's" and valid :: "'v \<Rightarrow> bool"
  assumes parse_valid: "parse s = Some v \<Longrightarrow> valid v"
    and parse_show: "valid v \<Longrightarrow> parse (show_val v) = Some v"
begin

lemma show_inject: "valid v \<Longrightarrow> valid w \<Longrightarrow> show_val v = show_val w \<longleftrightarrow> v = w"
  using parse_show by (metis option.inject)

lemma normal_form: "parse s = Some v \<Longrightarrow> parse (show_val v) = Some v"
  by (rule parse_show) (rule parse_valid)

lemma same_normal_form:
  "parse s = Some v \<Longrightarrow> parse t = Some w \<Longrightarrow> show_val v = show_val w \<longleftrightarrow> v = w"
  by (rule show_inject) (simp_all add: parse_valid)

end

locale strict_codec = codec +
  assumes show_parse: "parse s = Some v \<Longrightarrow> show_val v = s"
begin

lemma parse_inject: "parse s = Some v \<Longrightarrow> parse t = Some v \<Longrightarrow> s = t"
  using show_parse by metis

end

fun ip_valid :: "ipaddr \<Rightarrow> bool" where
  "ip_valid (V4 n) \<longleftrightarrow> n < 2 ^ 32"
| "ip_valid (V6 n scope) \<longleftrightarrow> n < 2 ^ 128 \<and>
     (case scope of None \<Rightarrow> True | Some s \<Rightarrow> s \<noteq> [] \<and> CHR ''%'' \<notin> set s \<and> CHR ''/'' \<notin> set s)"

interpretation ipv4: strict_codec ipv4_of_string ipv4_str "\<lambda>n. n < 2 ^ 32"
  by unfold_locales (simp_all add: ipv4_canonical ipv4_roundtrip del: power_numeral)

lemma ipv6_str_set:
  "CHR '':'' \<in> set (ipv6_str n)" "CHR ''%'' \<notin> set (ipv6_str n)" "CHR ''/'' \<notin> set (ipv6_str n)"
  using hextets_str_set(2) ipv6_str_chars[of "CHR ''%''" n] ipv6_str_chars[of "CHR ''/''" n]
  by (auto simp: ipv6_str_def hex_digit_def ascii_digit_def cp_def split: option.splits)

lemma ipv4_no_colon: "CHR '':'' \<in> set s \<Longrightarrow> ipv4_of_string s = None"
  using ipv4_canonical(1)[of s] ipv4_str_set[of "CHR '':''"]
  by (cases "ipv4_of_string s") (auto simp: ascii_digit_def cp_def)

lemma split_scope_id_none: "CHR ''%'' \<notin> set s \<Longrightarrow> split_scope_id s = Some (s, None)"
  by (auto simp: split_scope_id_def py_partition_def)

lemma split_scope_id_some:
  "CHR ''%'' \<notin> set a \<Longrightarrow> scope \<noteq> [] \<Longrightarrow> CHR ''%'' \<notin> set scope \<Longrightarrow>
   split_scope_id (a @ CHR ''%'' # scope) = Some (a, Some scope)"
  by (induction a) (auto simp: split_scope_id_def py_partition_def)

lemma split_scope_id_SomeD:
  assumes "split_scope_id s = Some (a, scope)"
  shows "scope = None \<or> (\<exists>sc. scope = Some sc \<and> sc \<noteq> [] \<and> CHR ''%'' \<notin> set sc \<and> set sc \<subseteq> set s)"
proof -
  have "set (tl (dropWhile P s)) \<subseteq> set s" for P :: "char \<Rightarrow> bool"
  proof -
    have "set (tl xs) \<subseteq> set xs" for xs :: string by (cases xs) auto
    then show ?thesis using set_dropWhileD[of _ P s] by blast
  qed
  then show ?thesis using assms by (auto simp: split_scope_id_def py_partition_def split: if_splits)
qed

lemma ipv6_address_valid:
  assumes "ipv6_address s = Some a" shows "ip_valid a" "max_prefixlen a = 128"
proof -
  obtain x scope n where a: "a = V6 n scope" and x: "split_scope_id s = Some (x, scope)"
    "ipv6_of_string x = Some n" "CHR ''/'' \<notin> set s"
    using assms by (auto simp: ipv6_address_def split: if_splits option.splits)
  have "n < 2 ^ 128" by (rule ipv6_of_string_bound[OF x(2)])
  moreover have "scope = None \<or> (\<exists>sc. scope = Some sc \<and> sc \<noteq> [] \<and> CHR ''%'' \<notin> set sc \<and> set sc \<subseteq> set s)"
    by (rule split_scope_id_SomeD[OF x(1)])
  ultimately show "ip_valid a" "max_prefixlen a = 128" using x(3) a by auto
qed

lemma ip_address_valid: "ip_address s = Some a \<Longrightarrow> ip_valid a"
  using ipv4_canonical(2)[of s] ipv6_address_valid(1)[of s]
  by (auto simp: ip_address_def split: option.splits)

lemma ip_address_str:
  assumes "ip_valid a" shows "ip_address (ip_str a) = Some a"
proof (cases a)
  case (V4 n)
  then show ?thesis using assms ipv4_roundtrip[of n] by (simp add: ip_address_def)
next
  case (V6 n scope)
  have n: "ipv6_of_string (ipv6_str n) = Some n" using assms V6 by (intro ipv6_roundtrip) simp
  have "CHR '':'' \<in> set (ip_str a)" using V6 ipv6_str_set by (cases scope) auto
  then have "ipv4_of_string (ip_str a) = None" by (rule ipv4_no_colon)
  moreover have "ipv6_address (ip_str a) = Some a"
    using assms V6 n ipv6_str_set
    by (cases scope) (auto simp: ipv6_address_def split_scope_id_none split_scope_id_some)
  ultimately show ?thesis by (simp add: ip_address_def)
qed

interpretation ip: codec ip_address ip_str ip_valid
  by unfold_locales (simp_all add: ip_address_valid ip_address_str)

section \<open>Networks: lemmas\<close>

fun net_valid :: "ipnet \<Rightarrow> bool" where
  "net_valid (Net a p) \<longleftrightarrow> ip_valid a \<and> p \<le> max_prefixlen a \<and> 2 ^ (max_prefixlen a - p) dvd ip_int a"

lemma ip_valid_bound: "ip_valid a \<Longrightarrow> ip_int a < 2 ^ max_prefixlen a"
  by (cases a) auto

lemma mask_addr_valid:
  assumes "ip_valid a" "p \<le> max_prefixlen a" shows "net_valid (mask_addr a p)"
proof -
  let ?b = "2 ^ (max_prefixlen a - p) :: nat" let ?n = "ip_int a div ?b * ?b"
  have "?n \<le> ip_int a" by simp
  then have n: "?n < 2 ^ max_prefixlen a" using ip_valid_bound[OF assms(1)] by (rule le_less_trans)
  have d: "?b dvd ?n" by (rule dvd_triv_right)
  show ?thesis
  proof (cases "?n = ip_int a")
    case True
    then show ?thesis using assms d by (simp add: mask_addr_def Let_def)
  next
    case False
    then show ?thesis using assms n d by (cases a) (simp_all add: mask_addr_def Let_def)
  qed
qed

lemma mask_addr_id: "net_valid (Net a p) \<Longrightarrow> mask_addr a p = Net a p"
  by (simp add: mask_addr_def Let_def)

lemma ip_str_no_slash: "ip_valid a \<Longrightarrow> CHR ''/'' \<notin> set (ip_str a)"
  using ipv6_str_set(3) ipv4_str_set[of "CHR ''/''"]
  by (cases a; cases "snd (case a of V6 n s \<Rightarrow> (n, s) | V4 n \<Rightarrow> (n, None))")
     (auto simp: ascii_digit_def cp_def)

lemma ipv6_address_str: "ip_valid (V6 n sc) \<Longrightarrow> ipv6_address (ip_str (V6 n sc)) = Some (V6 n sc)"
  using ip_address_str[of "V6 n sc"] ipv4_no_colon[of "ip_str (V6 n sc)"] ipv6_str_set(1)[of n]
  by (cases sc) (auto simp: ip_address_def)

lemma prefix_of_digits_nat_str: "p \<le> bits \<Longrightarrow> bits \<le> 128 \<Longrightarrow> prefix_of_digits bits (nat_str p) = Some p"
  using length_nat_str_le[of p 2] by (simp add: prefix_of_digits_def)

lemma split_net_str:
  assumes "ip_valid a"
  shows "split_on (CHR ''/'') (ip_str a @ CHR ''/'' # nat_str p) = [ip_str a, nat_str p]"
proof -
  have "CHR ''/'' \<notin> set (nat_str p)" by (rule nat_str_no_char) (simp add: ascii_digit_def cp_def)
  then show ?thesis using ip_str_no_slash[OF assms] by (simp add: split_on_append_sep split_on_no_sep)
qed

lemma ip_network_str:
  assumes "net_valid net" shows "ip_network (net_str net) = Some net"
proof (cases net)
  case (Net a p)
  have v: "ip_valid a" "p \<le> max_prefixlen a" using assms Net by auto
  have sp: "split_on (CHR ''/'') (net_str net) = [ip_str a, nat_str p]"
    using split_net_str[OF v(1), of p] Net by (simp add: net_str_def)
  show ?thesis
  proof (cases a)
    case (V4 n)
    then show ?thesis using v sp ipv4_roundtrip[of n] mask_addr_id[of a p] assms Net
      by (simp add: ip_network_def ipv4_network_def prefix_of_digits_nat_str)
  next
    case (V6 n sc)
    have "CHR '':'' \<in> set (ip_str a)" using V6 ipv6_str_set by (cases sc) auto
    then have "ipv4_network (net_str net) = None" by (simp add: ipv4_network_def sp ipv4_no_colon)
    then show ?thesis using v sp V6 ipv6_address_str[of n sc] mask_addr_id[of a p] assms Net
      by (simp add: ip_network_def ipv6_network_def prefix_of_digits_nat_str)
  qed
qed

lemma prefix_of_mask_bound: "prefix_of_mask bits m = Some p \<Longrightarrow> p \<le> bits"
  by (auto simp: prefix_of_mask_def Let_def split: if_splits)

lemma ipv4_network_valid:
  assumes "ipv4_network s = Some net" shows "net_valid net"
proof -
  consider a n where "ipv4_of_string a = Some n" "net = Net (V4 n) 32"
    | a n p where "ipv4_of_string a = Some n" "p \<le> 32" "net = mask_addr (V4 n) p"
    using assms
    by (auto simp: ipv4_network_def prefix_of_digits_def prefix_of_mask_string_def
        split: list.splits option.splits if_splits dest: prefix_of_mask_bound)
  then show ?thesis
  proof cases
    case 1
    then show ?thesis using ipv4_canonical(2) by simp
  next
    case 2
    then show ?thesis using ipv4_canonical(2) mask_addr_valid[of "V4 n" p] by simp
  qed
qed

lemma ipv6_network_valid:
  assumes "ipv6_network s = Some net" shows "net_valid net"
proof -
  consider a x where "ipv6_address a = Some x" "net = Net x 128"
    | a x p where "ipv6_address a = Some x" "p \<le> 128" "net = mask_addr x p"
    using assms
    by (auto simp: ipv6_network_def prefix_of_digits_def split: list.splits option.splits if_splits)
  then show ?thesis
    by cases (use ipv6_address_valid mask_addr_valid in auto)
qed

lemma ip_network_valid: "ip_network s = Some net \<Longrightarrow> net_valid net"
  using ipv4_network_valid[of s] ipv6_network_valid[of s]
  by (auto simp: ip_network_def split: option.splits)

interpretation net: codec ip_network net_str net_valid
  by unfold_locales (simp_all add: ip_network_valid ip_network_str)

lemma host_network:
  assumes "ip_valid a" shows "ip_network (ip_str a) = Some (Net a (max_prefixlen a))"
proof (cases a)
  case (V4 n)
  then show ?thesis using assms ipv4_roundtrip[of n] ip_str_no_slash[OF assms]
    by (simp add: ip_network_def ipv4_network_def split_on_no_sep)
next
  case (V6 n sc)
  have "CHR '':'' \<in> set (ip_str a)" using V6 ipv6_str_set by (cases sc) auto
  then show ?thesis using V6 assms ipv6_address_str[of n sc] ip_str_no_slash[OF assms]
    by (simp add: ip_network_def ipv4_network_def ipv6_network_def split_on_no_sep ipv4_no_colon)
qed

section \<open>Containment\<close>

lemma aligned_interval_subset:
  fixes A B :: nat
  assumes A: "2 ^ h dvd A" and B: "2 ^ g dvd B"
  shows "{B ..< B + 2 ^ g} \<subseteq> {A ..< A + 2 ^ h} \<longleftrightarrow> g \<le> h \<and> A div 2 ^ h = B div 2 ^ h"
proof
  assume sub: "{B ..< B + 2 ^ g} \<subseteq> {A ..< A + 2 ^ h}"
  have "card {B ..< B + 2 ^ g} \<le> card {A ..< A + 2 ^ h}" by (rule card_mono[OF _ sub]) simp
  then have "g \<le> h" by simp
  moreover have "A div 2 ^ h = B div 2 ^ h"
  proof -
    obtain k where k: "A = 2 ^ h * k" using A by blast
    have "B \<in> {A ..< A + 2 ^ h}" using sub by (rule subsetD) simp
    then obtain r where "B = 2 ^ h * k + r" "r < 2 ^ h" using k by (auto dest!: le_Suc_ex)
    then show ?thesis using k by simp
  qed
  ultimately show "g \<le> h \<and> A div 2 ^ h = B div 2 ^ h" by blast
next
  assume *: "g \<le> h \<and> A div 2 ^ h = B div 2 ^ h"
  then obtain d where d: "h = g + d" using le_Suc_ex by blast
  obtain k where k: "A = 2 ^ h * k" using A by blast
  obtain m where m: "B = 2 ^ g * m" using B by blast
  have "k = m div 2 ^ d" using * k m d by (simp add: power_add div_mult2_eq)
  then have "2 ^ d * k \<le> m" "m < 2 ^ d * (k + 1)"
    by (simp_all add: dividend_less_times_div)
  then have "2 ^ g * (2 ^ d * k) \<le> B" "2 ^ g * (m + 1) \<le> 2 ^ g * (2 ^ d * (k + 1))"
    using m by (simp_all only: mult_le_mono2 Suc_eq_plus1[symmetric] Suc_leI)
  then have "A \<le> B" "B + 2 ^ g \<le> A + 2 ^ h" using k m d by (simp_all add: power_add algebra_simps)
  then show "{B ..< B + 2 ^ g} \<subseteq> {A ..< A + 2 ^ h}" by auto
qed

lemma net_contains_range:
  assumes "net_valid outer" "net_valid inner"
    and "ip_version (net_addr outer) = ip_version (net_addr inner)"
  shows "net_contains outer inner \<longleftrightarrow> net_range inner \<subseteq> net_range outer"
proof -
  obtain a p where o: "outer = Net a p" by (cases outer)
  obtain b q where i: "inner = Net b q" by (cases inner)
  have m: "max_prefixlen a = max_prefixlen b" using assms(3) o i by (cases a; cases b) auto
  have "p \<le> q \<longleftrightarrow> max_prefixlen b - q \<le> max_prefixlen b - p" using assms(1,2) m o i by auto
  then show ?thesis using assms m o i
    by (simp add: net_contains_def net_range_def host_bits_def aligned_interval_subset del: ivl_subset)
qed

end
