(* ===== verification/Log_Parser.thy ===== *)
theory Log_Parser
  imports Py_Regex Py_Datetime Py_Ipaddress
begin

text \<open>
  \<open>apps/logs/parsers.py\<close>: compiling an nginx \<open>log_format\<close> string into a pattern and parsing one
  access-log line with it. The main result is that parsing inverts nginx's substitution for every
  delimited format, the three presets included.
\<close>

section \<open>Formats\<close>

definition var_char :: "char \<Rightarrow> bool" where
  "var_char c \<longleftrightarrow> 97 \<le> cp c \<and> cp c \<le> 122 \<or> c = CHR ''_''"

datatype piece = Text char | Var string

text \<open>The scan of \<open>_TOKEN_RE.finditer\<close>: a dollar sign and the longest run of variable characters.\<close>

function format_pieces :: "string \<Rightarrow> piece list" where
  "format_pieces [] = []"
| "format_pieces (c # cs) =
     (if c = CHR ''$'' \<and> takeWhile var_char cs \<noteq> []
      then Var (takeWhile var_char cs) # format_pieces (dropWhile var_char cs)
      else Text c # format_pieces cs)"
  by pat_completeness auto
termination
  by (relation "measure length") (auto simp: le_imp_less_Suc length_dropWhile_le)

text \<open>\<open>_TOKEN_PATTERNS\<close>: what a variable may stand for, and whether it is captured.\<close>

record token =
  tk_class :: cset
  tk_min :: nat
  tk_max :: "nat option"
  tk_named :: bool

definition token_patterns :: "string \<Rightarrow> token option" where
  "token_patterns v =
     (let nonspace = \<lparr>tk_class = NonSpace, tk_min = 1, tk_max = None, tk_named = True\<rparr>;
          noquote = \<lparr>tk_class = NoneOf [CHR 0x22], tk_min = 0, tk_max = None, tk_named = True\<rparr>
      in map_of
        [(''remote_addr'', nonspace),
         (''remote_user'', nonspace\<lparr>tk_named := False\<rparr>),
         (''time_local'', \<lparr>tk_class = NoneOf '']'', tk_min = 1, tk_max = None, tk_named = True\<rparr>),
         (''request'', noquote),
         (''status'', \<lparr>tk_class = Digit, tk_min = 3, tk_max = Some 3, tk_named = True\<rparr>),
         (''body_bytes_sent'', nonspace),
         (''http_referer'', noquote),
         (''http_user_agent'', noquote),
         (''request_time'', nonspace),
         (''host'', nonspace)] v)"

definition combined_format :: string where
  "combined_format =
     ''$remote_addr - $remote_user [$time_local] '' @
     [CHR 0x22] @ ''$request'' @ [CHR 0x22] @ '' $status $body_bytes_sent '' @
     [CHR 0x22] @ ''$http_referer'' @ [CHR 0x22] @ '' '' @ [CHR 0x22] @ ''$http_user_agent'' @ [CHR 0x22]"

definition nginx_log_formats :: "string \<Rightarrow> string option" where
  "nginx_log_formats name = map_of
     [(''combined'', combined_format),
      (''combined_host'', ''$host '' @ combined_format),
      (''combined_timed'', combined_format @ '' $request_time'')] name"

section \<open>Compilation\<close>

definition token_re :: "string \<Rightarrow> token \<Rightarrow> re" where
  "token_re v t =
     (let r = Rep (tk_class t) (tk_min t) (tk_max t) in if tk_named t then Grp v r else r)"

fun piece_re :: "piece \<Rightarrow> re res" where
  "piece_re (Text c) = Inr (Lit c)"
| "piece_re (Var v) = (case token_patterns v of None \<Rightarrow> Inl ValueError | Some t \<Rightarrow> Inr (token_re v t))"

fun pieces_re :: "piece list \<Rightarrow> (re list) res" where
  "pieces_re [] = Inr []"
| "pieces_re (p # ps) =
     res_bind (piece_re p) (\<lambda>r. res_bind (pieces_re ps) (\<lambda>rs. Inr (r # rs)))"

definition group_names :: "piece list \<Rightarrow> string list" where
  "group_names ps = concat (map (\<lambda>p. case p of Text _ \<Rightarrow> [] | Var v \<Rightarrow>
     (case token_patterns v of Some t \<Rightarrow> if tk_named t then [v] else [] | None \<Rightarrow> [])) ps)"

text \<open>Compiling a pattern that defines one group twice is an error of \<open>re.compile\<close>.\<close>

definition compile_format :: "string \<Rightarrow> re res" where
  "compile_format format_string =
     (let ps = format_pieces format_string in
      res_bind (pieces_re ps) (\<lambda>rs.
        if distinct (group_names ps) then Inr (cats (rs @ [Eol])) else Inl RegexError))"

definition compiled_pattern :: "string \<Rightarrow> re res" where
  "compiled_pattern format_value =
     compile_format (case nginx_log_formats format_value of Some f \<Rightarrow> f | None \<Rightarrow> format_value)"

section \<open>Lines\<close>

record parsed_line =
  pl_remote_addr :: string
  pl_timestamp :: time
  pl_method :: string
  pl_uri :: string
  pl_status :: int
  pl_bytes :: int
  pl_request_time :: "string option"
  pl_host :: string
  pl_user_agent :: string
  pl_referer :: string
  pl_raw_line :: string

definition upper_ascii :: string where
  "upper_ascii = map char_of [65..<91::nat]"

definition request_re :: re where
  "request_re = cats [Grp ''method'' (plus (OneOf upper_ascii)), Lit (CHR '' ''),
     Grp ''uri'' (plus NonSpace), Lit (CHR '' ''), plus NonSpace, Eol]"

definition split_request :: "string \<Rightarrow> string \<times> string" where
  "split_request request =
     (case re_match request_re request of
        None \<Rightarrow> ([], request)
      | Some (_, cs) \<Rightarrow> (cap cs ''method'', cap cs ''uri''))"

definition rstrip_newline :: "string \<Rightarrow> string" where
  "rstrip_newline s = rstrip_with (\<lambda>c. c = CHR 0x0D \<or> c = CHR 0x0A) s"

text \<open>From the groups of a match to a record; a missing group or a bad field is a parse error.\<close>

definition line_of_groups :: "string \<Rightarrow> captures \<Rightarrow> parsed_line res" where
  "line_of_groups line groups =
     (let get = map_of groups;
          remote_addr = (case get ''remote_addr'' of Some s \<Rightarrow> s | None \<Rightarrow> [])
      in if ip_address remote_addr = None then Inl (LogParseError ''Invalid remote_addr'')
         else (case Option.bind (get ''time_local'') strptime_log of
           None \<Rightarrow> Inl (LogParseError ''Invalid time_local'')
         | Some timestamp \<Rightarrow>
             (case Option.bind (get ''status'') py_int of
                None \<Rightarrow> Inl (LogParseError ''Invalid status'')
              | Some status \<Rightarrow>
                  (let bytes_sent = (case py_int (case get ''body_bytes_sent'' of Some s \<Rightarrow> s | None \<Rightarrow> ''0'')
                                     of Some n \<Rightarrow> n | None \<Rightarrow> 0);
                       request_time = (case get ''request_time'' of
                           None \<Rightarrow> None
                         | Some raw \<Rightarrow> if raw \<noteq> [] \<and> raw \<noteq> ''-'' then py_float raw else None);
                       (method, uri) = split_request (case get ''request'' of Some s \<Rightarrow> s | None \<Rightarrow> [])
                   in Inr \<lparr>pl_remote_addr = remote_addr, pl_timestamp = timestamp,
                           pl_method = method, pl_uri = uri, pl_status = status,
                           pl_bytes = bytes_sent, pl_request_time = request_time,
                           pl_host = (case get ''host'' of Some s \<Rightarrow> s | None \<Rightarrow> []),
                           pl_user_agent = (case get ''http_user_agent'' of Some s \<Rightarrow> s | None \<Rightarrow> []),
                           pl_referer = (case get ''http_referer'' of Some s \<Rightarrow> s | None \<Rightarrow> []),
                           pl_raw_line = line\<rparr>))))"

definition parse_line :: "re \<Rightarrow> string \<Rightarrow> parsed_line res" where
  "parse_line pattern raw_line =
     (let line = rstrip_newline raw_line in
      case re_match pattern line of
        None \<Rightarrow> Inl (LogParseError ''Line does not match format'')
      | Some (_, groups) \<Rightarrow> line_of_groups line groups)"

section \<open>What nginx writes\<close>

text \<open>nginx substitutes the variables of the format by their values.\<close>

fun render_piece :: "(string \<Rightarrow> string) \<Rightarrow> piece \<Rightarrow> string" where
  "render_piece val (Text c) = [c]"
| "render_piece val (Var v) = val v"

definition render_pieces :: "(string \<Rightarrow> string) \<Rightarrow> piece list \<Rightarrow> string" where
  "render_pieces val ps = concat (map (render_piece val) ps)"

text \<open>A value fits its variable when the variable's class admits it and it has no line feed.\<close>

definition value_fits :: "token \<Rightarrow> string \<Rightarrow> bool" where
  "value_fits t s \<longleftrightarrow> list_all (in_cset (tk_class t)) s \<and> tk_min t \<le> length s
     \<and> (case tk_max t of None \<Rightarrow> True | Some h \<Rightarrow> length s = h \<and> tk_min t = h) \<and> CHR 0x0A \<notin> set s"

text \<open>A format is delimited when every variable is known and followed by the end of the line or by
  a character its own class excludes.\<close>

fun delimited :: "piece list \<Rightarrow> bool" where
  "delimited [] = True"
| "delimited (Text c # ps) = delimited ps"
| "delimited [Var v] = (token_patterns v \<noteq> None)"
| "delimited (Var v # Text c # ps) =
     (case token_patterns v of None \<Rightarrow> False
      | Some t \<Rightarrow> \<not> in_cset (tk_class t) c \<and> delimited (Text c # ps))"
| "delimited (Var v # Var w # ps) = False"

fun groups_of :: "(string \<Rightarrow> string) \<Rightarrow> piece list \<Rightarrow> captures" where
  "groups_of val [] = []"
| "groups_of val (Text c # ps) = groups_of val ps"
| "groups_of val (Var v # ps) =
     (case token_patterns v of
        Some t \<Rightarrow> if tk_named t then groups_of val ps @ [(v, val v)] else groups_of val ps
      | None \<Rightarrow> groups_of val ps)"

section \<open>Parsing inverts rendering\<close>

lemma token_commit:
  assumes fit: "value_fits t u" and s: "s = [] \<or> \<not> in_cset (tk_class t) (hd s)"
    and fail: "\<And>n cs. n < length u \<Longrightarrow> successes q (drop n u @ s) cs = []"
  shows "successes (Cat (token_re v t) q) (u @ s) cs =
         successes q s (if tk_named t then (v, u) # cs else cs)"
proof -
  have f: "list_all (in_cset (tk_class t)) u" "tk_max t = None \<or> tk_max t = Some (length u)"
    "tk_min t \<le> length u"
    using fit by (auto simp: value_fits_def split: option.splits)
  show ?thesis
    using successes_rep_commit[OF f(1) s f(2) f(3) fail] by (simp add: token_re_def Let_def)
qed

lemma render_simps [simp]:
  "render_pieces val [] = []"
  "render_pieces val (p # ps) = render_piece val p @ render_pieces val ps"
  by (simp_all add: render_pieces_def)

definition values_fit :: "(string \<Rightarrow> string) \<Rightarrow> piece list \<Rightarrow> bool" where
  "values_fit val ps \<longleftrightarrow> list_all (\<lambda>p. case p of Text _ \<Rightarrow> True | Var v \<Rightarrow>
     (case token_patterns v of None \<Rightarrow> True | Some t \<Rightarrow> value_fits t (val v))) ps"

lemma match_rendered:
  assumes "delimited ps" "values_fit val ps" "pieces_re ps = Inr rs"
  shows "successes (cats (rs @ [Eol])) (render_pieces val ps) cs = [([], groups_of val ps @ cs)]"
  using assms
proof (induction ps arbitrary: rs cs rule: delimited.induct)
  case 1
  then show ?case by simp
next
  case (2 c ps)
  then obtain rs' where rs: "rs = Lit c # rs'" "pieces_re ps = Inr rs'"
    by (auto simp: res_bind_Inr_iff)
  then show ?case using 2 by (simp add: values_fit_def)
next
  case (3 v)
  then obtain t where t: "token_patterns v = Some t" "rs = [token_re v t]" and fit: "value_fits t (val v)"
    by (auto simp: res_bind_Inr_iff values_fit_def)
  have "CHR 0x0A \<notin> set (val v)" using fit by (simp add: value_fits_def)
  then have "successes (Cat (token_re v t) (Cat Eol Eps)) (val v @ []) cs =
        successes (Cat Eol Eps) [] (if tk_named t then (v, val v) # cs else cs)"
    by (intro token_commit[OF fit]) (auto simp: eol_fails_inside simp del: successes.simps)
  then show ?case using t by simp
next
  case (4 v c ps)
  then obtain t where t: "token_patterns v = Some t" "\<not> in_cset (tk_class t) c" "delimited (Text c # ps)"
    and fit: "value_fits t (val v)"
    by (auto simp: values_fit_def split: option.splits)
  obtain rs' where rs: "rs = token_re v t # Lit c # rs'" "pieces_re (Text c # ps) = Inr (Lit c # rs')"
    using 4 t by (auto simp: res_bind_Inr_iff)
  let ?q = "cats ((Lit c # rs') @ [Eol])" and ?s = "render_pieces val (Text c # ps)"
  have u: "list_all (in_cset (tk_class t)) (val v)" using fit by (simp add: value_fits_def)
  have "successes (Cat (token_re v t) ?q) (val v @ ?s) cs =
        successes ?q ?s (if tk_named t then (v, val v) # cs else cs)"
    by (rule token_commit[OF fit]) (use t(2) lit_fails_inside[OF u t(2)] in \<open>simp_all del: successes.simps\<close>)
  also have "\<dots> = [([], groups_of val (Text c # ps) @ (if tk_named t then (v, val v) # cs else cs))]"
    by (rule "4.IH") (use 4 t rs in \<open>simp_all add: values_fit_def\<close>)
  finally show ?case using t rs by (simp del: successes.simps)
qed simp

lemma delimited_pieces_re: "delimited ps \<Longrightarrow> \<exists>rs. pieces_re ps = Inr rs"
  by (induction ps rule: delimited.induct) (auto split: option.splits)

lemma rstrip_newline_id: "s = [] \<or> last s \<notin> {CHR 0x0D, CHR 0x0A} \<Longrightarrow> rstrip_newline s = s"
  unfolding rstrip_newline_def by (rule rstrip_with_id) auto

lemma parse_rendered:
  assumes "delimited (format_pieces f)" "distinct (group_names (format_pieces f))"
    and "values_fit val (format_pieces f)"
    and line: "line = render_pieces val (format_pieces f)" "last line \<notin> {CHR 0x0D, CHR 0x0A}"
  obtains p where "compile_format f = Inr p"
    "parse_line p line = line_of_groups line (groups_of val (format_pieces f))"
proof -
  obtain rs where rs: "pieces_re (format_pieces f) = Inr rs" using delimited_pieces_re assms(1) by blast
  have "successes (cats (rs @ [Eol])) line [] = [([], groups_of val (format_pieces f))]"
    using match_rendered[OF assms(1,3) rs, of "[]"] line by simp
  then have "parse_line (cats (rs @ [Eol])) line = line_of_groups line (groups_of val (format_pieces f))"
    using line(2) by (simp add: parse_line_def re_match_def rstrip_newline_id)
  moreover have "compile_format f = Inr (cats (rs @ [Eol]))"
    using assms(2) rs by (simp add: compile_format_def)
  ultimately show ?thesis using that by blast
qed



lemma map_of_groups_of:
  "map_of (groups_of val ps) v = (if v \<in> set (group_names ps) then Some (val v) else None)"
proof (induction ps)
  case (Cons p ps)
  then show ?case by (cases p) (auto simp: group_names_def map_add_def split: option.splits)
qed (simp add: group_names_def)

lemma plus_space_commit:
  assumes "u \<noteq> []" "list_all (in_cset k) u" "\<not> in_cset k d"
  shows "successes (Cat (Grp g (plus k)) (Cat (Lit d) q)) (u @ d # s) cs = successes q s ((g, u) # cs)"
proof -
  have "Suc 0 \<le> length u" using assms(1) by (cases u) auto
  then have "successes (Cat (Grp g (plus k)) (Cat (Lit d) q)) (u @ d # s) cs =
      successes (Cat (Lit d) q) (d # s) ((g, u) # cs)"
    unfolding plus_def
    by (intro successes_rep_commit(2)) (use assms lit_fails_inside in \<open>auto simp del: successes.simps\<close>)
  then show ?thesis by simp
qed

lemma split_request_parts:
  assumes m: "m \<noteq> []" "set m \<subseteq> set upper_ascii" and u: "u \<noteq> []" "list_all (\<lambda>c. \<not> py_ws c) u"
    and v: "v \<noteq> []" "list_all (\<lambda>c. \<not> py_ws c) v"
  shows "split_request (m @ '' '' @ u @ '' '' @ v) = (m, u)"
proof -
  have m': "list_all (in_cset (OneOf upper_ascii)) m" "\<not> in_cset (OneOf upper_ascii) (CHR '' '')"
    using m(2) by (auto simp: list_all_iff) (code_simp)
  have sp: "\<not> in_cset NonSpace (CHR '' '')" by code_simp
  have u': "list_all (in_cset NonSpace) u" and v': "list_all (in_cset NonSpace) v" using u v by (simp_all add: list_all_iff)
  have nl: "CHR 0x0A \<notin> set v"
  proof
    assume "CHR 0x0A \<in> set v"
    then have "\<not> py_ws (CHR 0x0A)" using v(2) by (auto simp: list_all_iff)
    moreover have "py_ws (CHR 0x0A)" by code_simp
    ultimately show False by simp
  qed
  have l: "1 \<le> length v" using v(1) by (cases v) auto
  have "successes request_re (m @ CHR '' '' # u @ CHR '' '' # v @ []) [] =
      successes (Cat (plus NonSpace) (Cat Eol Eps)) (v @ []) [(''uri'', u), (''method'', m)]"
    unfolding request_re_def cats.simps
    by (simp only: plus_space_commit[OF m(1) m'] plus_space_commit[OF u(1) u' sp])
  also have "\<dots> = successes (Cat Eol Eps) [] [(''uri'', u), (''method'', m)]"
    unfolding plus_def
    by (intro successes_rep_commit(1)[OF v' _ _ l]) (use eol_fails_inside[OF nl] in \<open>auto simp del: successes.simps\<close>)
  also have "\<dots> = [([], [(''uri'', u), (''method'', m)])]" by simp
  finally show ?thesis by (simp add: split_request_def re_match_def cap_def)
qed

text \<open>Every preset is delimited, ends in a character no line end can be, and captures these groups.\<close>

definition preset_ok :: "string \<Rightarrow> bool" where
  "preset_ok name = (case nginx_log_formats name of None \<Rightarrow> False | Some f \<Rightarrow>
     let ps = format_pieces f in
     delimited ps \<and> distinct (group_names ps) \<and>
     (last ps = Text (CHR 0x22) \<or> last ps = Var ''request_time'') \<and>
     list_all (\<lambda>v. v \<in> set (group_names ps))
       [''remote_addr'', ''time_local'', ''request'', ''status'', ''body_bytes_sent'', ''http_referer'', ''http_user_agent''] \<and>
     (''host'' \<in> set (group_names ps)) = (name = ''combined_host'') \<and>
     (''request_time'' \<in> set (group_names ps)) = (name = ''combined_timed'') \<and> ps \<noteq> [])"

lemma presets: "nginx_log_formats name = Some f \<Longrightarrow> name \<in> {''combined'', ''combined_host'', ''combined_timed''}"
  by (auto simp: nginx_log_formats_def split: if_splits)

lemma presets_ok: "list_all preset_ok [''combined'', ''combined_host'', ''combined_timed'']"
  by code_simp

lemma preset_facts:
  assumes "nginx_log_formats name = Some f"
  shows "delimited (format_pieces f)" "distinct (group_names (format_pieces f))"
    and "last (format_pieces f) = Text (CHR 0x22) \<or> last (format_pieces f) = Var ''request_time''"
    and "format_pieces f \<noteq> []"
    and "{''remote_addr'', ''time_local'', ''request'', ''status'', ''body_bytes_sent'', ''http_referer'',
          ''http_user_agent''} \<subseteq> set (group_names (format_pieces f))"
    and "''host'' \<in> set (group_names (format_pieces f)) \<longleftrightarrow> name = ''combined_host''"
    and "''request_time'' \<in> set (group_names (format_pieces f)) \<longleftrightarrow> name = ''combined_timed''"
proof -
  have "preset_ok name" using presets[OF assms] presets_ok by auto
  then show "delimited (format_pieces f)" "distinct (group_names (format_pieces f))"
    "last (format_pieces f) = Text (CHR 0x22) \<or> last (format_pieces f) = Var ''request_time''"
    "format_pieces f \<noteq> []"
    "{''remote_addr'', ''time_local'', ''request'', ''status'', ''body_bytes_sent'', ''http_referer'',
      ''http_user_agent''} \<subseteq> set (group_names (format_pieces f))"
    "''host'' \<in> set (group_names (format_pieces f)) \<longleftrightarrow> name = ''combined_host''"
    "''request_time'' \<in> set (group_names (format_pieces f)) \<longleftrightarrow> name = ''combined_timed''"
    unfolding preset_ok_def assms option.case Let_def list.pred_inject by blast+
qed

lemma last_render:
  "ps \<noteq> [] \<Longrightarrow> render_piece val (last ps) \<noteq> [] \<Longrightarrow>
   last (render_pieces val ps) = last (render_piece val (last ps)) \<and> render_pieces val ps \<noteq> []"
  by (induction ps) auto

lemma rendered_end:
  assumes "nginx_log_formats name = Some f" "values_fit val (format_pieces f)"
  shows "last (render_pieces val (format_pieces f)) \<notin> {CHR 0x0D, CHR 0x0A}"
proof (cases "last (format_pieces f) = Text (CHR 0x22)")
  case True
  then show ?thesis using last_render[OF preset_facts(4)[OF assms(1)], of val] by simp
next
  case False
  then have l: "last (format_pieces f) = Var ''request_time''" using preset_facts(3)[OF assms(1)] by blast
  then have "Var ''request_time'' \<in> set (format_pieces f)"
    using preset_facts(4)[OF assms(1)] by (metis last_in_set)
  moreover obtain t where t: "token_patterns ''request_time'' = Some t" "tk_class t = NonSpace" "tk_min t = 1"
    by (auto simp: token_patterns_def Let_def)
  ultimately have fit: "value_fits t (val ''request_time'')"
    using assms(2) by (auto simp: values_fit_def list_all_iff)
  then have ne: "val ''request_time'' \<noteq> []" and ns: "list_all (\<lambda>c. \<not> py_ws c) (val ''request_time'')"
    using t by (auto simp: value_fits_def list_all_iff)
  have "py_ws (CHR 0x0D)" "py_ws (CHR 0x0A)" by code_simp+
  then have "last (val ''request_time'') \<notin> {CHR 0x0D, CHR 0x0A}"
    using ns last_in_set[OF ne] by (auto simp: list_all_iff)
  then show ?thesis using last_render[OF preset_facts(4)[OF assms(1)], of val] l ne by simp
qed

section \<open>Properties\<close>

text \<open>C8: For every delimited format, parsing a line nginx rendered from it recovers exactly the
  value of every captured variable; only the conversion of those values to fields remains.\<close>

theorem parse_inverts_render:
  assumes "delimited (format_pieces f)" "distinct (group_names (format_pieces f))"
    and "values_fit val (format_pieces f)"
    and "line = render_pieces val (format_pieces f)" "last line \<notin> {CHR 0x0D, CHR 0x0A}"
  shows "\<exists>p. compile_format f = Inr p \<and>
    parse_line p line = line_of_groups line (groups_of val (format_pieces f))"
  using parse_rendered[OF assms] by blast

text \<open>For each preset format, a rendered access-log line parses to the record of its fields:
  address, instant, method and URI of the request line, status, bytes (a dash is 0), request time
  and host where the preset has them.\<close>

lemma preset_line_parsed:
  assumes f: "nginx_log_formats name = Some f" and fit: "values_fit val (format_pieces f)"
    and a: "ip_address (val ''remote_addr'') \<noteq> None"
    and ts: "strptime_log (val ''time_local'') = Some t"
    and st: "py_int (val ''status'') = Some status"
    and req: "val ''request'' = m @ '' '' @ u @ '' '' @ v"
      "m \<noteq> []" "set m \<subseteq> set upper_ascii"
      "u \<noteq> []" "list_all (\<lambda>c. \<not> py_ws c) u" "v \<noteq> []" "list_all (\<lambda>c. \<not> py_ws c) v"
  shows "\<exists>p. compiled_pattern name = Inr p \<and>
    parse_line p (render_pieces val (format_pieces f)) = Inr
      \<lparr>pl_remote_addr = val ''remote_addr'', pl_timestamp = t, pl_method = m, pl_uri = u,
       pl_status = status,
       pl_bytes = (case py_int (val ''body_bytes_sent'') of Some n \<Rightarrow> n | None \<Rightarrow> 0),
       pl_request_time =
         (if name = ''combined_timed'' \<and> val ''request_time'' \<notin> {[], ''-''}
          then py_float (val ''request_time'') else None),
       pl_host = (if name = ''combined_host'' then val ''host'' else []),
       pl_user_agent = val ''http_user_agent'', pl_referer = val ''http_referer'',
       pl_raw_line = render_pieces val (format_pieces f)\<rparr>"
proof -
  note facts = preset_facts[OF f]
  obtain p where p: "compile_format f = Inr p" "parse_line p (render_pieces val (format_pieces f)) =
      line_of_groups (render_pieces val (format_pieces f)) (groups_of val (format_pieces f))"
    using parse_rendered[OF facts(1,2) fit refl rendered_end[OF f fit]] by blast
  have "compiled_pattern name = Inr p" using p(1) f by (simp add: compiled_pattern_def)
  moreover have sr: "split_request (val ''request'') = (m, u)"
    unfolding req(1) by (rule split_request_parts[OF req(2-7)])
  ultimately show ?thesis
    using p(2) facts(5-7) a ts st
    by (auto simp: line_of_groups_def map_of_groups_of Let_def)
qed

definition example_request :: "string \<Rightarrow> string" where
  "example_request v = (case map_of
     [(''remote_addr'', ''5.160.0.1''), (''remote_user'', ''-''),
      (''time_local'', ''10/Oct/2025:13:55:36 +0330''), (''request'', ''GET /a?b=c HTTP/1.1''),
      (''status'', ''503''), (''body_bytes_sent'', ''-''), (''http_referer'', ''-''),
      (''http_user_agent'', ''curl/8.5 (x86_64)''), (''request_time'', ''0.004''), (''host'', ''example.ir'')] v
    of Some s \<Rightarrow> s | None \<Rightarrow> [])"

theorem parse_inverts_render_witness:
  "\<exists>p. compile_format ''$host [$time_local]'' = Inr p \<and>
     parse_line p (render_pieces example_request (format_pieces ''$host [$time_local]'')) =
     line_of_groups (render_pieces example_request (format_pieces ''$host [$time_local]''))
       (groups_of example_request (format_pieces ''$host [$time_local]''))"
  by (rule parse_inverts_render[OF _ _ _ refl]) code_simp+

lemma combined_timed_format: "nginx_log_formats ''combined_timed'' = Some (combined_format @ '' $request_time'')"
  by code_simp

lemma example_fits: "values_fit example_request (format_pieces (combined_format @ '' $request_time''))"
  by code_simp

lemma preset_line_parsed_example:
  "\<exists>p. compiled_pattern ''combined_timed'' = Inr p \<and>
     parse_line p (render_pieces example_request (format_pieces (combined_format @ '' $request_time''))) = Inr
       \<lparr>pl_remote_addr = ''5.160.0.1'', pl_timestamp = 1760091936000000, pl_method = ''GET'',
        pl_uri = ''/a?b=c'', pl_status = 503, pl_bytes = 0, pl_request_time = Some ''0.004'',
        pl_host = [], pl_user_agent = ''curl/8.5 (x86_64)'', pl_referer = ''-'',
        pl_raw_line = render_pieces example_request (format_pieces (combined_format @ '' $request_time''))\<rparr>"
proof -
  have v: "example_request ''remote_addr'' = ''5.160.0.1''"
    "example_request ''body_bytes_sent'' = ''-''" "example_request ''request_time'' = ''0.004''"
    "example_request ''http_user_agent'' = ''curl/8.5 (x86_64)''" "example_request ''http_referer'' = ''-''"
    by code_simp+
  have f: "py_float ''0.004'' = Some ''0.004''" "py_int ''-'' = None" by code_simp+
  have "ip_address (example_request ''remote_addr'') \<noteq> None"
    "strptime_log (example_request ''time_local'') = Some 1760091936000000"
    "py_int (example_request ''status'') = Some 503"
    "example_request ''request'' = ''GET'' @ '' '' @ ''/a?b=c'' @ '' '' @ ''HTTP/1.1''"
    "''GET'' \<noteq> []" "set ''GET'' \<subseteq> set upper_ascii"
    "''/a?b=c'' \<noteq> []" "list_all (\<lambda>c. \<not> py_ws c) ''/a?b=c''"
    "''HTTP/1.1'' \<noteq> []" "list_all (\<lambda>c. \<not> py_ws c) ''HTTP/1.1''"
    by code_simp+
  from preset_line_parsed[OF combined_timed_format example_fits this] show ?thesis
    unfolding v f by simp
qed

end
