(* ===== verification/Store.thy ===== *)
theory Store
  imports Py_Prelude
begin

text \<open>
  The database tables the models live in. A table is the sequence that hands out primary keys and
  the rows in insertion order; the operations are the ones Django's manager and query sets offer to
  the application (\<open>create\<close>, \<open>get\<close>, \<open>filter\<close>, \<open>update\<close>, \<open>delete\<close>, \<open>bulk_create\<close>,
  \<open>get_or_create\<close>). Effects are functions from the state to a result and the next state: an
  exception keeps the writes made before it, as it does outside a transaction.
\<close>

section \<open>Tables\<close>

record 'r table =
  tb_seq :: nat
  tb_rows :: "(pk \<times> 'r) list"

definition empty_table :: "'r table" where
  "empty_table = \<lparr>tb_seq = 0, tb_rows = []\<rparr>"

definition get_row :: "pk \<Rightarrow> 'r table \<Rightarrow> 'r option" where
  "get_row k t = map_of (tb_rows t) k"

definition insert_row :: "'r \<Rightarrow> 'r table \<Rightarrow> pk \<times> 'r table" where
  "insert_row r t =
     (Suc (tb_seq t), \<lparr>tb_seq = Suc (tb_seq t), tb_rows = tb_rows t @ [(Suc (tb_seq t), r)]\<rparr>)"

definition add_row :: "'r \<Rightarrow> 'r table \<Rightarrow> 'r table" where
  "add_row r t = snd (insert_row r t)"

definition add_rows :: "'r list \<Rightarrow> 'r table \<Rightarrow> 'r table" where
  "add_rows rs t = foldl (\<lambda>t r. add_row r t) t rs"

definition select_rows :: "(pk \<Rightarrow> 'r \<Rightarrow> bool) \<Rightarrow> 'r table \<Rightarrow> (pk \<times> 'r) list" where
  "select_rows P t = filter (\<lambda>(k, r). P k r) (tb_rows t)"

definition update_rows :: "(pk \<Rightarrow> 'r \<Rightarrow> bool) \<Rightarrow> ('r \<Rightarrow> 'r) \<Rightarrow> 'r table \<Rightarrow> 'r table" where
  "update_rows P f t = t\<lparr>tb_rows := map (\<lambda>(k, r). (k, if P k r then f r else r)) (tb_rows t)\<rparr>"

definition update_row :: "pk \<Rightarrow> ('r \<Rightarrow> 'r) \<Rightarrow> 'r table \<Rightarrow> 'r table" where
  "update_row k f t = update_rows (\<lambda>j _. j = k) f t"

definition delete_rows :: "(pk \<Rightarrow> 'r \<Rightarrow> bool) \<Rightarrow> 'r table \<Rightarrow> 'r table" where
  "delete_rows P t = t\<lparr>tb_rows := filter (\<lambda>(k, r). \<not> P k r) (tb_rows t)\<rparr>"

definition count_rows :: "(pk \<Rightarrow> 'r \<Rightarrow> bool) \<Rightarrow> 'r table \<Rightarrow> nat" where
  "count_rows P t = length (select_rows P t)"

text \<open>\<open>get_or_create\<close>: the first matching row, or a new one; the flag says whether it was created.\<close>

definition get_or_create :: "('r \<Rightarrow> bool) \<Rightarrow> 'r \<Rightarrow> 'r table \<Rightarrow> (pk \<times> bool) \<times> 'r table" where
  "get_or_create P r t =
     (case select_rows (\<lambda>_. P) t of
        (k, _) # _ \<Rightarrow> ((k, False), t)
      | [] \<Rightarrow> (let (k, t') = insert_row r t in ((k, True), t')))"

text \<open>\<open>update_or_create\<close>: the first matching row changed by \<open>f\<close>, or a new one.\<close>

definition update_or_create :: "('r \<Rightarrow> bool) \<Rightarrow> ('r \<Rightarrow> 'r) \<Rightarrow> 'r \<Rightarrow> 'r table \<Rightarrow> (pk \<times> bool) \<times> 'r table" where
  "update_or_create P f r t =
     (case select_rows (\<lambda>_. P) t of
        (k, _) # _ \<Rightarrow> ((k, False), update_row k f t)
      | [] \<Rightarrow> (let (k, t') = insert_row r t in ((k, True), t')))"

definition row_values :: "'r table \<Rightarrow> 'r list" where
  "row_values t = map snd (tb_rows t)"

definition table_ok :: "'r table \<Rightarrow> bool" where
  "table_ok t \<longleftrightarrow> sorted_wrt (<) (map fst (tb_rows t)) \<and> (\<forall>(k, r)\<in>set (tb_rows t). k \<le> tb_seq t)"

section \<open>Effects\<close>

type_synonym ('s, 'a) effect = "'s \<Rightarrow> 'a res \<times> 's"

definition ret :: "'a \<Rightarrow> ('s, 'a) effect" where "ret a = (\<lambda>s. (Inr a, s))"
definition raise :: "py_exn \<Rightarrow> ('s, 'a) effect" where "raise e = (\<lambda>s. (Inl e, s))"
definition bnd :: "('s, 'a) effect \<Rightarrow> ('a \<Rightarrow> ('s, 'b) effect) \<Rightarrow> ('s, 'b) effect" where
  "bnd m f = (\<lambda>s. case m s of (Inl e, s') \<Rightarrow> (Inl e, s') | (Inr a, s') \<Rightarrow> f a s')"
definition modify :: "('s \<Rightarrow> 's) \<Rightarrow> ('s, unit) effect" where "modify f = (\<lambda>s. (Inr (), f s))"
definition asks :: "('s \<Rightarrow> 'a) \<Rightarrow> ('s, 'a) effect" where "asks f = (\<lambda>s. (Inr (f s), s))"

fun for_each :: "('a \<Rightarrow> ('s, unit) effect) \<Rightarrow> 'a list \<Rightarrow> ('s, unit) effect" where
  "for_each f [] = ret ()"
| "for_each f (x # xs) = bnd (f x) (\<lambda>_. for_each f xs)"

lemma effect_simps [simp]:
  "ret a s = (Inr a, s)" "raise e s = (Inl e, s)"
  "modify f s = (Inr (), f s)" "asks g s = (Inr (g s), s)"
  "bnd (ret a) h s = h a s" "bnd (raise e) h s = (Inl e, s)"
  "bnd (modify f) k s = k () (f s)" "bnd (asks g) j s = j (g s) s"
  by (simp_all add: ret_def raise_def modify_def asks_def bnd_def)

lemma bnd_split:
  "bnd m f s = (case fst (m s) of Inl e \<Rightarrow> (Inl e, snd (m s)) | Inr a \<Rightarrow> f a (snd (m s)))"
  by (cases "m s") (auto simp: bnd_def split: sum.splits)

section \<open>Laws of tables\<close>

lemma table_ok_empty [simp]: "table_ok empty_table"
  by (simp add: table_ok_def empty_table_def)

lemma table_ok_distinct: "table_ok t \<Longrightarrow> distinct (map fst (tb_rows t))"
  by (auto simp: table_ok_def strict_sorted_iff)

lemma get_row_Some: "table_ok t \<Longrightarrow> get_row k t = Some r \<longleftrightarrow> (k, r) \<in> set (tb_rows t)"
  using map_of_eq_Some_iff[OF table_ok_distinct] by (simp add: get_row_def)

lemma get_row_SomeD: "get_row k t = Some r \<Longrightarrow> (k, r) \<in> set (tb_rows t)"
  by (auto simp: get_row_def map_of_SomeD)

lemma get_row_beyond: "table_ok t \<Longrightarrow> tb_seq t < k \<Longrightarrow> get_row k t = None"
  unfolding get_row_def table_ok_def by (metis (mono_tags, lifting) case_prodD leD map_of_SomeD not_None_eq)

lemma get_insert_row:
  assumes "table_ok t" "insert_row r t = (k, t')"
  shows "table_ok t'" "get_row k t = None" "get_row j t' = (if j = k then Some r else get_row j t)"
    "tb_seq t' = Suc (tb_seq t)" "k = Suc (tb_seq t)"
proof -
  have k: "k = Suc (tb_seq t)" "t' = \<lparr>tb_seq = Suc (tb_seq t), tb_rows = tb_rows t @ [(Suc (tb_seq t), r)]\<rparr>"
    using assms(2) by (auto simp: insert_row_def)
  show n: "get_row k t = None" using get_row_beyond[OF assms(1), of k] k by simp
  show "table_ok t'" using assms(1) k
    by (force simp: table_ok_def sorted_wrt_append)
  show "get_row j t' = (if j = k then Some r else get_row j t)"
    using n k by (auto simp: get_row_def map_add_def split: option.splits)
  show "tb_seq t' = Suc (tb_seq t)" "k = Suc (tb_seq t)" using k by simp_all
qed

lemma table_ok_add_row [simp, intro]: "table_ok t \<Longrightarrow> table_ok (add_row r t)"
  unfolding add_row_def using get_insert_row(1) by (metis prod.collapse)

lemma table_ok_add_rows [simp, intro]: "table_ok t \<Longrightarrow> table_ok (add_rows rs t)"
  unfolding add_rows_def by (induction rs arbitrary: t) auto

lemma tb_rows_add_row: "tb_rows (add_row r t) = tb_rows t @ [(Suc (tb_seq t), r)]"
  by (simp add: add_row_def insert_row_def)

lemma row_values_add_row [simp]: "row_values (add_row r t) = row_values t @ [r]"
  by (simp add: row_values_def tb_rows_add_row)

lemma row_values_add_rows [simp]: "row_values (add_rows rs t) = row_values t @ rs"
proof (induction rs arbitrary: t)
  case (Cons r rs)
  then show ?case by (simp add: add_rows_def)
qed (simp add: add_rows_def)

lemma tb_seq_add_rows [simp]: "tb_seq (add_rows rs t) = tb_seq t + length rs"
  unfolding add_rows_def by (induction rs arbitrary: t) (auto simp: add_row_def insert_row_def)

lemma add_rows_Cons: "add_rows (r # rs) t = add_rows rs (add_row r t)"
  by (simp add: add_rows_def)

lemma get_add_row: "table_ok t \<Longrightarrow> get_row k (add_row r t) = (if k = Suc (tb_seq t) then Some r else get_row k t)"
  using get_insert_row(3)[of t r "Suc (tb_seq t)" "add_row r t"] by (simp add: add_row_def insert_row_def)

lemma get_add_rows_old: "table_ok t \<Longrightarrow> k \<le> tb_seq t \<Longrightarrow> get_row k (add_rows rs t) = get_row k t"
proof (induction rs arbitrary: t)
  case (Cons r rs)
  have "k \<le> tb_seq (add_row r t)" using Cons.prems by (simp add: add_row_def insert_row_def)
  then have "get_row k (add_rows (r # rs) t) = get_row k (add_row r t)"
    using Cons.IH[of "add_row r t"] Cons.prems by (simp add: add_rows_Cons)
  then show ?case using Cons.prems by (simp add: get_add_row)
qed (simp add: add_rows_def)

lemma get_row_seq: "table_ok t \<Longrightarrow> get_row k t = Some r \<Longrightarrow> k \<le> tb_seq t"
  using get_row_beyond[of t k] by (metis leI option.simps(3))

lemma get_add_rows_new:
  assumes "table_ok t" "get_row k (add_rows rs t) = Some r" "get_row k t = None"
  shows "r \<in> set rs \<and> tb_seq t < k"
  using assms
proof (induction rs arbitrary: t)
  case (Cons x rs)
  show ?case
  proof (cases "k = Suc (tb_seq t)")
    case True
    have "k \<le> tb_seq (add_row x t)" using True by (simp add: add_row_def insert_row_def)
    then have "get_row k (add_rows (x # rs) t) = get_row k (add_row x t)"
      using Cons.prems(1) by (simp add: add_rows_Cons get_add_rows_old)
    then show ?thesis using Cons.prems True by (simp add: get_add_row)
  next
    case False
    then have "get_row k (add_row x t) = None" using Cons.prems by (simp add: get_add_row)
    then have "r \<in> set rs \<and> tb_seq (add_row x t) < k"
      using Cons.IH[of "add_row x t"] Cons.prems by (simp add: add_rows_Cons)
    then show ?thesis by (simp add: add_row_def insert_row_def)
  qed
qed (simp add: add_rows_def)

lemma keys_update_rows [simp]: "map fst (tb_rows (update_rows P f t)) = map fst (tb_rows t)"
  by (simp add: update_rows_def comp_def case_prod_beta')

lemma tb_seq_update_rows [simp]: "tb_seq (update_rows P f t) = tb_seq t"
  by (simp add: update_rows_def)

lemma table_ok_update_rows [simp, intro]: "table_ok t \<Longrightarrow> table_ok (update_rows P f t)"
  unfolding table_ok_def keys_update_rows tb_seq_update_rows
  by (auto simp: update_rows_def)

lemma get_update_rows: "get_row k (update_rows P f t) =
  map_option (\<lambda>r. if P k r then f r else r) (get_row k t)"
proof -
  have "map_of (map (\<lambda>(k, r). (k, if P k r then f r else r)) xs) k =
      map_option (\<lambda>r. if P k r then f r else r) (map_of xs k)" for xs
    by (induction xs) auto
  then show ?thesis by (simp add: get_row_def update_rows_def)
qed

lemma get_update_row: "get_row j (update_row k f t) =
  (if j = k then map_option f (get_row j t) else get_row j t)"
  by (cases "get_row j t") (auto simp: update_row_def get_update_rows)

lemma table_ok_update_row [simp, intro]: "table_ok t \<Longrightarrow> table_ok (update_row k f t)"
  by (simp add: update_row_def)

lemma table_ok_delete_rows [simp, intro]: "table_ok t \<Longrightarrow> table_ok (delete_rows P t)"
  by (auto simp: table_ok_def delete_rows_def sorted_wrt_map sorted_wrt_filter)

lemma get_delete_rows:
  assumes "table_ok t"
  shows "get_row k (delete_rows P t) =
    (case get_row k t of Some r \<Rightarrow> if P k r then None else Some r | None \<Rightarrow> None)"
proof (cases "get_row k (delete_rows P t)")
  case None
  have "get_row k t = Some r \<Longrightarrow> P k r" for r
    using None assms get_row_Some[OF table_ok_delete_rows[OF assms], of k P r] get_row_Some[OF assms, of k r]
    by (auto simp: delete_rows_def)
  then show ?thesis using None by (auto split: option.splits)
next
  case (Some r)
  then have "(k, r) \<in> set (tb_rows (delete_rows P t))" by (rule get_row_SomeD)
  then have "(k, r) \<in> set (tb_rows t)" "\<not> P k r" by (auto simp: delete_rows_def)
  then show ?thesis using Some assms by (simp add: get_row_Some[symmetric])
qed

lemma select_rows_set: "table_ok t \<Longrightarrow> (k, r) \<in> set (select_rows P t) \<longleftrightarrow> get_row k t = Some r \<and> P k r"
  by (auto simp: select_rows_def get_row_Some)

lemma select_rowsD:
  "table_ok t \<Longrightarrow> (k, r) \<in> set (select_rows P t) \<Longrightarrow> get_row k t = Some r \<and> P k r"
  by (simp add: select_rows_set)

lemma count_rows_zero: "count_rows P t = 0 \<Longrightarrow> delete_rows P t = t"
proof -
  assume "count_rows P t = 0"
  then have "filter (\<lambda>(k, r). \<not> P k r) (tb_rows t) = tb_rows t"
    by (auto simp: count_rows_def select_rows_def filter_empty_conv filter_id_conv)
  then show ?thesis by (simp add: delete_rows_def)
qed

lemma count_delete_rows: "length (tb_rows (delete_rows P t)) + count_rows P t = length (tb_rows t)"
  unfolding count_rows_def select_rows_def delete_rows_def
  using sum_length_filter_compl[of "\<lambda>(k, r). P k r" "tb_rows t"] by (simp add: case_prod_beta')

section \<open>The contract of a store\<close>

text \<open>
  What the application's invariants need from a table, whatever its representation: a new row gets
  a key nobody has, an update touches exactly the rows it selects, a deletion removes exactly those.
\<close>

definition rows_hold :: "(pk \<Rightarrow> 't \<Rightarrow> 'r option) \<Rightarrow> (pk \<Rightarrow> 'r \<Rightarrow> bool) \<Rightarrow> 't \<Rightarrow> bool" where
  "rows_hold look I t \<longleftrightarrow> (\<forall>k r. look k t = Some r \<longrightarrow> I k r)"

definition rows_unique :: "(pk \<Rightarrow> 't \<Rightarrow> 'r option) \<Rightarrow> ('r \<Rightarrow> 'k) \<Rightarrow> 't \<Rightarrow> bool" where
  "rows_unique look key t \<longleftrightarrow>
     (\<forall>j k r s. look j t = Some r \<longrightarrow> look k t = Some s \<longrightarrow> key r = key s \<longrightarrow> j = k)"

locale store =
  fixes invar :: "'t \<Rightarrow> bool"
    and look :: "pk \<Rightarrow> 't \<Rightarrow> 'r option"
    and add :: "'r \<Rightarrow> 't \<Rightarrow> pk \<times> 't"
    and upd :: "(pk \<Rightarrow> 'r \<Rightarrow> bool) \<Rightarrow> ('r \<Rightarrow> 'r) \<Rightarrow> 't \<Rightarrow> 't"
    and del :: "(pk \<Rightarrow> 'r \<Rightarrow> bool) \<Rightarrow> 't \<Rightarrow> 't"
  assumes add_invar: "invar t \<Longrightarrow> add r t = (k, t') \<Longrightarrow> invar t'"
    and add_fresh: "invar t \<Longrightarrow> add r t = (k, t') \<Longrightarrow> look k t = None"
    and add_look: "invar t \<Longrightarrow> add r t = (k, t') \<Longrightarrow> look j t' = (if j = k then Some r else look j t)"
    and upd_invar: "invar t \<Longrightarrow> invar (upd P f t)"
    and upd_look: "invar t \<Longrightarrow> look j (upd P f t) = map_option (\<lambda>r. if P j r then f r else r) (look j t)"
    and del_invar: "invar t \<Longrightarrow> invar (del P t)"
    and del_look: "invar t \<Longrightarrow> look j (del P t) =
          (case look j t of Some r \<Rightarrow> if P j r then None else Some r | None \<Rightarrow> None)"
begin

lemma hold_add:
  "invar t \<Longrightarrow> rows_hold look I t \<Longrightarrow> add r t = (k, t') \<Longrightarrow> I k r \<Longrightarrow> rows_hold look I t'"
  by (auto simp: rows_hold_def add_look split: if_splits)

lemma hold_upd:
  "invar t \<Longrightarrow> rows_hold look I t \<Longrightarrow> (\<And>k r. look k t = Some r \<Longrightarrow> P k r \<Longrightarrow> I k r \<Longrightarrow> J k (f r)) \<Longrightarrow>
   (\<And>k r. look k t = Some r \<Longrightarrow> \<not> P k r \<Longrightarrow> I k r \<Longrightarrow> J k r) \<Longrightarrow> rows_hold look J (upd P f t)"
  unfolding rows_hold_def
  by (intro allI impI, simp only: upd_look map_option_eq_Some, elim exE conjE, split if_split_asm) blast+

lemma hold_del:
  "invar t \<Longrightarrow> rows_hold look I t \<Longrightarrow> rows_hold look (\<lambda>k r. I k r \<and> \<not> P k r) (del P t)"
  by (auto simp: rows_hold_def del_look split: option.splits if_splits)

lemma unique_add:
  assumes "invar t" "rows_unique look key t" "add r t = (k, t')" "\<And>j s. look j t = Some s \<Longrightarrow> key s \<noteq> key r"
  shows "rows_unique look key t'"
  unfolding rows_unique_def add_look[OF assms(1,3)]
proof (intro allI impI)
  fix i j r1 r2
  assume "(if i = k then Some r else look i t) = Some r1" "(if j = k then Some r else look j t) = Some r2"
    "key r1 = key r2"
  then show "i = j"
    using assms(4) assms(2)[unfolded rows_unique_def] by (cases "i = k"; cases "j = k") auto
qed

lemma unique_upd:
  "invar t \<Longrightarrow> rows_unique look key t \<Longrightarrow> (\<And>r. key (f r) = key r) \<Longrightarrow> rows_unique look key (upd P f t)"
  unfolding rows_unique_def by (auto simp: upd_look split: if_splits)

lemma unique_del: "invar t \<Longrightarrow> rows_unique look key t \<Longrightarrow> rows_unique look key (del P t)"
  unfolding rows_unique_def by (auto simp: del_look split: option.splits if_splits)

end

interpretation tbl: store table_ok get_row insert_row update_rows delete_rows
proof unfold_locales
  show "get_row j t' = (if j = k then Some r else get_row j t)"
    if "table_ok t" "insert_row r t = (k, t')" for t :: "'r table" and r k t' j
    using get_insert_row(3)[OF that] .
qed (auto simp: get_insert_row(1,2) get_update_rows get_delete_rows)

abbreviation all_rows :: "(pk \<Rightarrow> 'r \<Rightarrow> bool) \<Rightarrow> 'r table \<Rightarrow> bool" where
  "all_rows \<equiv> rows_hold get_row"

abbreviation unique_on :: "('r \<Rightarrow> 'k) \<Rightarrow> 'r table \<Rightarrow> bool" where
  "unique_on \<equiv> rows_unique get_row"

lemma all_rows_list: "table_ok t \<Longrightarrow> all_rows I t \<longleftrightarrow> list_all (\<lambda>(k, r). I k r) (tb_rows t)"
  by (auto simp: rows_hold_def get_row_Some list_all_iff)

lemma all_rowsD: "all_rows I t \<Longrightarrow> get_row k t = Some r \<Longrightarrow> I k r"
  by (simp add: rows_hold_def)

lemma unique_onD: "unique_on key t \<Longrightarrow> get_row j t = Some r \<Longrightarrow> get_row k t = Some s \<Longrightarrow> key r = key s \<Longrightarrow> j = k"
  unfolding rows_unique_def by blast

lemma unique_on_list:
  assumes "table_ok t"
  shows "unique_on key t \<longleftrightarrow> distinct (map key (row_values t))"
proof -
  have d: "distinct (map fst (tb_rows t))" by (rule table_ok_distinct[OF assms])
  have "(\<forall>j k r s. (j, r) \<in> set xs \<longrightarrow> (k, s) \<in> set xs \<longrightarrow> key r = key s \<longrightarrow> j = k) \<longleftrightarrow>
      distinct (map key (map snd xs))" if "distinct (map fst xs)" for xs :: "(pk \<times> 'a) list"
    using that
  proof (induction xs)
    case (Cons x xs)
    obtain i v where x: "x = (i, v)" by (cases x)
    have "i \<notin> fst ` set xs" using Cons.prems x by simp
    then have i: "(i, s) \<notin> set xs" for s by force
    show ?case using Cons i unfolding x by (auto 4 4 simp: image_iff)
  qed simp
  from this[OF d] show ?thesis
    by (simp add: rows_unique_def get_row_Some[OF assms] row_values_def)
qed

end
