(* ===== verification/Locks.thy ===== *)
theory Locks
  imports Store
begin

text \<open>
  \<open>apps/common/locks.py\<close>: mutual exclusion on cache keys with an expiry. The cache is a list of keys
  with their expiry instants; \<open>add\<close> is atomic. \<open>redis_lock\<close> is modelled twice: as the wrapper of one
  sequential body, and as the acquire and release steps of many workers on a clock, where a body can
  outlive its timeout.
\<close>

section \<open>The cache\<close>

type_synonym cache = "(string \<times> time) list"

definition live :: "string \<Rightarrow> time \<Rightarrow> cache \<Rightarrow> bool" where
  "live key now c = (case map_of c key of None \<Rightarrow> False | Some expiry \<Rightarrow> now < expiry)"

definition cache_delete :: "string \<Rightarrow> cache \<Rightarrow> cache" where
  "cache_delete key c = filter (\<lambda>(k, _). k \<noteq> key) c"

definition cache_add :: "string \<Rightarrow> time \<Rightarrow> time \<Rightarrow> cache \<Rightarrow> bool \<times> cache" where
  "cache_add key timeout now c =
     (if live key now c then (False, c) else (True, (key, now + timeout) # cache_delete key c))"

text \<open>Keys are a fixed prefix and an identifier: \<open>f"whois:{ip.address}"\<close>.\<close>

definition lock_key :: "string \<Rightarrow> string \<Rightarrow> string" where
  "lock_key prefix identifier = prefix @ identifier"

section \<open>One body under a lock\<close>

record lock_state =
  w_now :: time
  w_cache :: cache

definition release :: "string \<Rightarrow> 'x lock_state_scheme \<Rightarrow> 'x lock_state_scheme" where
  "release key s = s\<lparr>w_cache := cache_delete key (w_cache s)\<rparr>"

text \<open>\<open>with redis_lock(key, timeout): body\<close>; the \<open>finally\<close> deletes the key whatever the body raised.\<close>

definition redis_lock ::
  "string \<Rightarrow> time \<Rightarrow> ('x lock_state_scheme, 'a) effect \<Rightarrow> ('x lock_state_scheme, 'a) effect" where
  "redis_lock key timeout body s =
     (case cache_add key timeout (w_now s) (w_cache s) of
        (False, _) \<Rightarrow> (Inl (LockHeldError key), s)
      | (True, c) \<Rightarrow> (let (r, s') = body (s\<lparr>w_cache := c\<rparr>) in (r, release key s')))"

text \<open>\<open>except LockHeldError: return\<close> around the whole task.\<close>

definition skip_if_held :: "('s, unit) effect \<Rightarrow> ('s, unit) effect" where
  "skip_if_held m s = (case m s of (Inl (LockHeldError k), s') \<Rightarrow> (Inr (), s') | r \<Rightarrow> r)"

section \<open>Workers on a clock\<close>

text \<open>A worker that is inside its body: who, which key, and when its lock entry expires.\<close>

record holder =
  h_worker :: nat
  h_key :: string
  h_deadline :: time

record lock_world =
  lw_now :: time
  lw_cache :: cache
  lw_inside :: "holder list"

inductive lock_step :: "lock_world \<Rightarrow> lock_world \<Rightarrow> bool" where
  tick: "lw_now s \<le> t \<Longrightarrow> lock_step s (s\<lparr>lw_now := t\<rparr>)"
| acquire: "cache_add key timeout (lw_now s) (lw_cache s) = (True, c) \<Longrightarrow>
    lock_step s (s\<lparr>lw_cache := c,
      lw_inside := \<lparr>h_worker = p, h_key = key, h_deadline = lw_now s + timeout\<rparr> # lw_inside s\<rparr>)"
| leave: "h \<in> set (lw_inside s) \<Longrightarrow>
    lock_step s (s\<lparr>lw_cache := cache_delete (h_key h) (lw_cache s), lw_inside := remove1 h (lw_inside s)\<rparr>)"
| crash: "h \<in> set (lw_inside s) \<Longrightarrow> lock_step s (s\<lparr>lw_inside := remove1 h (lw_inside s)\<rparr>)"

inductive_simps lock_step_idle: "lock_step \<lparr>lw_now = t, lw_cache = c, lw_inside = []\<rparr> s'"

definition idle :: lock_world where
  "idle = \<lparr>lw_now = 0, lw_cache = [], lw_inside = []\<rparr>"

text \<open>A run is timely when nobody is still inside at its deadline.\<close>

definition in_time :: "lock_world \<Rightarrow> bool" where
  "in_time s \<longleftrightarrow> list_all (\<lambda>h. lw_now s < h_deadline h) (lw_inside s)"

definition exclusive :: "lock_world \<Rightarrow> bool" where
  "exclusive s \<longleftrightarrow> distinct (map h_key (lw_inside s))"

inductive timely_run :: "lock_world \<Rightarrow> bool" where
  start: "timely_run idle"
| step: "timely_run s \<Longrightarrow> lock_step s s' \<Longrightarrow> in_time s' \<Longrightarrow> timely_run s'"

section \<open>The contract of a lock service\<close>

locale lock_service =
  fixes holds :: "'k \<Rightarrow> 't \<Rightarrow> 'c \<Rightarrow> bool"
    and acquire :: "'k \<Rightarrow> 't \<Rightarrow> 't \<Rightarrow> 'c \<Rightarrow> bool \<times> 'c"
    and drop_key :: "'k \<Rightarrow> 'c \<Rightarrow> 'c"
    and later :: "'t \<Rightarrow> 't \<Rightarrow> 't" and before :: "'t \<Rightarrow> 't \<Rightarrow> bool"
  assumes acquire_result: "fst (acquire k d t c) \<longleftrightarrow> \<not> holds k t c"
    and acquire_holds: "acquire k d t c = (True, c') \<Longrightarrow> holds k u c' \<longleftrightarrow> before u (later t d)"
    and acquire_other: "acquire k d t c = (b, c') \<Longrightarrow> j \<noteq> k \<Longrightarrow> holds j u c' = holds j u c"
    and drop_free: "\<not> holds k u (drop_key k c)"
    and drop_other: "j \<noteq> k \<Longrightarrow> holds j u (drop_key k c) = holds j u c"
begin

lemma reacquire: "fst (acquire k d t (drop_key k c))"
  by (simp add: acquire_result drop_free)

lemma exclusion: "acquire k d t c = (True, c') \<Longrightarrow> before u (later t d) \<Longrightarrow> fst (acquire k e u c') = False"
  by (simp add: acquire_result acquire_holds)

lemma expiry: "acquire k d t c = (True, c') \<Longrightarrow> \<not> before u (later t d) \<Longrightarrow> fst (acquire k e u c')"
  by (simp add: acquire_result acquire_holds)

lemma independent: "acquire k d t c = (b, c') \<Longrightarrow> j \<noteq> k \<Longrightarrow> fst (acquire j e u c') = fst (acquire j e u c)"
  by (simp add: acquire_result acquire_other)

end

lemma map_of_filter_key: "map_of (filter (\<lambda>(k, _). k \<noteq> key) c) j = (if j = key then None else map_of c j)"
  by (induction c) auto

interpretation cache: lock_service live cache_add cache_delete "(+)" "(<)"
  by unfold_locales (auto simp: cache_add_def live_def cache_delete_def map_of_filter_key split: if_splits)

section \<open>Laws of \<open>redis_lock\<close>\<close>

lemma redis_lock_held: "live key (w_now s) (w_cache s) \<Longrightarrow> redis_lock key timeout body s = (Inl (LockHeldError key), s)"
  by (simp add: redis_lock_def cache_add_def)

lemma redis_lock_free:
  "\<not> live key (w_now s) (w_cache s) \<Longrightarrow> redis_lock key timeout body s =
     (let (r, s') = body (s\<lparr>w_cache := (key, w_now s + timeout) # cache_delete key (w_cache s)\<rparr>) in (r, release key s'))"
  by (simp add: redis_lock_def cache_add_def)

lemma redis_lock_released:
  "redis_lock key timeout body s = (r, s') \<Longrightarrow> \<not> live key (w_now s) (w_cache s) \<Longrightarrow> \<not> live key t (w_cache s')"
  by (auto simp: redis_lock_free release_def cache.drop_free split: prod.splits)

text \<open>While every holder is in time, its key is live until its deadline and nobody shares it.\<close>

definition lock_inv :: "lock_world \<Rightarrow> bool" where
  "lock_inv s \<longleftrightarrow> exclusive s \<and>
     (\<forall>h\<in>set (lw_inside s). \<forall>u. u < h_deadline h \<longrightarrow> live (h_key h) u (lw_cache s))"

lemma remove_holder:
  assumes "distinct (map h_key hs)" "h \<in> set hs"
  shows "distinct (map h_key (remove1 h hs))" "g \<in> set (remove1 h hs) \<Longrightarrow> h_key g \<noteq> h_key h"
proof -
  have d: "distinct hs" and inj: "inj_on h_key (set hs)" using assms(1) by (auto simp: distinct_map)
  show "distinct (map h_key (remove1 h hs))"
    using d inj by (auto simp: distinct_map intro: inj_on_subset)
  show "h_key g \<noteq> h_key h" if "g \<in> set (remove1 h hs)"
    using that d inj assms(2) by (auto simp: inj_on_def)
qed

lemma lock_inv_step:
  assumes inv: "lock_inv s" and "in_time s" "lock_step s s'"
  shows "lock_inv s'"
  using assms(3)
proof cases
  case (tick t)
  then show ?thesis using inv by (simp add: lock_inv_def exclusive_def)
next
  case (acquire key timeout c p)
  have free: "\<not> live key (lw_now s) (lw_cache s)"
    using acquire(2) cache.acquire_result by (metis fst_conv)
  have new: "h_key h \<noteq> key" if "h \<in> set (lw_inside s)" for h
    using that inv assms(2) free by (auto simp: lock_inv_def in_time_def list_all_iff)
  have l: "live key u c \<longleftrightarrow> u < lw_now s + timeout" and o: "j \<noteq> key \<Longrightarrow> live j u c = live j u (lw_cache s)" for u j
    using cache.acquire_holds[OF acquire(2)] cache.acquire_other[OF acquire(2)] by simp_all
  show ?thesis
    using inv new by (auto simp: acquire(1) lock_inv_def exclusive_def l o)
next
  case (leave h)
  have ex: "distinct (map h_key (lw_inside s))" using inv by (simp add: lock_inv_def exclusive_def)
  have "set (remove1 h (lw_inside s)) \<subseteq> set (lw_inside s)" by (rule set_remove1_subset)
  then show ?thesis
    using inv remove_holder[OF ex leave(2)] leave(1)
    by (auto simp: lock_inv_def exclusive_def cache.drop_other)
next
  case (crash h)
  have ex: "distinct (map h_key (lw_inside s))" using inv by (simp add: lock_inv_def exclusive_def)
  have "set (remove1 h (lw_inside s)) \<subseteq> set (lw_inside s)" by (rule set_remove1_subset)
  then show ?thesis
    using inv remove_holder(1)[OF ex crash(2)] crash(1) by (auto simp: lock_inv_def exclusive_def)
qed

lemma timely_inv: "timely_run s \<Longrightarrow> lock_inv s \<and> in_time s"
proof (induction rule: timely_run.induct)
  case start
  then show ?case by (simp add: lock_inv_def idle_def exclusive_def in_time_def)
next
  case (step s s')
  then show ?case using lock_inv_step by blast
qed

section \<open>Properties\<close>

text \<open>C6: As long as no worker is still inside its body when its lock expires, at most one worker at
  a time is inside the bodies guarded by a key.\<close>

theorem mutual_exclusion:
  assumes "timely_run s"
  shows "exclusive s"
  using timely_inv[OF assms] by (simp add: lock_inv_def)

definition two_workers :: lock_world where
  "two_workers = \<lparr>lw_now = 5, lw_cache = [(''b'', 30), (''a'', 20)],
     lw_inside = [\<lparr>h_worker = 2, h_key = ''b'', h_deadline = 30\<rparr>, \<lparr>h_worker = 1, h_key = ''a'', h_deadline = 20\<rparr>]\<rparr>"

lemma two_workers_run: "timely_run two_workers"
proof -
  let ?s1 = "\<lparr>lw_now = 0, lw_cache = [(''a'', 20)], lw_inside = [\<lparr>h_worker = 1, h_key = ''a'', h_deadline = 20\<rparr>]\<rparr>"
  have "lock_step idle ?s1"
    using lock_step.acquire[of "''a''" 20 idle "[(''a'', 20)]" 1] by (simp add: idle_def cache_add_def live_def cache_delete_def)
  then have 1: "timely_run ?s1" by (rule timely_run.step[OF timely_run.start]) (simp add: in_time_def)
  have "lock_step ?s1 (?s1\<lparr>lw_now := 5\<rparr>)" by (rule lock_step.tick) simp
  then have 2: "timely_run (?s1\<lparr>lw_now := 5\<rparr>)" by (rule timely_run.step[OF 1]) (simp add: in_time_def)
  have "lock_step (?s1\<lparr>lw_now := 5\<rparr>) two_workers"
    using lock_step.acquire[of "''b''" 25 "?s1\<lparr>lw_now := 5\<rparr>" "[(''b'', 30), (''a'', 20)]" 2]
    by (simp add: two_workers_def cache_add_def live_def cache_delete_def)
  then show ?thesis by (rule timely_run.step[OF 2]) (simp add: in_time_def two_workers_def)
qed

theorem mutual_exclusion_witness: "exclusive two_workers \<and> length (lw_inside two_workers) = 2"
  using mutual_exclusion[OF two_workers_run] by (simp add: two_workers_def)

text \<open>C36: A worker that outlives its timeout deletes, on leaving, the lock of the worker that took the
  key over, and a third one enters: two workers are then inside the same key and neither of them is
  late.\<close>

theorem late_release_breaks_exclusion:
  "\<exists>s. lock_step\<^sup>*\<^sup>* idle s \<and> \<not> exclusive s \<and> in_time s"
proof -
  let ?h = "\<lambda>p d. \<lparr>h_worker = p, h_key = ''k'', h_deadline = d\<rparr>"
  let ?s1 = "\<lparr>lw_now = 0, lw_cache = [(''k'', 10)], lw_inside = [?h 1 10]\<rparr>"
  let ?s2 = "?s1\<lparr>lw_now := 11\<rparr>"
  let ?s3 = "\<lparr>lw_now = 11, lw_cache = [(''k'', 21)], lw_inside = [?h 2 21, ?h 1 10]\<rparr>"
  let ?s4 = "\<lparr>lw_now = 11, lw_cache = [], lw_inside = [?h 2 21]\<rparr>"
  let ?s5 = "\<lparr>lw_now = 11, lw_cache = [(''k'', 21)], lw_inside = [?h 3 21, ?h 2 21]\<rparr>"
  note eval = idle_def cache_add_def live_def cache_delete_def
  have "lock_step idle ?s1" using lock_step.acquire[of "''k''" 10 idle "[(''k'', 10)]" 1] by (simp add: eval)
  moreover have "lock_step ?s1 ?s2" by (rule lock_step.tick) simp
  moreover have "lock_step ?s2 ?s3" using lock_step.acquire[of "''k''" 10 ?s2 "[(''k'', 21)]" 2] by (simp add: eval)
  moreover have "lock_step ?s3 ?s4" using lock_step.leave[of "?h 1 10" ?s3] by (simp add: eval)
  moreover have "lock_step ?s4 ?s5" using lock_step.acquire[of "''k''" 10 ?s4 "[(''k'', 21)]" 3] by (simp add: eval)
  ultimately have "lock_step\<^sup>*\<^sup>* idle ?s5" by (meson converse_rtranclp_into_rtranclp rtranclp.rtrancl_refl)
  then show ?thesis by (intro exI[of _ ?s5]) (simp add: exclusive_def in_time_def)
qed

end
