(* ===== verification/World.thy ===== *)
theory World
  imports Locks Complex_Main
begin

text \<open>
  The data model: one record per Django model (field order and defaults of the source), the jobs the
  application sends to its Celery queues, the settings it reads, and the state every operation works
  on. Latitudes and longitudes are exact rationals; JSON values have their own datatype.
\<close>

section \<open>Values shared by the models\<close>

datatype json = JNull | JBool bool | JInt int | JNum rat | JStr string | JList "json list" | JObj "(string \<times> json) list"

definition jopt :: "('a \<Rightarrow> json) \<Rightarrow> 'a option \<Rightarrow> json" where
  "jopt f v = (case v of None \<Rightarrow> JNull | Some x \<Rightarrow> f x)"

section \<open>Servers and log sources\<close>

datatype auth_type = SSH_KEY | PASSWORD

record server =
  sv_name :: string
  sv_hostname :: string
  sv_ip_address :: "string option"
  sv_ssh_port :: nat
  sv_ssh_username :: string
  sv_ssh_auth_type :: auth_type
  sv_ssh_private_key :: string
  sv_log_search_paths :: "string list"
  sv_enabled :: bool
  sv_last_connected_at :: "time option"
  sv_last_error :: string
  sv_created_at :: time
  sv_updated_at :: time

definition connection_status :: "server \<Rightarrow> string" where
  "connection_status s =
     (if \<not> sv_enabled s then ''disabled''
      else if sv_last_error s \<noteq> [] then ''error''
      else if sv_last_connected_at s \<noteq> None then ''ok''
      else ''unknown'')"

record log_source =
  ls_server :: pk
  ls_name :: string
  ls_path :: string
  ls_format :: string
  ls_enabled :: bool
  ls_inode :: "int option"
  ls_byte_offset :: int
  ls_last_read_at :: "time option"
  ls_last_event_at :: "time option"
  ls_last_error :: string
  ls_created_at :: time
  ls_updated_at :: time

definition reader_status :: "log_source \<Rightarrow> string" where
  "reader_status s =
     (if \<not> ls_enabled s then ''disabled''
      else if ls_last_error s \<noteq> [] then ''error''
      else if ls_last_read_at s \<noteq> None then ''running''
      else ''pending'')"

section \<open>Addresses\<close>

datatype whois_status = NEVER_CHECKED | OK | ERROR

record ip_row =
  ia_address :: string
  ia_version :: nat
  ia_country_code :: string
  ia_country_name :: string
  ia_continent :: string
  ia_latitude :: "rat option"
  ia_longitude :: "rat option"
  ia_asn :: "int option"
  ia_organization :: string
  ia_network :: string
  ia_cidr :: "string option"
  ia_whois_status :: whois_status
  ia_whois_checked_at :: "time option"
  ia_whois_next_check_at :: "time option"
  ia_whois_country :: string
  ia_whois_error :: string
  ia_is_iran :: bool
  ia_iran_checked_at :: "time option"
  ia_iran_match_cidr :: "string option"
  ia_first_seen_at :: time
  ia_last_seen_at :: time
  ia_created_at :: time
  ia_updated_at :: time

definition blank_ip :: "string \<Rightarrow> nat \<Rightarrow> time \<Rightarrow> time \<Rightarrow> ip_row" where
  "blank_ip address version seen_at now =
     \<lparr>ia_address = address, ia_version = version, ia_country_code = [], ia_country_name = [],
      ia_continent = [], ia_latitude = None, ia_longitude = None, ia_asn = None,
      ia_organization = [], ia_network = [], ia_cidr = None, ia_whois_status = NEVER_CHECKED,
      ia_whois_checked_at = None, ia_whois_next_check_at = None, ia_whois_country = [],
      ia_whois_error = [], ia_is_iran = False, ia_iran_checked_at = None,
      ia_iran_match_cidr = None, ia_first_seen_at = seen_at, ia_last_seen_at = seen_at,
      ia_created_at = now, ia_updated_at = now\<rparr>"

section \<open>What happened: requests, lookups, classifications, actions\<close>

record event =
  ev_server :: pk
  ev_log_source :: pk
  ev_ip :: pk
  ev_timestamp :: time
  ev_host :: string
  ev_method :: string
  ev_uri :: string
  ev_status :: int
  ev_bytes :: int
  ev_request_time :: "string option"
  ev_user_agent :: string
  ev_referer :: string
  ev_raw_line :: string
  ev_created_at :: time

type_synonym fields = "(string \<times> string list) list"

record whois_record =
  wr_ip :: pk
  wr_queried_at :: time
  wr_whois_server :: string
  wr_raw_response :: string
  wr_parsed_data :: fields
  wr_response_hash :: string
  wr_created_at :: time

record country_network =
  cn_country_code :: string
  cn_cidr :: string
  cn_network :: string
  cn_prefix_length :: nat
  cn_source :: string
  cn_valid_from :: "time option"
  cn_valid_until :: "time option"
  cn_last_verified_at :: "time option"
  cn_enabled :: bool
  cn_created_at :: time
  cn_updated_at :: time

record country_history =
  ch_ip :: pk
  ch_country_code :: string
  ch_source :: string
  ch_cidr :: "string option"
  ch_valid_from :: time
  ch_valid_until :: "time option"
  ch_confidence :: rat
  ch_created_at :: time

datatype audit_result = SUCCESS | FAILURE

record audit_entry =
  al_user :: "pk option"
  al_action :: string
  al_object_type :: string
  al_object_id :: string
  al_object_repr :: string
  al_ip_address :: "string option"
  al_result :: audit_result
  al_metadata :: "(string \<times> json) list"
  al_created_at :: time

record user =
  us_username :: string
  us_is_staff :: bool

section \<open>Jobs\<close>

datatype job =
    Poll_log_source pk
  | Poll_all_log_sources
  | Process_new_ip pk
  | Enrich_ip pk
  | Perform_whois_lookup pk bool
  | Classify_ip pk
  | Run_monthly_iran_validation
  | Purge_old_data
  | Purge_stale_ips
  | Purge_old_request_events
  | Purge_old_whois_records
  | Test_server_connection pk "pk option"
  | Discover_server_logs pk "pk option"

fun queue_of :: "job \<Rightarrow> string" where
  "queue_of (Poll_log_source _) = ''logs''"
| "queue_of Poll_all_log_sources = ''logs''"
| "queue_of (Process_new_ip _) = ''ips''"
| "queue_of (Enrich_ip _) = ''ips''"
| "queue_of (Perform_whois_lookup _ _) = ''whois''"
| "queue_of (Classify_ip _) = ''iran''"
| "queue_of Run_monthly_iran_validation = ''iran''"
| "queue_of Purge_old_data = ''maintenance''"
| "queue_of Purge_stale_ips = ''maintenance''"
| "queue_of Purge_old_request_events = ''maintenance''"
| "queue_of Purge_old_whois_records = ''maintenance''"
| "queue_of (Test_server_connection _ _) = ''maintenance''"
| "queue_of (Discover_server_logs _ _) = ''maintenance''"

section \<open>Settings and state\<close>

record settings =
  st_ssh_connect_timeout :: int
  st_whois_timeout :: int
  st_whois_cache_days :: int
  st_request_retention_days :: int
  st_whois_retention_days :: int
  st_ip_retention_days :: int
  st_incident_retention_days :: int
  st_iran_cidr_source :: string
  st_geoip_provider :: string
  st_geoip_database_path :: string
  st_whois_binary :: string
  st_iran_ripe_stats_url :: string
  st_iran_ripe_stats_timeout :: int
  st_ssh_credential_encryption_key :: string

definition default_settings :: settings where
  "default_settings =
     \<lparr>st_ssh_connect_timeout = 10, st_whois_timeout = 10, st_whois_cache_days = 7,
      st_request_retention_days = 30, st_whois_retention_days = 180, st_ip_retention_days = 365, st_incident_retention_days = 365,
      st_iran_cidr_source = ''static'', st_geoip_provider = ''null'', st_geoip_database_path = [],
      st_whois_binary = ''/usr/bin/whois'',
      st_iran_ripe_stats_url = ''https://ftp.ripe.net/pub/stats/ripencc/delegated-ripencc-extended-latest'',
      st_iran_ripe_stats_timeout = 30, st_ssh_credential_encryption_key = []\<rparr>"

record request_context =
  rc_user_id :: "pk option"
  rc_ip_address :: "string option"

record world = lock_state +
  w_settings :: settings
  w_users :: "user table"
  w_servers :: "server table"
  w_sources :: "log_source table"
  w_ips :: "ip_row table"
  w_events :: "event table"
  w_whois :: "whois_record table"
  w_cidrs :: "country_network table"
  w_history :: "country_history table"
  w_audit :: "audit_entry table"
  w_jobs :: "job list"
  w_context :: "request_context option"

type_synonym 'a eff = "(world, 'a) effect"

definition empty_world :: "settings \<Rightarrow> time \<Rightarrow> world" where
  "empty_world cfg now =
     \<lparr>w_now = now, w_cache = [], w_settings = cfg, w_users = empty_table, w_servers = empty_table,
      w_sources = empty_table, w_ips = empty_table, w_events = empty_table, w_whois = empty_table,
      w_cidrs = empty_table, w_history = empty_table, w_audit = empty_table, w_jobs = [],
      w_context = None\<rparr>"

text \<open>\<open>task.delay(...)\<close>: the message joins the queues.\<close>

definition delay :: "job \<Rightarrow> world \<Rightarrow> world" where
  "delay j w = w\<lparr>w_jobs := w_jobs w @ [j]\<rparr>"

definition delays :: "job list \<Rightarrow> world \<Rightarrow> world" where
  "delays js w = w\<lparr>w_jobs := w_jobs w @ js\<rparr>"

section \<open>Well-formed databases\<close>

text \<open>Keys are in order, every foreign key of a row leads to a row, and the uniqueness constraints hold.\<close>

definition tables_ok :: "world \<Rightarrow> bool" where
  "tables_ok w \<longleftrightarrow> table_ok (w_users w) \<and> table_ok (w_servers w) \<and> table_ok (w_sources w) \<and> table_ok (w_ips w)
     \<and> table_ok (w_events w) \<and> table_ok (w_whois w) \<and> table_ok (w_cidrs w) \<and> table_ok (w_history w)
     \<and> table_ok (w_audit w)"

definition has_row :: "'r table \<Rightarrow> pk \<Rightarrow> bool" where
  "has_row t k \<longleftrightarrow> get_row k t \<noteq> None"

definition refs_ok :: "world \<Rightarrow> bool" where
  "refs_ok w \<longleftrightarrow>
     all_rows (\<lambda>_ s. has_row (w_servers w) (ls_server s)) (w_sources w)
     \<and> all_rows (\<lambda>_ e. has_row (w_servers w) (ev_server e) \<and> has_row (w_sources w) (ev_log_source e)
          \<and> has_row (w_ips w) (ev_ip e)) (w_events w)
     \<and> all_rows (\<lambda>_ r. has_row (w_ips w) (wr_ip r)) (w_whois w)
     \<and> all_rows (\<lambda>_ h. has_row (w_ips w) (ch_ip h)) (w_history w)"

definition addresses_unique :: "world \<Rightarrow> bool" where
  "addresses_unique w \<longleftrightarrow> unique_on ia_address (w_ips w)"

definition cidrs_unique :: "world \<Rightarrow> bool" where
  "cidrs_unique w \<longleftrightarrow> unique_on (\<lambda>r. (cn_country_code r, cn_cidr r)) (w_cidrs w)"

definition names_unique :: "world \<Rightarrow> bool" where
  "names_unique w \<longleftrightarrow> unique_on sv_name (w_servers w)"

definition sources_unique :: "world \<Rightarrow> bool" where
  "sources_unique w \<longleftrightarrow> unique_on (\<lambda>s. (ls_server s, ls_path s)) (w_sources w)"

definition db_ok :: "world \<Rightarrow> bool" where
  "db_ok w \<longleftrightarrow> tables_ok w \<and> refs_ok w \<and> addresses_unique w \<and> cidrs_unique w \<and> names_unique w \<and> sources_unique w"

section \<open>Evaluation of the checks\<close>

definition refs_ok_list :: "world \<Rightarrow> bool" where
  "refs_ok_list w \<longleftrightarrow>
     list_all (\<lambda>(_, s). has_row (w_servers w) (ls_server s)) (tb_rows (w_sources w))
     \<and> list_all (\<lambda>(_, e). has_row (w_servers w) (ev_server e) \<and> has_row (w_sources w) (ev_log_source e)
          \<and> has_row (w_ips w) (ev_ip e)) (tb_rows (w_events w))
     \<and> list_all (\<lambda>(_, r). has_row (w_ips w) (wr_ip r)) (tb_rows (w_whois w))
     \<and> list_all (\<lambda>(_, h). has_row (w_ips w) (ch_ip h)) (tb_rows (w_history w))"

definition tables_ok_list :: "world \<Rightarrow> bool" where
  "tables_ok_list w \<longleftrightarrow>
     (let ok = (\<lambda>ks n. sorted_wrt (<) ks \<and> list_all (\<lambda>k. k \<le> n) ks) in
      ok (map fst (tb_rows (w_users w))) (tb_seq (w_users w)) \<and> ok (map fst (tb_rows (w_servers w))) (tb_seq (w_servers w)) \<and>
      ok (map fst (tb_rows (w_sources w))) (tb_seq (w_sources w)) \<and> ok (map fst (tb_rows (w_ips w))) (tb_seq (w_ips w)) \<and>
      ok (map fst (tb_rows (w_events w))) (tb_seq (w_events w)) \<and> ok (map fst (tb_rows (w_whois w))) (tb_seq (w_whois w)) \<and>
      ok (map fst (tb_rows (w_cidrs w))) (tb_seq (w_cidrs w)) \<and> ok (map fst (tb_rows (w_history w))) (tb_seq (w_history w)) \<and>
      ok (map fst (tb_rows (w_audit w))) (tb_seq (w_audit w)))"

definition db_check :: "world \<Rightarrow> bool" where
  "db_check w \<longleftrightarrow> tables_ok_list w \<and> refs_ok_list w \<and>
     distinct (map ia_address (row_values (w_ips w))) \<and>
     distinct (map (\<lambda>r. (cn_country_code r, cn_cidr r)) (row_values (w_cidrs w))) \<and>
     distinct (map sv_name (row_values (w_servers w))) \<and>
     distinct (map (\<lambda>s. (ls_server s, ls_path s)) (row_values (w_sources w)))"

lemma table_ok_list: "table_ok t \<longleftrightarrow> sorted_wrt (<) (map fst (tb_rows t)) \<and> list_all (\<lambda>k. k \<le> tb_seq t) (map fst (tb_rows t))"
  by (auto simp: table_ok_def list_all_iff)

lemma tables_ok_check: "tables_ok w \<longleftrightarrow> tables_ok_list w"
  by (simp add: tables_ok_def tables_ok_list_def table_ok_list)

lemma db_ok_check: "db_ok w \<longleftrightarrow> db_check w"
proof (cases "tables_ok w")
  case True
  then have "table_ok (w_sources w)" "table_ok (w_events w)" "table_ok (w_whois w)" "table_ok (w_history w)"
    "table_ok (w_ips w)" "table_ok (w_cidrs w)" "table_ok (w_servers w)" by (simp_all add: tables_ok_def)
  then show ?thesis
    by (simp add: db_ok_def db_check_def tables_ok_check refs_ok_def refs_ok_list_def all_rows_list
        addresses_unique_def cidrs_unique_def names_unique_def sources_unique_def unique_on_list)
next
  case False
  then show ?thesis by (simp add: db_ok_def db_check_def tables_ok_check)
qed

lemma has_row_insert:
  "table_ok t \<Longrightarrow> insert_row r t = (k, t') \<Longrightarrow> has_row t' j \<longleftrightarrow> j = k \<or> has_row t j"
  by (simp add: has_row_def get_insert_row(3))

lemma has_row_add [simp]: "table_ok t \<Longrightarrow> has_row (add_row r t) j \<longleftrightarrow> j = Suc (tb_seq t) \<or> has_row t j"
  using has_row_insert[of t r "Suc (tb_seq t)" "add_row r t"] by (simp add: add_row_def insert_row_def)

lemma has_row_update [simp]: "has_row (update_rows P f t) j \<longleftrightarrow> has_row t j"
  by (simp add: has_row_def get_update_rows)

lemma has_row_update_row [simp]: "has_row (update_row k f t) j \<longleftrightarrow> has_row t j"
  by (simp add: has_row_def get_update_row)

lemma empty_world_ok: "db_ok (empty_world cfg now)"
  by (simp add: db_ok_check db_check_def tables_ok_list_def refs_ok_list_def empty_world_def empty_table_def row_values_def)

end
