(* ===== verification/Audit_Log.thy ===== *)
theory Audit_Log
  imports World
begin

text \<open>
  \<open>apps/users\<close> and \<open>apps/common/utils.py\<close>: the client address of a request, the request context kept
  in a context variable for the duration of a request, the middleware that sets and restores it, and
  \<open>record_audit_log\<close>.
\<close>

section \<open>The client of a request\<close>

record http_request =
  rq_forwarded_for :: "string option"
  rq_remote_addr :: "string option"
  rq_user :: "pk option"       \<comment> \<open>the authenticated user, if any\<close>
  rq_hx :: bool
  rq_method :: string
  rq_get :: "(string \<times> string) list"     \<comment> \<open>query string: last value of each name\<close>
  rq_post :: "(string \<times> string) list"

definition get_client_ip :: "http_request \<Rightarrow> string option" where
  "get_client_ip rq =
     (case rq_forwarded_for rq of
        Some f \<Rightarrow> if f \<noteq> [] then Some (py_strip (hd (split_on (CHR '','') f))) else rq_remote_addr rq
      | None \<Rightarrow> rq_remote_addr rq)"

section \<open>The context variable\<close>

definition set_context :: "pk option \<Rightarrow> string option \<Rightarrow> world \<Rightarrow> request_context option \<times> world" where
  "set_context user_id ip_addr w =
     (w_context w, w\<lparr>w_context := Some \<lparr>rc_user_id = user_id, rc_ip_address = ip_addr\<rparr>\<rparr>)"

definition reset_context :: "request_context option \<Rightarrow> world \<Rightarrow> world" where
  "reset_context token w = w\<lparr>w_context := token\<rparr>"

definition get_context :: "world \<Rightarrow> request_context" where
  "get_context w = (case w_context w of Some c \<Rightarrow> c | None \<Rightarrow> \<lparr>rc_user_id = None, rc_ip_address = None\<rparr>)"

text \<open>\<open>AuditLogMiddleware.__call__\<close>; the \<open>finally\<close> runs whatever the view raised.\<close>

definition audit_middleware :: "(http_request \<Rightarrow> 'a eff) \<Rightarrow> http_request \<Rightarrow> 'a eff" where
  "audit_middleware get_response rq w =
     (let (token, w1) = set_context (rq_user rq) (get_client_ip rq) w;
          (r, w2) = get_response rq w1
      in (r, reset_context token w2))"

section \<open>Recording\<close>

text \<open>What the log keeps of an object: its class name, key and printed form.\<close>

record audit_object =
  ao_type :: string
  ao_pk :: "pk option"
  ao_repr :: string

definition audit_row ::
  "string \<Rightarrow> audit_object option \<Rightarrow> audit_result \<Rightarrow> (string \<times> json) list \<Rightarrow> pk option \<Rightarrow> string option \<Rightarrow>
   world \<Rightarrow> audit_entry" where
  "audit_row action obj result metadata user ip_addr w =
     (let ctx = get_context w in
      \<lparr>al_user = (case user of Some u \<Rightarrow> Some u | None \<Rightarrow> rc_user_id ctx),
       al_action = action,
       al_object_type = (case obj of None \<Rightarrow> [] | Some ob \<Rightarrow> ao_type ob),
       al_object_id = (case obj of None \<Rightarrow> [] | Some ob \<Rightarrow>
         (case ao_pk ob of Some k \<Rightarrow> nat_str k | None \<Rightarrow> ''None'')),
       al_object_repr = (case obj of None \<Rightarrow> [] | Some ob \<Rightarrow> take 255 (ao_repr ob)),
       al_ip_address = (case ip_addr of Some a \<Rightarrow> if a \<noteq> [] then Some a else rc_ip_address ctx
                        | None \<Rightarrow> rc_ip_address ctx),
       al_result = result, al_metadata = metadata, al_created_at = w_now w\<rparr>)"

definition record_audit_log ::
  "string \<Rightarrow> audit_object option \<Rightarrow> audit_result \<Rightarrow> (string \<times> json) list \<Rightarrow> pk option \<Rightarrow> string option \<Rightarrow>
   world \<Rightarrow> world" where
  "record_audit_log action obj result metadata user ip_addr w =
     w\<lparr>w_audit := add_row (audit_row action obj result metadata user ip_addr w) (w_audit w)\<rparr>"

definition audit :: "string \<Rightarrow> audit_object option \<Rightarrow> world \<Rightarrow> world" where
  "audit action obj = record_audit_log action obj SUCCESS [] None None"

definition server_object :: "pk \<Rightarrow> server \<Rightarrow> audit_object" where
  "server_object k s = \<lparr>ao_type = ''Server'', ao_pk = Some k, ao_repr = sv_name s\<rparr>"

definition log_source_object :: "world \<Rightarrow> pk \<Rightarrow> log_source \<Rightarrow> audit_object" where
  "log_source_object w k s = \<lparr>ao_type = ''LogSource'', ao_pk = Some k,
     ao_repr = (case get_row (ls_server s) (w_servers w) of Some v \<Rightarrow> sv_name v | None \<Rightarrow> []) @ '':'' @ ls_path s\<rparr>"

definition ip_object :: "pk \<Rightarrow> ip_row \<Rightarrow> audit_object" where
  "ip_object k r = \<lparr>ao_type = ''IPAddress'', ao_pk = Some k, ao_repr = ia_address r\<rparr>"

definition network_object :: "pk \<Rightarrow> country_network \<Rightarrow> audit_object" where
  "network_object k r = \<lparr>ao_type = ''CountryNetwork'', ao_pk = Some k, ao_repr = cn_country_code r @ '' '' @ cn_cidr r\<rparr>"

text \<open>\<open>AuditLogEntry.__str__\<close>.\<close>

definition audit_str :: "world \<Rightarrow> audit_entry \<Rightarrow> string" where
  "audit_str w e =
     (case al_user e of
        None \<Rightarrow> ''system''
      | Some u \<Rightarrow> (case get_row u (w_users w) of Some v \<Rightarrow> us_username v | None \<Rightarrow> ''system''))
     @ '' '' @ al_action e @ '' ('' @ (case al_result e of SUCCESS \<Rightarrow> ''success'' | FAILURE \<Rightarrow> ''failure'') @ '')''"

text \<open>The audit log page: newest first, filtered by a fragment of the action and by the result.\<close>

fun is_infix :: "string \<Rightarrow> string \<Rightarrow> bool" where
  "is_infix p [] = (p = [])"
| "is_infix p (c # s) = (starts_with p (c # s) \<or> is_infix p s)"

text \<open>SQL's \<open>UPPER\<close> maps characters one by one; \<open>__icontains\<close> and \<open>__iexact\<close> compare under it.\<close>

definition sql_upper :: "string \<Rightarrow> string" where
  "sql_upper s = map (\<lambda>c. case upper_char c of [d] \<Rightarrow> d | _ \<Rightarrow> c) s"

definition icontains :: "string \<Rightarrow> string \<Rightarrow> bool" where
  "icontains text query = is_infix (sql_upper query) (sql_upper text)"

definition iexact :: "string \<Rightarrow> string \<Rightarrow> bool" where
  "iexact text query \<longleftrightarrow> sql_upper text = sql_upper query"

definition audit_log_list :: "string \<Rightarrow> string \<Rightarrow> world \<Rightarrow> audit_entry list" where
  "audit_log_list action result w =
     (let a = py_strip action;
          entries = rev (row_values (w_audit w));
          by_action = (if a \<noteq> [] then filter (\<lambda>e. icontains (al_action e) a) entries else entries)
      in if result = ''success'' then filter (\<lambda>e. al_result e = SUCCESS) by_action
         else if result = ''failure'' then filter (\<lambda>e. al_result e = FAILURE) by_action
         else by_action)"

section \<open>Laws\<close>

lemma record_audit_log_frame [frame_simps, simp]:
  "w_now (record_audit_log a ob r m u i w) = w_now w"
  "w_cache (record_audit_log a ob r m u i w) = w_cache w"
  "w_settings (record_audit_log a ob r m u i w) = w_settings w"
  "w_users (record_audit_log a ob r m u i w) = w_users w"
  "w_servers (record_audit_log a ob r m u i w) = w_servers w"
  "w_sources (record_audit_log a ob r m u i w) = w_sources w"
  "w_ips (record_audit_log a ob r m u i w) = w_ips w"
  "w_events (record_audit_log a ob r m u i w) = w_events w"
  "w_whois (record_audit_log a ob r m u i w) = w_whois w"
  "w_cidrs (record_audit_log a ob r m u i w) = w_cidrs w"
  "w_history (record_audit_log a ob r m u i w) = w_history w"
  "w_jobs (record_audit_log a ob r m u i w) = w_jobs w"
  "w_context (record_audit_log a ob r m u i w) = w_context w"
  by (simp_all add: record_audit_log_def Let_def)

lemma audit_row_simps [simp]:
  "al_action (audit_row a ob r m u i w) = a" "al_result (audit_row a ob r m u i w) = r"
  "al_metadata (audit_row a ob r m u i w) = m" "al_created_at (audit_row a ob r m u i w) = w_now w"
  by (simp_all add: audit_row_def Let_def)

lemma w_audit_record [simp]:
  "w_audit (record_audit_log a ob r m u i w) = add_row (audit_row a ob r m u i w) (w_audit w)"
  by (simp add: record_audit_log_def)

lemma db_ok_audit [simp]: "db_ok (record_audit_log a ob r m u i w) = db_ok w" if "table_ok (w_audit w)"
  using that by (simp add: db_ok_def tables_ok_def refs_ok_def addresses_unique_def cidrs_unique_def names_unique_def sources_unique_def)

section \<open>Properties\<close>

text \<open>Whatever a view does, and also when it raises, the middleware leaves the request context
  exactly as it found it, and the view ran with the context of its own request.\<close>

lemma middleware_restores_context:
  "w_context (snd (audit_middleware view rq w)) = w_context w \<and>
   fst (audit_middleware view rq w) =
     fst (view rq (w\<lparr>w_context := Some \<lparr>rc_user_id = rq_user rq, rc_ip_address = get_client_ip rq\<rparr>\<rparr>))"
  by (simp add: audit_middleware_def set_context_def reset_context_def split: prod.splits)

text \<open>Recording appends exactly one entry to the log and touches nothing else; inside a request it
  is attributed to the request's user and client, and earlier entries stay as they are.\<close>

lemma audit_appends_attributed:
  "\<exists>e. row_values (w_audit (snd (audit_middleware (\<lambda>_ w. (Inr (), audit action obj w)) rq w))) =
         row_values (w_audit w) @ [e]
     \<and> al_action e = action \<and> al_user e = rq_user rq \<and> al_ip_address e = get_client_ip rq
     \<and> al_created_at e = w_now w \<and> al_result e = SUCCESS"
  by (simp add: audit_middleware_def set_context_def reset_context_def audit_def audit_row_def
      record_audit_log_def Let_def get_context_def)

end
