(* ===== verification/Ssh_Service.thy ===== *)
theory Ssh_Service
  imports Audit_Log Py_Ipaddress
begin

text \<open>
  \<open>apps/servers\<close>: the SSH operations of a server (connection test, log discovery, one incremental
  read), the two tasks that run them, the form and the views. The remote host and paramiko are a
  parameter: a record of the answers the host gives to the fixed commands and SFTP requests the
  application sends. The client object lives for one operation only.
\<close>

section \<open>The remote host\<close>

record dir_entry =
  de_filename :: string
  de_is_dir :: bool
  de_size :: "int option"
  de_mtime :: "int option"

record host =
  rh_parse_key :: "nat \<Rightarrow> string \<Rightarrow> string option"   \<comment> \<open>key class and text; Some is its error\<close>
  rh_connect :: "server \<Rightarrow> string option"               \<comment> \<open>Some is the SSH or OS error\<close>
  rh_exec :: "string \<Rightarrow> nat \<times> string \<times> string"          \<comment> \<open>exit status, stdout, stderr of a command line\<close>
  rh_listdir :: "string \<Rightarrow> dir_entry list option"        \<comment> \<open>None is \<open>FileNotFoundError\<close>\<close>
  rh_content :: "string \<Rightarrow> string"                       \<comment> \<open>bytes of a file\<close>

section \<open>Connecting\<close>

fun try_keys :: "(nat \<Rightarrow> string \<Rightarrow> string option) \<Rightarrow> nat list \<Rightarrow> string \<Rightarrow> string \<Rightarrow> unit res" where
  "try_keys parse_key [] key_data last_error =
     Inl (SSHConnectionError (''Unable to parse SSH private key: '' @ last_error))"
| "try_keys parse_key (c # cs) key_data last_error =
     (case parse_key c key_data of None \<Rightarrow> Inr () | Some e \<Rightarrow> try_keys parse_key cs key_data e)"

definition load_private_key :: "host \<Rightarrow> string \<Rightarrow> unit res" where
  "load_private_key h key_data =
     (if key_data = [] then Inl (SSHConnectionError ''No SSH private key configured for this server.'')
      else try_keys (rh_parse_key h) [0, 1, 2] key_data ''None'')"

definition connect_kwargs :: "host \<Rightarrow> server \<Rightarrow> unit res" where
  "connect_kwargs h s =
     (case sv_ssh_auth_type s of
        SSH_KEY \<Rightarrow> load_private_key h (sv_ssh_private_key s)
      | PASSWORD \<Rightarrow>
          if sv_ssh_private_key s = []
          then Inl (SSHConnectionError ''No SSH password configured for this server.'') else Inr ())"

definition ssh_client :: "host \<Rightarrow> server \<Rightarrow> unit res" where
  "ssh_client h s =
     res_bind (connect_kwargs h s) (\<lambda>_.
       case rh_connect h s of None \<Rightarrow> Inr () | Some e \<Rightarrow> Inl (SSHConnectionError e))"

text \<open>\<open>shlex.quote\<close>: text made of safe characters stays, anything else goes between single quotes.\<close>

definition shell_safe :: "char \<Rightarrow> bool" where
  "shell_safe c \<longleftrightarrow> ascii_digit c \<or> 65 \<le> cp c \<and> cp c \<le> 90 \<or> 97 \<le> cp c \<and> cp c \<le> 122 \<or> c \<in> set ''_@%+=:,./-''"

fun quote_quotes :: "string \<Rightarrow> string" where
  "quote_quotes [] = []"
| "quote_quotes (c # cs) =
     (if c = CHR 0x27 then [CHR 0x27, CHR 0x22, CHR 0x27, CHR 0x22, CHR 0x27] else [c]) @ quote_quotes cs"

definition shlex_quote :: "string \<Rightarrow> string" where
  "shlex_quote s =
     (if s = [] then [CHR 0x27, CHR 0x27]
      else if list_all shell_safe s then s
      else [CHR 0x27] @ quote_quotes s @ [CHR 0x27])"

definition command_line :: "string list \<Rightarrow> string" where
  "command_line argv = join_with '' '' (map shlex_quote argv)"

definition ssh_exec :: "host \<Rightarrow> string list \<Rightarrow> bool \<Rightarrow> string" where
  "ssh_exec h argv combine_stderr =
     (case rh_exec h (command_line argv) of (_, out, err) \<Rightarrow> if combine_stderr then out @ err else out)"

definition ssh_exec_with_status :: "host \<Rightarrow> string list \<Rightarrow> string option" where
  "ssh_exec_with_status h argv = (case rh_exec h (command_line argv) of (status, out, _) \<Rightarrow> if status \<noteq> 0 then None else Some out)"

section \<open>The connection test\<close>

record connection_test =
  ct_success :: bool
  ct_os_name :: "string option"
  ct_nginx_found :: bool
  ct_nginx_version :: "string option"
  ct_error :: "string option"

definition or_none :: "string \<Rightarrow> string option" where
  "or_none s = (if s = [] then None else Some s)"

definition test_connection :: "host \<Rightarrow> server \<Rightarrow> connection_test res" where
  "test_connection h s =
     (case ssh_client h s of
        Inl (SSHConnectionError e) \<Rightarrow>
          Inr \<lparr>ct_success = False, ct_os_name = None, ct_nginx_found = False, ct_nginx_version = None,
               ct_error = Some e\<rparr>
      | Inl e \<Rightarrow> Inl e
      | Inr _ \<Rightarrow>
          (let os_name = py_strip (ssh_exec h [''uname'', ''-s''] False) in
           if py_lower os_name \<noteq> ''linux'' then
             Inr \<lparr>ct_success = False, ct_os_name = or_none os_name, ct_nginx_found = False,
                  ct_nginx_version = None,
                  ct_error = Some (''Unsupported OS: '' @ (if os_name = [] then ''unknown'' else os_name)
                                   @ '' (Linux required).'')\<rparr>
           else
             (let nginx_path = py_strip (ssh_exec h [''command'', ''-v'', ''nginx''] False);
                  nginx_version = (if nginx_path \<noteq> [] then py_strip (ssh_exec h [''nginx'', ''-v''] True) else [])
              in Inr \<lparr>ct_success = True, ct_os_name = Some os_name, ct_nginx_found = (nginx_path \<noteq> []),
                      ct_nginx_version = or_none nginx_version, ct_error = None\<rparr>)))"

section \<open>Log discovery\<close>

record discovered_log =
  dl_path :: string
  dl_size :: int
  dl_mtime :: int

text \<open>\<open>posixpath.join(a, b)\<close>.\<close>

definition posix_join :: "string \<Rightarrow> string \<Rightarrow> string" where
  "posix_join a b =
     (if starts_with ''/'' b then b
      else if a = [] \<or> last a = CHR ''/'' then a @ b
      else a @ ''/'' @ b)"

definition list_directory :: "host \<Rightarrow> string \<Rightarrow> discovered_log list" where
  "list_directory h directory =
     (case rh_listdir h directory of
        None \<Rightarrow> []
      | Some entries \<Rightarrow>
          map (\<lambda>e. \<lparr>dl_path = posix_join directory (de_filename e),
                    dl_size = (case de_size e of Some n \<Rightarrow> n | None \<Rightarrow> 0),
                    dl_mtime = (case de_mtime e of Some n \<Rightarrow> n | None \<Rightarrow> 0)\<rparr>)
              (filter (\<lambda>e. \<not> de_is_dir e) entries))"

fun first_of_each :: "string list \<Rightarrow> discovered_log list \<Rightarrow> discovered_log list" where
  "first_of_each seen [] = []"
| "first_of_each seen (e # es) =
     (if dl_path e \<in> set seen then first_of_each seen es
      else e # first_of_each (dl_path e # seen) es)"

definition default_log_dir :: string where "default_log_dir = ''/var/log/nginx/''"

definition discover_logs :: "host \<Rightarrow> server \<Rightarrow> string list \<Rightarrow> discovered_log list res" where
  "discover_logs h s extra_paths =
     res_bind (ssh_client h s) (\<lambda>_.
       Inr (first_of_each [] (concat (map (list_directory h) (default_log_dir # extra_paths)))))"

section \<open>One incremental read\<close>

record log_chunk =
  lc_inode :: int
  lc_size :: int
  lc_mtime :: int
  lc_offset :: int
  lc_data :: string
  lc_rotated :: bool

text \<open>\<open>s.split()\<close>: the maximal runs of characters that are not white space.\<close>

fun split_ws_aux :: "string \<Rightarrow> string \<Rightarrow> string list" where
  "split_ws_aux acc [] = (if acc = [] then [] else [rev acc])"
| "split_ws_aux acc (c # cs) =
     (if py_ws c then (if acc = [] then [] else [rev acc]) @ split_ws_aux [] cs
      else split_ws_aux (c # acc) cs)"

definition split_ws :: "string \<Rightarrow> string list" where "split_ws s = split_ws_aux [] s"

definition parse_stat :: "string \<Rightarrow> (int \<times> int \<times> int) res" where
  "parse_stat out =
     (case split_ws out of
        [i, s, m] \<Rightarrow>
          (case (py_int i, py_int s, py_int m) of
             (Some i', Some s', Some m') \<Rightarrow> Inr (i', s', m')
           | _ \<Rightarrow> Inl ValueError)
      | _ \<Rightarrow> Inl ValueError)"

text \<open>\<open>remote_file.seek(offset); remote_file.read(n)\<close>.\<close>

definition read_range :: "string \<Rightarrow> int \<Rightarrow> int \<Rightarrow> string" where
  "read_range content offset n = take (nat n) (drop (nat offset) content)"

definition chunk_of :: "int option \<Rightarrow> int option \<Rightarrow> string \<Rightarrow> int \<times> int \<times> int \<Rightarrow> log_chunk" where
  "chunk_of known_inode known_offset content file_stat =
     (case file_stat of (inode, fsize, mtime) \<Rightarrow>
       (let rotated = (case known_inode of None \<Rightarrow> False | Some k \<Rightarrow> inode \<noteq> k);
            read_offset = (case known_inode of
                None \<Rightarrow> fsize
              | Some _ \<Rightarrow> if rotated then 0
                          else min (case known_offset of Some n \<Rightarrow> n | None \<Rightarrow> 0) fsize)
        in \<lparr>lc_inode = inode, lc_size = fsize, lc_mtime = mtime, lc_offset = read_offset,
            lc_data = (if fsize > read_offset then read_range content read_offset (fsize - read_offset) else []),
            lc_rotated = rotated\<rparr>))"

definition poll_log :: "host \<Rightarrow> server \<Rightarrow> string \<Rightarrow> int option \<Rightarrow> int option \<Rightarrow> log_chunk option res" where
  "poll_log h s path known_inode known_offset =
     res_bind (ssh_client h s) (\<lambda>_.
       case ssh_exec_with_status h [''stat'', ''-c'', ''%i %s %Y'', path] of
         None \<Rightarrow> Inr None
       | Some out \<Rightarrow>
           res_bind (parse_stat out) (\<lambda>file_stat.
             Inr (Some (chunk_of known_inode known_offset (rh_content h path) file_stat))))"

section \<open>Tasks\<close>

definition resolve_user :: "pk option \<Rightarrow> world \<Rightarrow> pk option" where
  "resolve_user user_id w =
     (case user_id of None \<Rightarrow> None
      | Some u \<Rightarrow> if u = 0 then None else if get_row u (w_users w) \<noteq> None then Some u else None)"

text \<open>\<open>Model.save(update_fields=[...])\<close> on a server: the listed fields of the stored row change.\<close>

definition save_server :: "pk \<Rightarrow> (server \<Rightarrow> server) \<Rightarrow> world \<Rightarrow> world" where
  "save_server k f w =
     w\<lparr>w_servers := update_row k (\<lambda>s. (f s)\<lparr>sv_updated_at := w_now w\<rparr>) (w_servers w)\<rparr>"

definition test_server_connection :: "host \<Rightarrow> pk \<Rightarrow> pk option \<Rightarrow> unit eff" where
  "test_server_connection h server_id user_id w =
     (case get_row server_id (w_servers w) of
        None \<Rightarrow> (Inr (), w)
      | Some server \<Rightarrow>
          (let user = resolve_user user_id w in
           case redis_lock (lock_key ''ssh:test:'' (nat_str server_id))
                  (seconds (st_ssh_connect_timeout (w_settings w) + 30))
                  (\<lambda>w. (test_connection h server, w)) w of
             (Inl (LockHeldError _), w') \<Rightarrow> (Inr (), w')
           | (Inl e, w') \<Rightarrow> (Inl e, w')
           | (Inr result, w') \<Rightarrow>
               (let w1 =
                  (if ct_success result
                   then save_server server_id (\<lambda>s. s\<lparr>sv_last_connected_at := Some (w_now w'), sv_last_error := []\<rparr>) w'
                   else save_server server_id (\<lambda>s. s\<lparr>sv_last_connected_at := sv_last_connected_at server,
                          sv_last_error := (case ct_error result of Some e \<Rightarrow> if e \<noteq> [] then e else ''Unknown SSH error''
                                            | None \<Rightarrow> ''Unknown SSH error'')\<rparr>) w')
                in (Inr (), record_audit_log ''server.test_connection'' (Some (server_object server_id server))
                      (if ct_success result then SUCCESS else FAILURE)
                      [(''os_name'', jopt JStr (ct_os_name result)), (''nginx_found'', JBool (ct_nginx_found result)),
                       (''nginx_version'', jopt JStr (ct_nginx_version result)), (''error'', jopt JStr (ct_error result))]
                      user None w1))))"

definition basename :: "string \<Rightarrow> string" where
  "basename path = last (rsplit1 (CHR ''/'') path)"

definition new_source :: "pk \<Rightarrow> string \<Rightarrow> time \<Rightarrow> log_source" where
  "new_source server_id path now =
     \<lparr>ls_server = server_id, ls_name = basename path, ls_path = path, ls_format = ''combined'',
      ls_enabled = False, ls_inode = None, ls_byte_offset = 0, ls_last_read_at = None,
      ls_last_event_at = None, ls_last_error = [], ls_created_at = now, ls_updated_at = now\<rparr>"

fun register_logs :: "pk \<Rightarrow> discovered_log list \<Rightarrow> world \<Rightarrow> nat \<times> world" where
  "register_logs server_id [] w = (0, w)"
| "register_logs server_id (f # fs) w =
     (case get_or_create (\<lambda>s. ls_server s = server_id \<and> ls_path s = dl_path f)
             (new_source server_id (dl_path f) (w_now w)) (w_sources w) of
        ((_, was_created), t) \<Rightarrow>
          (case register_logs server_id fs (w\<lparr>w_sources := t\<rparr>) of
             (n, w') \<Rightarrow> (if was_created then Suc n else n, w')))"

definition discover_server_logs :: "host \<Rightarrow> pk \<Rightarrow> pk option \<Rightarrow> unit eff" where
  "discover_server_logs h server_id user_id w =
     (case get_row server_id (w_servers w) of
        None \<Rightarrow> (Inr (), w)
      | Some server \<Rightarrow>
          (let user = resolve_user user_id w;
               obj = Some (server_object server_id server) in
           case redis_lock (lock_key ''ssh:discover:'' (nat_str server_id))
                  (seconds (st_ssh_connect_timeout (w_settings w) + 60))
                  (\<lambda>w. case discover_logs h server (sv_log_search_paths server) of
                     Inl (SSHConnectionError e) \<Rightarrow>
                       (Inr None, record_audit_log ''server.discover_logs'' obj FAILURE [(''error'', JStr e)] user None
                          (save_server server_id (\<lambda>s. s\<lparr>sv_last_error := e\<rparr>) w))
                   | Inl e \<Rightarrow> (Inl e, w)
                   | Inr files \<Rightarrow> (Inr (Some files), w)) w of
             (Inl (LockHeldError _), w') \<Rightarrow> (Inr (), w')
           | (Inl e, w') \<Rightarrow> (Inl e, w')
           | (Inr None, w') \<Rightarrow> (Inr (), w')
           | (Inr (Some files), w') \<Rightarrow>
               (let (created, w1) = register_logs server_id files w';
                    w2 = save_server server_id (\<lambda>s. s\<lparr>sv_last_connected_at := Some (w_now w1), sv_last_error := []\<rparr>) w1
                in (Inr (), record_audit_log ''server.discover_logs'' obj SUCCESS
                      [(''discovered'', JInt (int (length files))), (''created'', JInt (int created))] user None w2))))"


section \<open>What a shell makes of a command line\<close>

text \<open>
  The words a POSIX shell splits a line into when it consists of plain safe characters, single and
  double quotes and spaces; any other unquoted character (an operator, an expansion) gives None.
\<close>

datatype quoting = Plain | Single | Double

fun sh_words :: "quoting \<Rightarrow> string option \<Rightarrow> string \<Rightarrow> (string list) option" where
  "sh_words q w [] = (if q = Plain then Some (case w of None \<Rightarrow> [] | Some x \<Rightarrow> [x]) else None)"
| "sh_words Plain w (c # cs) =
     (if c = CHR '' '' then
        (case w of None \<Rightarrow> sh_words Plain None cs
         | Some x \<Rightarrow> map_option (\<lambda>ws. x # ws) (sh_words Plain None cs))
      else if c = CHR 0x27 then sh_words Single (Some (case w of None \<Rightarrow> [] | Some x \<Rightarrow> x)) cs
      else if c = CHR 0x22 then sh_words Double (Some (case w of None \<Rightarrow> [] | Some x \<Rightarrow> x)) cs
      else if shell_safe c then sh_words Plain (Some ((case w of None \<Rightarrow> [] | Some x \<Rightarrow> x) @ [c])) cs
      else None)"
| "sh_words Single w (c # cs) =
     (if c = CHR 0x27 then sh_words Plain w cs
      else sh_words Single (Some ((case w of None \<Rightarrow> [] | Some x \<Rightarrow> x) @ [c])) cs)"
| "sh_words Double w (c # cs) =
     (if c = CHR 0x22 then sh_words Plain w cs
      else if c \<in> {CHR 0x24, CHR 0x60, CHR 0x5C} then None
      else sh_words Double (Some ((case w of None \<Rightarrow> [] | Some x \<Rightarrow> x) @ [c])) cs)"

lemma not_safe: "\<not> shell_safe (CHR '' '')" "\<not> shell_safe (CHR 0x27)" "\<not> shell_safe (CHR 0x22)"
  by code_simp+

lemma sh_plain: "list_all shell_safe s \<Longrightarrow> sh_words Plain (Some x) (s @ t) = sh_words Plain (Some (x @ s)) t"
  using not_safe by (induction s arbitrary: x) auto

lemma sh_single: "sh_words Single (Some x) (quote_quotes s @ CHR 0x27 # t) = sh_words Plain (Some (x @ s)) t"
  by (induction s arbitrary: x) auto

lemma sh_quoted: "sh_words Plain None (shlex_quote s @ t) = sh_words Plain (Some s) t"
proof -
  have "s \<noteq> [] \<Longrightarrow> list_all shell_safe s \<Longrightarrow> sh_words Plain None (s @ t) = sh_words Plain (Some s) t"
    using sh_plain[of "tl s" "[hd s]" t] not_safe by (cases s) auto
  then show ?thesis using sh_single[of "[]" s t] by (simp add: shlex_quote_def)
qed

lemma sh_command: "argv \<noteq> [] \<Longrightarrow> sh_words Plain None (command_line argv) = Some argv"
proof (induction argv rule: induct_list012)
  case (2 a)
  then show ?case using sh_quoted[of a "[]"] by (simp add: command_line_def)
next
  case (3 a b rest)
  have "command_line (a # b # rest) = shlex_quote a @ CHR '' '' # command_line (b # rest)"
    by (simp add: command_line_def)
  then show ?case using 3 sh_quoted[of a] by simp
qed simp

section \<open>Reading and discovery: lemmas\<close>

lemma first_of_each_spec:
  "distinct (map dl_path (first_of_each seen fs)) \<and>
   dl_path ` set (first_of_each seen fs) = dl_path ` set fs - set seen"
  by (induction fs arbitrary: seen) auto

lemma save_server_frame [simp]:
  "w_sources (save_server k f w) = w_sources w" "w_jobs (save_server k f w) = w_jobs w"
  "w_now (save_server k f w) = w_now w" "w_audit (save_server k f w) = w_audit w"
  "w_cache (save_server k f w) = w_cache w"
  by (simp_all add: save_server_def)

definition source_key :: "log_source \<Rightarrow> pk \<times> string" where
  "source_key s = (ls_server s, ls_path s)"

text \<open>What a discovery does to the table: rows stay, new ones are sources of the server with paths that were found, and
  every path found has a row afterwards.\<close>

definition discovered :: "pk \<Rightarrow> time \<Rightarrow> string set \<Rightarrow> log_source table \<Rightarrow> log_source table \<Rightarrow> bool" where
  "discovered k now ps t t' \<longleftrightarrow>
     table_ok t' \<and> unique_on source_key t' \<and>
     (\<forall>j s. get_row j t = Some s \<longrightarrow> get_row j t' = Some s) \<and>
     (\<forall>j s. get_row j t' = Some s \<longrightarrow> get_row j t = None \<longrightarrow> s = new_source k (ls_path s) now \<and> ls_path s \<in> ps) \<and>
     (\<forall>p\<in>ps. \<exists>j s. get_row j t' = Some s \<and> source_key s = (k, p))"

lemma discovered_refl: "table_ok t \<Longrightarrow> unique_on source_key t \<Longrightarrow> discovered k now {} t t"
  by (simp add: discovered_def)

lemma discovered_trans:
  assumes tu: "discovered k now ps t u" and uv: "discovered k now qs u v"
  shows "discovered k now (ps \<union> qs) t v"
proof -
  have "s = new_source k (ls_path s) now \<and> ls_path s \<in> ps \<union> qs"
    if s: "get_row j v = Some s" "get_row j t = None" for j s
  proof (cases "get_row j u")
    case None
    then show ?thesis using uv s(1) unfolding discovered_def by blast
  next
    case (Some r)
    then have "r = s" using uv s(1) unfolding discovered_def by (metis option.inject)
    then show ?thesis using tu Some s(2) unfolding discovered_def by blast
  qed
  moreover have "\<exists>j s. get_row j v = Some s \<and> source_key s = (k, p)" if "p \<in> ps \<union> qs" for p
    using that tu uv unfolding discovered_def by blast
  ultimately show ?thesis using tu uv unfolding discovered_def by blast
qed

lemma discovered_step:
  assumes t: "table_ok t" "unique_on source_key t"
    and g: "get_or_create (\<lambda>s. ls_server s = k \<and> ls_path s = p) (new_source k p now) t = ((j, c), t')"
  shows "discovered k now {p} t t'"
proof (cases "select_rows (\<lambda>_ s. ls_server s = k \<and> ls_path s = p) t")
  case Nil
  then have i: "insert_row (new_source k p now) t = (j, t')" using g by (auto simp: get_or_create_def split: prod.splits)
  have none: "source_key s \<noteq> source_key (new_source k p now)" if "get_row i t = Some s" for i s
    using Nil that select_rows_set[OF t(1), of i s "\<lambda>_ s. ls_server s = k \<and> ls_path s = p"]
    by (auto simp: source_key_def new_source_def)
  note ins = get_insert_row[OF t(1) i]
  have "unique_on source_key t'" by (rule tbl.unique_add[OF t i none])
  moreover have "get_row i t' = Some s" if "get_row i t = Some s" for i s
    using that ins(2,3) by (cases "i = j") auto
  moreover have "get_row j t' = Some (new_source k p now)" using ins(3) by simp
  ultimately show ?thesis using ins(1,3) by (auto simp: discovered_def source_key_def new_source_def)
next
  case (Cons x xs)
  then have same: "t' = t" using g by (auto simp: get_or_create_def split: prod.splits)
  have "x \<in> set (select_rows (\<lambda>_ s. ls_server s = k \<and> ls_path s = p) t)" using Cons by simp
  then have "\<exists>i s. get_row i t = Some s \<and> source_key s = (k, p)"
    using select_rows_set[OF t(1), of "fst x" "snd x" "\<lambda>_ s. ls_server s = k \<and> ls_path s = p"] by (auto simp: source_key_def)
  then show ?thesis using same t by (simp add: discovered_def)
qed

lemma register_logs_discovered:
  assumes "table_ok (w_sources w)" "unique_on source_key (w_sources w)" "register_logs k fs w = (n, w')"
  shows "discovered k (w_now w) (dl_path ` set fs) (w_sources w) (w_sources w') \<and> w' = w\<lparr>w_sources := w_sources w'\<rparr>"
  using assms
proof (induction k fs w arbitrary: n w' rule: register_logs.induct)
  case (2 k f fs w)
  obtain j c t where g: "get_or_create (\<lambda>s. ls_server s = k \<and> ls_path s = dl_path f) (new_source k (dl_path f) (w_now w))
      (w_sources w) = ((j, c), t)"
    by (metis prod.exhaust)
  obtain m where m: "register_logs k fs (w\<lparr>w_sources := t\<rparr>) = (m, w')"
    using 2(4) g by (auto split: prod.splits)
  have step: "discovered k (w_now w) {dl_path f} (w_sources w) t" by (rule discovered_step[OF 2(2,3) g])
  have "discovered k (w_now w) (dl_path ` set fs) t (w_sources w') \<and> w' = w\<lparr>w_sources := w_sources w'\<rparr>"
    using 2(1)[OF g[symmetric] _ _ _ m, simplified] step by (simp add: discovered_def)
  then show ?case using discovered_trans[OF step] by (metis image_insert insert_is_Un list.simps(15))
qed (auto simp: discovered_refl)

lemma register_logs_spec:
  assumes "table_ok (w_sources w)" "unique_on source_key (w_sources w)" "register_logs k fs w = (n, w')"
  shows "table_ok (w_sources w')" "unique_on source_key (w_sources w')"
    "\<And>j s. get_row j (w_sources w) = Some s \<Longrightarrow> get_row j (w_sources w') = Some s"
    "\<And>j s. get_row j (w_sources w') = Some s \<Longrightarrow> get_row j (w_sources w) = None \<Longrightarrow>
       s = new_source k (ls_path s) (w_now w) \<and> ls_path s \<in> dl_path ` set fs"
    "\<And>p. p \<in> dl_path ` set fs \<Longrightarrow> \<exists>j s. get_row j (w_sources w') = Some s \<and> source_key s = (k, p)"
    "w' = w\<lparr>w_sources := w_sources w'\<rparr>"
  using register_logs_discovered[OF assms] unfolding discovered_def by blast+

lemma discover_logs_distinct: "discover_logs h s paths = Inr files \<Longrightarrow> distinct (map dl_path files)"
  using first_of_each_spec by (auto simp: discover_logs_def res_bind_Inr_iff)

lemma release_frame [simp]:
  "w_sources (release k w) = w_sources w" "w_servers (release k w) = w_servers w"
  "w_now (release k w) = w_now w" "w_audit (release k w) = w_audit w" "w_jobs (release k w) = w_jobs w"
  "w_ips (release k w) = w_ips w" "w_events (release k w) = w_events w" "w_whois (release k w) = w_whois w"
  "w_cidrs (release k w) = w_cidrs w" "w_history (release k w) = w_history w" "w_settings (release k w) = w_settings w"
  "w_users (release k w) = w_users w" "w_context (release k w) = w_context w"
  for w :: world
  by (simp_all add: release_def)

section \<open>Properties\<close>

text \<open>C40: The command line built from an argument vector is split by the shell into exactly these
  arguments, whatever characters they contain: no argument can start another word or command.\<close>

theorem command_line_is_argv: "sh_words Plain None (command_line argv) = Some argv"
  using sh_command by (cases "argv = []") (simp_all add: command_line_def)

text \<open>What one read returns: the first one only marks the end of the file, a changed inode starts at
  the beginning, otherwise reading resumes at the known offset (or at the end of a file that shrank),
  and the data is the file from there to the size the host reported.\<close>

lemma poll_log_window:
  assumes "poll_log h s path known_inode known_offset = Inr (Some ch)"
  shows "case known_inode of
      None \<Rightarrow> lc_offset ch = lc_size ch \<and> lc_data ch = [] \<and> \<not> lc_rotated ch
    | Some k \<Rightarrow> lc_rotated ch = (lc_inode ch \<noteq> k) \<and>
        lc_offset ch = (if lc_inode ch \<noteq> k then 0
          else min (case known_offset of Some n \<Rightarrow> n | None \<Rightarrow> 0) (lc_size ch)) \<and>
        lc_data ch = read_range (rh_content h path) (lc_offset ch) (lc_size ch - lc_offset ch)"
proof -
  obtain stat where ch: "ch = chunk_of known_inode known_offset (rh_content h path) stat"
    using assms by (auto simp: poll_log_def res_bind_Inr_iff split: option.splits)
  have r: "\<not> size > off \<Longrightarrow> read_range x off (size - off) = []" for x off size by (simp add: read_range_def)
  show ?thesis using r
    unfolding ch by (cases stat; cases known_inode) (simp_all add: chunk_of_def Let_def del: min_def)
qed

definition example_host :: host where
  "example_host =
     \<lparr>rh_parse_key = (\<lambda>c _. if c = 1 then None else Some ''not this class''),
      rh_connect = (\<lambda>_. None),
      rh_exec = (\<lambda>line. if line = ''uname -s'' then (0, ''Linux'' @ [CHR 0x0A], [])
                        else if line = ''stat -c '' @ [CHR 0x27] @ ''%i %s %Y'' @ [CHR 0x27] @ '' /var/log/nginx/access.log''
                        then (0, ''77 12 1700000000'' @ [CHR 0x0A], [])
                        else (1, [], [])),
      rh_listdir = (\<lambda>d. if d = ''/var/log/nginx/'' then Some
          [\<lparr>de_filename = ''access.log'', de_is_dir = False, de_size = Some 12, de_mtime = Some 1700000000\<rparr>,
           \<lparr>de_filename = ''old'', de_is_dir = True, de_size = None, de_mtime = None\<rparr>]
        else None),
      rh_content = (\<lambda>_. ''0123456789ab'')\<rparr>"

definition example_server :: server where
  "example_server =
     \<lparr>sv_name = ''web-1'', sv_hostname = ''web-1.example.ir'', sv_ip_address = None, sv_ssh_port = 22,
      sv_ssh_username = ''monitor'', sv_ssh_auth_type = SSH_KEY, sv_ssh_private_key = ''key'',
      sv_log_search_paths = [''/srv/logs''], sv_enabled = True, sv_last_connected_at = None,
      sv_last_error = [], sv_created_at = 0, sv_updated_at = 0\<rparr>"

theorem poll_log_window_witness:
  "\<exists>ch. poll_log example_host example_server ''/var/log/nginx/access.log'' (Some 77) (Some 10) = Inr (Some ch) \<and>
     lc_offset ch = 10 \<and> lc_data ch = ''ab''"
proof -
  have p: "poll_log example_host example_server ''/var/log/nginx/access.log'' (Some 77) (Some 10) =
      Inr (Some \<lparr>lc_inode = 77, lc_size = 12, lc_mtime = 1700000000, lc_offset = 10, lc_data = ''ab'', lc_rotated = False\<rparr>)"
    by code_simp
  from poll_log_window[OF p] show ?thesis using p by simp
qed

text \<open>A discovery run registers every log file it found exactly once for its server, leaves every
  known source as it was, and the sources it adds are disabled.\<close>

lemma discovery_registers_each_once:
  assumes ok: "table_ok (w_sources w)" "unique_on source_key (w_sources w)"
    and srv: "get_row k (w_servers w) = Some server"
    and free: "\<not> live (lock_key ''ssh:discover:'' (nat_str k)) (w_now w) (w_cache w)"
    and files: "discover_logs h server (sv_log_search_paths server) = Inr files"
    and run: "discover_server_logs h k user_id w = (r, w')"
  shows "r = Inr () \<and> distinct (map dl_path files) \<and>
    table_ok (w_sources w') \<and> unique_on source_key (w_sources w') \<and>
    (\<forall>j s. get_row j (w_sources w) = Some s \<longrightarrow> get_row j (w_sources w') = Some s) \<and>
    (\<forall>f\<in>set files. \<exists>j s. get_row j (w_sources w') = Some s \<and> source_key s = (k, dl_path f)) \<and>
    (\<forall>j s. get_row j (w_sources w') = Some s \<longrightarrow> get_row j (w_sources w) = None \<longrightarrow>
       ls_server s = k \<and> \<not> ls_enabled s \<and> ls_inode s = None \<and> ls_path s \<in> dl_path ` set files)"
proof -
  let ?w1 = "release (lock_key ''ssh:discover:'' (nat_str k)) (w\<lparr>w_cache := (lock_key ''ssh:discover:'' (nat_str k),
      w_now w + seconds (st_ssh_connect_timeout (w_settings w) + 60)) # cache_delete (lock_key ''ssh:discover:'' (nat_str k)) (w_cache w)\<rparr>)"
  obtain n w2 where reg: "register_logs k files ?w1 = (n, w2)" by (cases "register_logs k files ?w1")
  have w1: "w_sources ?w1 = w_sources w" by simp
  have end_state: "r = Inr () \<and> w_sources w' = w_sources w2"
    using run srv files reg
    by (auto simp: discover_server_logs_def Let_def redis_lock_free[OF free])
  note spec = register_logs_spec[OF _ _ reg, unfolded w1, OF ok]
  have new: "ls_server s = k \<and> \<not> ls_enabled s \<and> ls_inode s = None \<and> ls_path s \<in> dl_path ` set files"
    if s: "get_row j (w_sources w2) = Some s" "get_row j (w_sources w) = None" for j s
  proof -
    from spec(4)[OF s] have e: "s = new_source k (ls_path s) (w_now ?w1)" and p: "ls_path s \<in> dl_path ` set files" by blast+
    have "ls_server s = k" "\<not> ls_enabled s" "ls_inode s = None" by (subst e, simp add: new_source_def)+
    then show ?thesis using p by simp
  qed
  show ?thesis using end_state spec(1,2,3,5) discover_logs_distinct[OF files] new by simp
qed

definition example_world :: world where
  "example_world = (empty_world default_settings 5000)\<lparr>w_servers := add_row example_server empty_table\<rparr>"

lemma discovery_registers_each_once_example:
  "\<exists>j s. get_row j (w_sources (snd (discover_server_logs example_host 1 None example_world))) = Some s \<and>
     source_key s = (1, ''/var/log/nginx/access.log'') \<and> \<not> ls_enabled s"
proof -
  let ?f = "[\<lparr>dl_path = ''/var/log/nginx/access.log'', dl_size = 12, dl_mtime = 1700000000\<rparr>]"
  have srv: "get_row 1 (w_servers example_world) = Some example_server" by code_simp
  have free: "\<not> live (lock_key ''ssh:discover:'' (nat_str 1)) (w_now example_world) (w_cache example_world)" by code_simp
  have files: "discover_logs example_host example_server (sv_log_search_paths example_server) = Inr ?f" by code_simp
  have e: "w_sources example_world = empty_table" by (simp add: example_world_def empty_world_def)
  have none: "get_row j (w_sources example_world) = None" for j by (simp add: e empty_table_def get_row_def)
  have ok: "table_ok (w_sources example_world)" "unique_on source_key (w_sources example_world)"
    using none by (simp_all add: e rows_unique_def)
  obtain r w' where run: "discover_server_logs example_host 1 None example_world = (r, w')" by fastforce
  note d = discovery_registers_each_once[OF ok srv free files run]
  then obtain j s where "get_row j (w_sources w') = Some s" "source_key s = (1, ''/var/log/nginx/access.log'')" by auto
  moreover from this have "\<not> ls_enabled s" using d none by blast
  ultimately show ?thesis using run by auto
qed

text \<open>The outcome of a connection test is what the server shows afterwards: no error and a fresh
  contact time when it succeeded, its error otherwise; the lock is free again and the log has one
  more entry saying which of the two it was.\<close>

lemma connection_test_recorded:
  assumes srv: "get_row k (w_servers w) = Some server"
    and free: "\<not> live (lock_key ''ssh:test:'' (nat_str k)) (w_now w) (w_cache w)"
    and res: "test_connection h server = Inr result"
    and run: "test_server_connection h k user_id w = (r, w')"
  shows "r = Inr () \<and> \<not> live (lock_key ''ssh:test:'' (nat_str k)) t (w_cache w') \<and>
    (\<exists>s. get_row k (w_servers w') = Some s \<and>
       (if ct_success result then sv_last_error s = [] \<and> sv_last_connected_at s = Some (w_now w)
        else sv_last_error s \<noteq> [] \<and> sv_last_connected_at s = sv_last_connected_at server) \<and>
       connection_status s = (if \<not> sv_enabled server then ''disabled'' else if ct_success result then ''ok'' else ''error'')) \<and>
    (\<exists>e. row_values (w_audit w') = row_values (w_audit w) @ [e] \<and> al_action e = ''server.test_connection'' \<and>
       al_result e = (if ct_success result then SUCCESS else FAILURE))"
proof -
  have u: "\<not> live key t (cache_delete key c)" for key t c by (rule cache.drop_free)
  have "\<exists>e. r = Inr () \<and> row_values (w_audit w') = row_values (w_audit w) @ [e] \<and>
    al_action e = ''server.test_connection'' \<and> al_result e = (if ct_success result then SUCCESS else FAILURE) \<and>
    w_cache w' = cache_delete (lock_key ''ssh:test:'' (nat_str k)) (cache_delete (lock_key ''ssh:test:'' (nat_str k)) (w_cache w))"
    using run srv res
    by (auto simp: test_server_connection_def Let_def redis_lock_free[OF free] release_def cache_delete_def)
  then obtain e where w': "r = Inr ()" "row_values (w_audit w') = row_values (w_audit w) @ [e]"
    "al_action e = ''server.test_connection''" "al_result e = (if ct_success result then SUCCESS else FAILURE)"
    "w_cache w' = cache_delete (lock_key ''ssh:test:'' (nat_str k)) (cache_delete (lock_key ''ssh:test:'' (nat_str k)) (w_cache w))"
    by blast
  have "get_row k (w_servers w') = Some (if ct_success result
      then server\<lparr>sv_last_connected_at := Some (w_now w), sv_last_error := [], sv_updated_at := w_now w\<rparr>
      else server\<lparr>sv_last_connected_at := sv_last_connected_at server,
        sv_last_error := (case ct_error result of Some e \<Rightarrow> if e \<noteq> [] then e else ''Unknown SSH error''
          | None \<Rightarrow> ''Unknown SSH error''), sv_updated_at := w_now w\<rparr>)"
    using run srv res
    by (auto simp: test_server_connection_def Let_def redis_lock_free[OF free] save_server_def get_update_row)
  then have "\<exists>s. get_row k (w_servers w') = Some s \<and>
       (if ct_success result then sv_last_error s = [] \<and> sv_last_connected_at s = Some (w_now w)
        else sv_last_error s \<noteq> [] \<and> sv_last_connected_at s = sv_last_connected_at server) \<and>
       connection_status s = (if \<not> sv_enabled server then ''disabled'' else if ct_success result then ''ok'' else ''error'')"
    by (cases "ct_success result"; cases "ct_error result") (simp_all add: connection_status_def)
  then show ?thesis using w' u by (intro conjI exI[of _ e]) simp_all
qed

lemma connection_test_recorded_example:
  "\<exists>s. get_row 1 (w_servers (snd (test_server_connection example_host 1 None example_world))) = Some s \<and>
     connection_status s = ''ok''"
proof -
  let ?r = "\<lparr>ct_success = True, ct_os_name = Some ''Linux'', ct_nginx_found = False, ct_nginx_version = None, ct_error = None\<rparr>"
  have srv: "get_row 1 (w_servers example_world) = Some example_server" by code_simp
  have free: "\<not> live (lock_key ''ssh:test:'' (nat_str 1)) (w_now example_world) (w_cache example_world)" by code_simp
  have res: "test_connection example_host example_server = Inr ?r" by code_simp
  obtain r w' where run: "test_server_connection example_host 1 None example_world = (r, w')" by fastforce
  have "sv_enabled example_server" by (simp add: example_server_def)
  with connection_test_recorded[OF srv free res run] run show ?thesis by auto
qed

end
