(* ===== verification/Ip_Service.thy ===== *)
theory Ip_Service
  imports World Py_Ipaddress
begin

text \<open>
  \<open>apps/ips/services.py\<close> and \<open>process_new_ip\<close> of \<open>apps/ips/tasks.py\<close>: normalising addresses, the
  freshness rule, recording a batch of sightings, and the fan-out of a new address to the three
  enrichment jobs. Addresses read back from the database have the text they were written with.
\<close>

section \<open>Normal form and freshness\<close>

definition normalize_ip :: "string \<Rightarrow> string res" where
  "normalize_ip raw = (case ip_address (py_strip raw) of None \<Rightarrow> Inl ValueError | Some a \<Rightarrow> Inr (ip_str a))"

definition version_of :: "string \<Rightarrow> nat res" where
  "version_of address = (case ip_address address of None \<Rightarrow> Inl ValueError | Some a \<Rightarrow> Inr (ip_version a))"

definition needs_whois_check :: "ip_row \<Rightarrow> time \<Rightarrow> bool" where
  "needs_whois_check ip now =
     (case ia_whois_next_check_at ip of None \<Rightarrow> True | Some t \<Rightarrow> t \<le> now)"

definition whois_pending :: "world \<Rightarrow> (pk \<times> ip_row) list" where
  "whois_pending w =
     select_rows (\<lambda>_ r. ia_whois_next_check_at r = None \<or>
       (case ia_whois_next_check_at r of None \<Rightarrow> False | Some t \<Rightarrow> t \<le> w_now w)) (w_ips w)"

section \<open>Recording sightings\<close>

text \<open>A dictionary in insertion order: assignment keeps the position of a key it already has.\<close>

definition dict_set :: "'k \<Rightarrow> 'v \<Rightarrow> ('k \<times> 'v) list \<Rightarrow> ('k \<times> 'v) list" where
  "dict_set k v d =
     (if k \<in> fst ` set d then map (\<lambda>(j, u). (j, if j = k then v else u)) d else d @ [(k, v)])"

fun latest_seen_at :: "(string \<times> time) list \<Rightarrow> (string \<times> time) list \<Rightarrow> ((string \<times> time) list) res" where
  "latest_seen_at d [] = Inr d"
| "latest_seen_at d ((raw_address, seen_at) # rest) =
     res_bind (normalize_ip raw_address) (\<lambda>address.
       latest_seen_at
         (case map_of d address of
            None \<Rightarrow> dict_set address seen_at d
          | Some t \<Rightarrow> if seen_at > t then dict_set address seen_at d else d) rest)"

type_synonym ip_dict = "(string \<times> pk \<times> ip_row) list"

definition existing_ips :: "string list \<Rightarrow> world \<Rightarrow> ip_dict" where
  "existing_ips addresses w =
     map (\<lambda>(k, r). (ia_address r, k, r)) (select_rows (\<lambda>_ r. ia_address r \<in> set addresses) (w_ips w))"

fun new_ip_rows :: "(string \<times> time) list \<Rightarrow> time \<Rightarrow> (ip_row list) res" where
  "new_ip_rows [] now = Inr []"
| "new_ip_rows ((address, seen_at) # rest) now =
     res_bind (version_of address) (\<lambda>v.
       res_bind (new_ip_rows rest now) (\<lambda>rows. Inr (blank_ip address v seen_at now # rows)))"

text \<open>\<open>bulk_create(..., ignore_conflicts=True)\<close>: a row whose address is taken is dropped.\<close>

fun create_ips :: "ip_row list \<Rightarrow> ip_row table \<Rightarrow> ip_row table" where
  "create_ips [] t = t"
| "create_ips (r # rs) t =
     create_ips rs (if ia_address r \<in> ia_address ` set (row_values t) then t else add_row r t)"

fun bump_last_seen :: "(string \<times> time) list \<Rightarrow> ip_dict \<Rightarrow> ip_dict eff" where
  "bump_last_seen [] existing w = (Inr existing, w)"
| "bump_last_seen ((address, seen_at) # rest) existing w =
     (case map_of existing address of
        None \<Rightarrow> (Inl KeyError, w)
      | Some (k, ip_obj) \<Rightarrow>
          if seen_at > ia_last_seen_at ip_obj then
            bump_last_seen rest (dict_set address (k, ip_obj\<lparr>ia_last_seen_at := seen_at\<rparr>) existing)
              (w\<lparr>w_ips := update_rows (\<lambda>j r. j = k \<and> ia_last_seen_at r < seen_at)
                 (\<lambda>r. r\<lparr>ia_last_seen_at := seen_at, ia_updated_at := w_now w\<rparr>) (w_ips w)\<rparr>)
          else bump_last_seen rest existing w)"

definition record_sightings_bulk :: "(string \<times> time) list \<Rightarrow> ip_dict eff" where
  "record_sightings_bulk sightings w =
     (if sightings = [] then (Inr [], w)
      else
        (case latest_seen_at [] sightings of
           Inl e \<Rightarrow> (Inl e, w)
         | Inr latest \<Rightarrow>
             (let addresses = map fst latest;
                  existing = existing_ips addresses w;
                  to_create = filter (\<lambda>(a, _). a \<notin> fst ` set existing) latest
              in (case new_ip_rows to_create (w_now w) of
                    Inl e \<Rightarrow> (Inl e, w)
                  | Inr rows \<Rightarrow>
                      (let w1 = w\<lparr>w_ips := create_ips rows (w_ips w)\<rparr>;
                           existing1 = (if rows \<noteq> [] then existing_ips addresses w1 else existing)
                       in (case bump_last_seen latest existing1 w1 of
                             (Inl e, w2) \<Rightarrow> (Inl e, w2)
                           | (Inr existing2, w2) \<Rightarrow>
                               (Inr existing2,
                                delays (concat (map (\<lambda>(a, _). case map_of existing2 a of
                                    None \<Rightarrow> [] | Some (k, _) \<Rightarrow> [Process_new_ip k]) to_create)) w2)))))))"

definition record_sighting :: "string \<Rightarrow> time \<Rightarrow> (pk \<times> ip_row) eff" where
  "record_sighting raw_address seen_at w =
     (case record_sightings_bulk [(raw_address, seen_at)] w of
        (Inl e, w') \<Rightarrow> (Inl e, w')
      | (Inr d, w') \<Rightarrow>
          (case normalize_ip raw_address of
             Inl e \<Rightarrow> (Inl e, w')
           | Inr a \<Rightarrow> (case map_of d a of None \<Rightarrow> (Inl KeyError, w') | Some x \<Rightarrow> (Inr x, w'))))"

section \<open>A new address\<close>

definition process_new_ip :: "pk \<Rightarrow> unit eff" where
  "process_new_ip ip_id w =
     (case get_row ip_id (w_ips w) of
        None \<Rightarrow> (Inr (), w)
      | Some ip \<Rightarrow>
          skip_if_held (redis_lock (lock_key ''ip:process:'' (ia_address ip)) (seconds 300) (\<lambda>w.
            (Inr (),
             (let w1 = (if needs_whois_check ip (w_now w) then delay (Perform_whois_lookup ip_id False) w else w)
              in delay (Enrich_ip ip_id) (delay (Classify_ip ip_id) w1))))) w)"

section \<open>Normal forms: lemmas\<close>

lemma ws_not_hex: "py_ws c \<Longrightarrow> \<not> hex_digit c \<and> c \<noteq> CHR '':'' \<and> \<not> ascii_digit c \<and> c \<noteq> CHR ''.''"
  by (auto simp: py_ws_def hex_digit_def ascii_digit_def cp_def Let_def)

lemma ipv6_str_no_ws: "py_ws c \<Longrightarrow> c \<notin> set (ipv6_str n)"
  using ipv6_str_chars[of c n] ws_not_hex[of c] by blast

lemma ipv4_str_no_ws: "py_ws c \<Longrightarrow> c \<notin> set (ipv4_str n)"
  using ipv4_str_set[of c n] ws_not_hex[of c] by auto

lemma split_scope_last:
  assumes "split_scope_id s = Some (a, Some sc)"
  shows "sc \<noteq> []" "last sc = last s"
proof -
  show ne: "sc \<noteq> []" using assms by (auto simp: split_scope_id_def py_partition_def split: if_splits)
  obtain d where "dropWhile (\<lambda>x. x \<noteq> CHR ''%'') s = d" "sc = tl d"
    using assms by (auto simp: split_scope_id_def py_partition_def split: if_splits)
  then have "s = takeWhile (\<lambda>x. x \<noteq> CHR ''%'') s @ d" "last d = last sc" "d \<noteq> []"
    using ne by (auto simp: last_tl)
  then show "last sc = last s" by (metis last_appendR)
qed

lemma ip_str_strip:
  assumes "ip_address s = Some a" "py_strip s = s"
  shows "py_strip (ip_str a) = ip_str a"
proof (cases a)
  case (V4 n)
  then show ?thesis using ipv4_str_no_ws by (intro py_strip_no_ws) (auto simp: list_all_iff)
next
  case (V6 n scope)
  show ?thesis
  proof (cases scope)
    case None
    then show ?thesis using V6 ipv6_str_no_ws by (intro py_strip_no_ws) (auto simp: list_all_iff)
  next
    case (Some sc)
    have "ipv6_address s = Some (V6 n (Some sc))"
      using assms(1) V6 Some by (auto simp: ip_address_def split: option.splits)
    then obtain x where x: "split_scope_id s = Some (x, Some sc)"
      by (auto simp: ipv6_address_def split: if_splits option.splits)
    note sc = split_scope_last[OF x]
    have "s \<noteq> []" using x by (auto simp: split_scope_id_def py_partition_def)
    then have "\<not> py_ws (last sc)" using py_strip_ends(2)[of s] assms(2) sc by simp
    moreover have "ipv6_str n \<noteq> []" using ipv6_str_set(1)[of n] by auto
    moreover have "\<not> py_ws (hd (ipv6_str n))" using ipv6_str_no_ws calculation(2) hd_in_set by blast
    ultimately show ?thesis using V6 Some sc by (intro py_strip_id) simp
  qed
qed

lemma normalize_InrD:
  assumes "normalize_ip raw = Inr s"
  obtains a where "ip_address (py_strip raw) = Some a" "s = ip_str a" "ip_valid a" "ip_address s = Some a"
  using assms that by (auto simp: normalize_ip_def ip_address_str ip_address_valid split: option.splits)

lemma normalize_fixed: "normalize_ip raw = Inr s \<Longrightarrow> normalize_ip s = Inr s"
proof -
  assume n: "normalize_ip raw = Inr s"
  then obtain a where a: "ip_address (py_strip raw) = Some a" "s = ip_str a" "ip_address s = Some a"
    by (rule normalize_InrD)
  have "py_strip s = s" using ip_str_strip[OF a(1)] a(2) by simp
  then show ?thesis using a by (simp add: normalize_ip_def)
qed

section \<open>Sightings: lemmas\<close>

lemma map_of_dict_set: "map_of (dict_set k v d) j = (if j = k then Some v else map_of d j)"
proof -
  have "map_of (map (\<lambda>(i, u). (i, if i = k then v else u)) d) j =
      (if j = k then map_option (\<lambda>_. v) (map_of d k) else map_of d j)" for d
    by (induction d) auto
  then show ?thesis
    by (auto simp: dict_set_def map_add_def domIff dom_map_of_conv_image_fst[symmetric] split: option.splits)
qed

lemma keys_dict_set: "set (map fst (dict_set k v d)) = insert k (set (map fst d))"
  by (auto simp: dict_set_def image_iff split: prod.splits) force+

lemma distinct_dict_set: "distinct (map fst d) \<Longrightarrow> distinct (map fst (dict_set k v d))"
  by (auto simp: dict_set_def comp_def case_prod_beta')


lemma latest_seen_at_spec:
  assumes "latest_seen_at d xs = Inr l" "distinct (map fst d)"
  shows "distinct (map fst l)"
    and "\<And>a t. map_of d a = Some t \<Longrightarrow> \<exists>u\<ge>t. map_of l a = Some u"
    and "\<And>raw t. (raw, t) \<in> set xs \<Longrightarrow> \<exists>a u. normalize_ip raw = Inr a \<and> map_of l a = Some u \<and> t \<le> u"
    and "\<And>a u. map_of l a = Some u \<Longrightarrow> map_of d a = Some u \<or> (\<exists>raw. (raw, u) \<in> set xs \<and> normalize_ip raw = Inr a)"
proof -
  have "distinct (map fst l) \<and> (\<forall>a t. map_of d a = Some t \<longrightarrow> (\<exists>u\<ge>t. map_of l a = Some u)) \<and>
    (\<forall>(raw, t)\<in>set xs. \<exists>a u. normalize_ip raw = Inr a \<and> map_of l a = Some u \<and> t \<le> u) \<and>
    (\<forall>a u. map_of l a = Some u \<longrightarrow> map_of d a = Some u \<or> (\<exists>raw. (raw, u) \<in> set xs \<and> normalize_ip raw = Inr a))"
    using assms
  proof (induction d xs rule: latest_seen_at.induct)
    case (2 d raw t rest)
    then obtain a where a: "normalize_ip raw = Inr a" by (auto simp: res_bind_Inr_iff)
    let ?d = "case map_of d a of None \<Rightarrow> dict_set a t d | Some t' \<Rightarrow> if t' < t then dict_set a t d else d"
    have l: "latest_seen_at ?d rest = Inr l" using 2(2) a by simp
    have dd: "distinct (map fst ?d)" using 2(3) distinct_dict_set by (auto split: option.splits)
    have m: "map_of ?d b = (if b = a then Some (case map_of d a of None \<Rightarrow> t | Some u \<Rightarrow> max t u) else map_of d b)" for b
      by (auto simp: map_of_dict_set split: option.splits)
    note IH = 2(1)[OF l dd]
    have IH1: "distinct (map fst l)" and IH2: "map_of ?d b = Some u \<Longrightarrow> \<exists>v\<ge>u. map_of l b = Some v"
      and IH3: "(raw', t') \<in> set rest \<Longrightarrow> \<exists>a u. normalize_ip raw' = Inr a \<and> map_of l a = Some u \<and> t' \<le> u"
      and IH4: "map_of l b = Some u \<Longrightarrow> map_of ?d b = Some u \<or> (\<exists>raw. (raw, u) \<in> set rest \<and> normalize_ip raw = Inr b)"
      for b u raw' t' using IH by blast+
    have A: "\<exists>v\<ge>u. map_of l b = Some v" if db: "map_of d b = Some u" for b u
    proof (cases "b = a")
      case True
      then obtain v where "v \<ge> max t u" "map_of l b = Some v"
        using IH2[of a "max t u"] db m[of a] unfolding True by auto
      then show ?thesis by auto
    next
      case False
      then show ?thesis using IH2[of b u] db m[of b] by simp
    qed
    have B: "\<exists>u. map_of l a = Some u \<and> t \<le> u"
    proof -
      obtain v where "v \<ge> (case map_of d a of None \<Rightarrow> t | Some u \<Rightarrow> max t u)" "map_of l a = Some v"
        using IH2[of a] m[of a] by auto
      then show ?thesis by (auto split: option.splits)
    qed
    have C: "map_of d b = Some u \<or> (\<exists>raw'. (raw', u) \<in> set ((raw, t) # rest) \<and> normalize_ip raw' = Inr b)"
      if "map_of l b = Some u" for b u
      using IH4[OF that] m[of b] a by (auto split: if_splits option.splits simp: max_def)
    show ?case using IH1 A B C IH3 a by (auto; blast)
  qed auto
  then show "distinct (map fst l)"
    and "\<And>a t. map_of d a = Some t \<Longrightarrow> \<exists>u\<ge>t. map_of l a = Some u"
    and "\<And>raw t. (raw, t) \<in> set xs \<Longrightarrow> \<exists>a u. normalize_ip raw = Inr a \<and> map_of l a = Some u \<and> t \<le> u"
    and "\<And>a u. map_of l a = Some u \<Longrightarrow> map_of d a = Some u \<or> (\<exists>raw. (raw, u) \<in> set xs \<and> normalize_ip raw = Inr a)"
    by blast+
qed

lemma existing_lookup:
  assumes "table_ok (w_ips w)" "unique_on ia_address (w_ips w)"
  shows "map_of (existing_ips addresses w) a = Some (k, r) \<longleftrightarrow>
    a \<in> set addresses \<and> get_row k (w_ips w) = Some r \<and> ia_address r = a"
proof -
  have mem: "(a, k, r) \<in> set (existing_ips addresses w) \<longleftrightarrow>
      a \<in> set addresses \<and> get_row k (w_ips w) = Some r \<and> ia_address r = a" for a k r
    using select_rows_set[OF assms(1), of _ _ "\<lambda>_ r. ia_address r \<in> set addresses"]
    by (auto simp: existing_ips_def image_iff Bex_def) blast?
  have "distinct (map fst (existing_ips addresses w))"
  proof -
    have "distinct (map ia_address (map snd (tb_rows (w_ips w))))"
      using assms(2)[unfolded unique_on_list[OF assms(1)]] by (simp add: row_values_def)
    then have "distinct (map ia_address (map snd (filter P (tb_rows (w_ips w)))))" for P
      by (simp add: distinct_map_filter comp_def)
    then show ?thesis by (simp add: existing_ips_def select_rows_def comp_def case_prod_beta')
  qed
  then show ?thesis using mem by (simp add: map_of_eq_Some_iff)
qed

definition bumped :: "(string \<times> time) list \<Rightarrow> time \<Rightarrow> ip_row \<Rightarrow> ip_row" where
  "bumped l now r = (case map_of l (ia_address r) of
     Some t \<Rightarrow> if ia_last_seen_at r < t then r\<lparr>ia_last_seen_at := t, ia_updated_at := now\<rparr> else r
   | None \<Rightarrow> r)"

lemma bumped_simps [simp]:
  "ia_address (bumped l now r) = ia_address r"
  "ia_last_seen_at (bumped l now r) =
     (case map_of l (ia_address r) of Some t \<Rightarrow> max (ia_last_seen_at r) t | None \<Rightarrow> ia_last_seen_at r)"
  "bumped [] now r = r"
  by (auto simp: bumped_def split: option.splits)

lemma bump_last_seen_spec:
  assumes "table_ok (w_ips w)" "unique_on ia_address (w_ips w)" "distinct (map fst l)"
    and "\<And>a. a \<in> fst ` set l \<Longrightarrow>
      \<exists>k r. map_of ex a = Some (k, r) \<and> get_row k (w_ips w) = Some r \<and> ia_address r = a"
  shows "\<exists>ex' t'. bump_last_seen l ex w = (Inr ex', w\<lparr>w_ips := t'\<rparr>) \<and> table_ok t' \<and>
     tb_seq t' = tb_seq (w_ips w) \<and>
     (\<forall>k. get_row k t' = map_option (bumped l (w_now w)) (get_row k (w_ips w))) \<and>
     (\<forall>a. map_option fst (map_of ex' a) = map_option fst (map_of ex a))"
  using assms
proof (induction l ex w rule: bump_last_seen.induct)
  case (1 ex w)
  then show ?case by (intro exI[of _ ex] exI[of _ "w_ips w"]) (simp add: option.map_ident)
next
  case (2 a t rest ex w)
  obtain k r where kr: "map_of ex a = Some (k, r)" "get_row k (w_ips w) = Some r" "ia_address r = a"
    using "2.prems"(4)[of a] by auto
  have fresh: "a \<notin> fst ` set rest" "distinct (map fst rest)" using "2.prems"(3) by auto
  have only: "j = k" if "get_row j (w_ips w) = Some s" "ia_address s = a" for j s
    using unique_onD[OF "2.prems"(2) that(1) kr(2)] that(2) kr(3) by simp
  have none: "map_of rest a = None" using fresh by (simp add: map_of_eq_None_iff)
  show ?case
  proof (cases "ia_last_seen_at r < t")
    case False
    have IH: "\<exists>ex' t'. bump_last_seen rest ex w = (Inr ex', w\<lparr>w_ips := t'\<rparr>) \<and> table_ok t' \<and>
     tb_seq t' = tb_seq (w_ips w) \<and>
     (\<forall>k. get_row k t' = map_option (bumped rest (w_now w)) (get_row k (w_ips w))) \<and>
     (\<forall>a. map_option fst (map_of ex' a) = map_option fst (map_of ex a))"
      by (rule "2.IH"(2)[OF kr(1) refl False]) (use 2 fresh in auto)
    have "bumped rest now s = bumped ((a, t) # rest) now s" if "get_row j (w_ips w) = Some s" for j s now
      using only[OF that] that kr False none by (cases "ia_address s = a") (auto simp: bumped_def)
    then have "map_option (bumped rest now) (get_row j (w_ips w)) = map_option (bumped ((a, t) # rest) now) (get_row j (w_ips w))" for j now
      by (cases "get_row j (w_ips w)") auto
    then show ?thesis using IH kr False by simp
  next
    case True
    let ?ex = "dict_set a (k, r\<lparr>ia_last_seen_at := t\<rparr>) ex"
    let ?f = "\<lambda>r. r\<lparr>ia_last_seen_at := t, ia_updated_at := w_now w\<rparr>"
    let ?T = "update_rows (\<lambda>j s. j = k \<and> ia_last_seen_at s < t) ?f (w_ips w)"
    have g: "get_row j ?T = (if j = k then Some (?f r) else get_row j (w_ips w))" for j
      using kr True by (cases "get_row j (w_ips w)") (auto simp: get_update_rows)
    have u: "unique_on ia_address ?T"
      by (rule tbl.unique_upd) (use "2.prems" in auto)
    have e: "\<exists>j s. map_of ?ex b = Some (j, s) \<and> get_row j ?T = Some s \<and> ia_address s = b" if b: "b \<in> fst ` set rest" for b
    proof -
      have ba: "b \<noteq> a" using b fresh by auto
      obtain j s where js: "map_of ex b = Some (j, s)" "get_row j (w_ips w) = Some s" "ia_address s = b"
        using "2.prems"(4)[of b] b by auto
      then have "j \<noteq> k" using kr ba by auto
      then show ?thesis using js ba g by (simp add: map_of_dict_set)
    qed
    have IH: "\<exists>ex' t'. bump_last_seen rest ?ex (w\<lparr>w_ips := ?T\<rparr>) = (Inr ex', w\<lparr>w_ips := ?T, w_ips := t'\<rparr>) \<and> table_ok t' \<and>
     tb_seq t' = tb_seq ?T \<and>
     (\<forall>k. get_row k t' = map_option (bumped rest (w_now w)) (get_row k ?T)) \<and>
     (\<forall>a. map_option fst (map_of ex' a) = map_option fst (map_of ?ex a))"
      using "2.IH"(1)[OF kr(1) refl True] e u fresh "2.prems"(1) by simp
    have m: "map_option (bumped rest (w_now w)) (get_row j ?T) =
        map_option (bumped ((a, t) # rest) (w_now w)) (get_row j (w_ips w))" for j
    proof (cases "j = k")
      case True
      then show ?thesis using kr \<open>ia_last_seen_at r < t\<close> none g[of k] by (simp add: bumped_def)
    next
      case False
      have "bumped rest now s = bumped ((a, t) # rest) now s" if "get_row j (w_ips w) = Some s" for s now
        using only[OF that] False by (auto simp: bumped_def)
      then show ?thesis using False g by (cases "get_row j (w_ips w)") auto
    qed
    have "map_option fst (map_of ?ex b) = map_option fst (map_of ex b)" for b
      using kr by (simp add: map_of_dict_set)
    then show ?thesis using IH m kr True by simp
  qed
qed

definition fresh_rows :: "(string \<times> time) list \<Rightarrow> time \<Rightarrow> ip_row list" where
  "fresh_rows l now = map (\<lambda>(a, t). blank_ip a (ip_version (the (ip_address a))) t now) l"

lemma new_ip_rows_fresh:
  "(\<And>a. a \<in> fst ` set l \<Longrightarrow> ip_address a \<noteq> None) \<Longrightarrow> new_ip_rows l now = Inr (fresh_rows l now)"
proof (induction l now rule: new_ip_rows.induct)
  case (2 a t rest now)
  obtain v where "ip_address a = Some v" using "2.prems"[of a] by auto
  then show ?case using 2 by (simp add: fresh_rows_def version_of_def)
qed (simp add: fresh_rows_def)

lemma address_blank [simp]: "ia_address (blank_ip a v t now) = a" "ia_last_seen_at (blank_ip a v t now) = t"
  "ia_first_seen_at (blank_ip a v t now) = t"
  by (simp_all add: blank_ip_def)

lemma fresh_rows_addresses [simp]: "map ia_address (fresh_rows l now) = map fst l"
  by (simp add: fresh_rows_def comp_def case_prod_beta')

lemma create_ips_fresh:
  "distinct (map ia_address rows) \<Longrightarrow> set (map ia_address rows) \<inter> ia_address ` set (row_values t) = {} \<Longrightarrow>
   create_ips rows t = add_rows rows t"
proof (induction rows t rule: create_ips.induct)
  case (2 r rs t)
  then have new: "ia_address r \<notin> ia_address ` set (row_values t)" by auto
  have "create_ips rs (add_row r t) = add_rows rs (add_row r t)"
    using "2.IH" "2.prems" unfolding if_not_P[OF new] by auto
  then show ?case using new by (simp add: add_rows_Cons)
qed (simp add: add_rows_def)

lemma existing_keys: "fst ` set (existing_ips addresses w) = set addresses \<inter> ia_address ` set (row_values (w_ips w))"
  by (force simp: existing_ips_def select_rows_def row_values_def image_iff)

lemma keys_filter: "fst ` set (filter (\<lambda>(a, _). a \<notin> S) l) = fst ` set l - S"
  by (induction l) auto

text \<open>The addresses of a batch that are not there yet, and the table with a row for each of them.\<close>

definition arrivals :: "(string \<times> time) list \<Rightarrow> world \<Rightarrow> (string \<times> time) list" where
  "arrivals l w = filter (\<lambda>(a, _). a \<notin> ia_address ` set (row_values (w_ips w))) l"

definition grown :: "(string \<times> time) list \<Rightarrow> world \<Rightarrow> ip_row table" where
  "grown l w = add_rows (fresh_rows (arrivals l w) (w_now w)) (w_ips w)"

lemma arrivals_keys: "fst ` set (arrivals l w) = fst ` set l - ia_address ` set (row_values (w_ips w))"
  unfolding arrivals_def by (rule keys_filter)

lemma arrivals_distinct: "distinct (map fst l) \<Longrightarrow> distinct (map fst (arrivals l w))"
  unfolding arrivals_def by (rule distinct_map_filter)

lemma arrivals_missing: "filter (\<lambda>(a, _). a \<notin> fst ` set (existing_ips (map fst l) w)) l = arrivals l w"
  unfolding arrivals_def existing_keys by (rule filter_cong) (auto simp: image_iff)

lemma fresh_address_set: "ia_address ` set (fresh_rows xs now) = fst ` set xs"
proof -
  have "map ia_address (fresh_rows xs now) = map fst xs" by simp
  then show ?thesis by (metis set_map)
qed

lemma grown_ok:
  assumes t: "table_ok (w_ips w)" and u: "unique_on ia_address (w_ips w)" and d: "distinct (map fst l)"
  shows "table_ok (grown l w)" "unique_on ia_address (grown l w)"
proof -
  show ok: "table_ok (grown l w)" by (simp add: grown_def t)
  have "distinct (map ia_address (row_values (w_ips w)))" using u unique_on_list[OF t] by blast
  then have "distinct (map ia_address (row_values (grown l w)))"
    using arrivals_distinct[OF d] arrivals_keys[of l w] by (auto simp: grown_def)
  then show "unique_on ia_address (grown l w)" using unique_on_list[OF ok] by blast
qed

lemma grown_has:
  assumes t: "table_ok (w_ips w)" and a: "a \<in> fst ` set l"
  shows "\<exists>k r. get_row k (grown l w) = Some r \<and> ia_address r = a"
proof -
  have ok: "table_ok (grown l w)" by (simp add: grown_def t)
  have "a \<in> ia_address ` set (row_values (grown l w))"
    using a by (simp add: grown_def image_Un fresh_address_set arrivals_keys)
  then show ?thesis using get_row_Some[OF ok] by (fastforce simp: row_values_def)
qed

lemma grown_new_iff:
  assumes t: "table_ok (w_ips w)"
  shows "has_row (grown l w) k \<and> \<not> has_row (w_ips w) k
    \<longleftrightarrow> (\<exists>r. get_row k (grown l w) = Some r \<and> ia_address r \<in> fst ` set (arrivals l w))"
proof
  assume "has_row (grown l w) k \<and> \<not> has_row (w_ips w) k"
  then obtain r where r: "get_row k (grown l w) = Some r" "get_row k (w_ips w) = None" by (auto simp: has_row_def)
  then have "r \<in> set (fresh_rows (arrivals l w) (w_now w))" using get_add_rows_new[OF t] by (auto simp: grown_def)
  then show "\<exists>r. get_row k (grown l w) = Some r \<and> ia_address r \<in> fst ` set (arrivals l w)"
    using r(1) fresh_address_set by blast
next
  assume "\<exists>r. get_row k (grown l w) = Some r \<and> ia_address r \<in> fst ` set (arrivals l w)"
  then obtain r where r: "get_row k (grown l w) = Some r" "ia_address r \<in> fst ` set (arrivals l w)" by blast
  have "get_row k (w_ips w) = None"
  proof (rule ccontr)
    assume "get_row k (w_ips w) \<noteq> None"
    then obtain s where s: "get_row k (w_ips w) = Some s" by auto
    then have "get_row k (grown l w) = Some s"
      using get_add_rows_old[OF t get_row_seq[OF t s]] by (simp add: grown_def)
    moreover have "s \<in> set (row_values (w_ips w))" using get_row_SomeD[OF s] by (force simp: row_values_def)
    ultimately show False using r arrivals_keys[of l w] by auto
  qed
  then show "has_row (grown l w) k \<and> \<not> has_row (w_ips w) k" using r by (simp add: has_row_def)
qed

text \<open>The jobs sent for the new addresses of a batch whose every address has a row.\<close>

lemma sent_jobs:
  assumes t: "table_ok t" and u: "unique_on ia_address t" and d: "distinct (map fst new)"
    and found: "\<forall>a\<in>fst ` set new. \<exists>k r r'. map_of ex a = Some (k, r') \<and> get_row k t = Some r \<and> ia_address r = a"
  shows "\<exists>ks. concat (map (\<lambda>(a, _). case map_of ex a of None \<Rightarrow> [] | Some (k, _) \<Rightarrow> [Process_new_ip k]) new) = map Process_new_ip ks
    \<and> distinct ks \<and> set ks = {k. \<exists>r. get_row k t = Some r \<and> ia_address r \<in> fst ` set new}"
  using d found
proof (induction new)
  case (Cons z zs)
  obtain a s where z: "z = (a, s)" by (cases z)
  obtain ks where ks: "concat (map (\<lambda>(a, _). case map_of ex a of None \<Rightarrow> [] | Some (k, _) \<Rightarrow> [Process_new_ip k]) zs) = map Process_new_ip ks"
      "distinct ks" "set ks = {k. \<exists>r. get_row k t = Some r \<and> ia_address r \<in> fst ` set zs}"
    using Cons by auto
  obtain k r r' where k: "map_of ex a = Some (k, r')" "get_row k t = Some r" "ia_address r = a" using Cons.prems z by auto
  have one: "j = k" if "get_row j t = Some q" "ia_address q = a" for j q
    using unique_onD[OF u that(1) k(2)] that(2) k(3) by simp
  have "k \<notin> set ks" using ks(3) k(2,3) Cons.prems(1) z by auto
  moreover have "set (k # ks) = {j. \<exists>q. get_row j t = Some q \<and> ia_address q \<in> fst ` set (z # zs)}"
  proof -
    have "{j. \<exists>q. get_row j t = Some q \<and> ia_address q = a} = {k}" using k(2,3) one by blast
    then have "set (k # ks) = {j. \<exists>q. get_row j t = Some q \<and> ia_address q = a} \<union> set ks" by simp
    also have "\<dots> = {j. \<exists>q. get_row j t = Some q \<and> ia_address q \<in> fst ` set (z # zs)}"
      unfolding ks(3) z list.simps(15) image_insert fst_conv by blast
    finally show ?thesis .
  qed
  ultimately show ?case using ks(1,2) k(1) z by (intro exI[of _ "k # ks"]) simp
qed simp

lemma bulk_result:
  assumes t: "table_ok (w_ips w)" and u: "unique_on ia_address (w_ips w)"
    and xs: "xs \<noteq> []" and l: "latest_seen_at [] xs = Inr l"
  shows "\<exists>ex t2 ks.
    record_sightings_bulk xs w = (Inr ex, delays (map Process_new_ip ks) (w\<lparr>w_ips := t2\<rparr>)) \<and>
    table_ok (grown l w) \<and> unique_on ia_address (grown l w) \<and> table_ok t2 \<and>
    (\<forall>k. get_row k t2 = map_option (bumped l (w_now w)) (get_row k (grown l w))) \<and>
    distinct ks \<and> set ks = {k. has_row (grown l w) k \<and> \<not> has_row (w_ips w) k} \<and>
    (\<forall>a\<in>fst ` set l. \<exists>k r r'. map_of ex a = Some (k, r') \<and> get_row k (grown l w) = Some r \<and> ia_address r = a)"
proof -
  let ?new = "arrivals l w" and ?t1 = "grown l w"
  note spec = latest_seen_at_spec[OF l, simplified]
  note t1 = grown_ok[OF t u spec(1)]
  have addr: "ip_address a \<noteq> None" if a: "a \<in> fst ` set l" for a
  proof -
    obtain s where "map_of l a = Some s" using a by (cases "map_of l a") (auto simp: map_of_eq_None_iff)
    then obtain raw where "normalize_ip raw = Inr a" using spec(4) by blast
    then show ?thesis by (rule normalize_InrD) simp
  qed
  have rows: "new_ip_rows ?new (w_now w) = Inr (fresh_rows ?new (w_now w))"
    by (rule new_ip_rows_fresh) (use addr arrivals_keys in auto)
  have c: "create_ips (fresh_rows ?new (w_now w)) (w_ips w) = ?t1"
    unfolding grown_def by (rule create_ips_fresh) (use arrivals_distinct[OF spec(1)] arrivals_keys in auto)
  let ?ex1 = "existing_ips (map fst l) (w\<lparr>w_ips := ?t1\<rparr>)"
  have lookup: "\<exists>k r. map_of ?ex1 a = Some (k, r) \<and> get_row k ?t1 = Some r \<and> ia_address r = a" if a: "a \<in> fst ` set l" for a
  proof -
    obtain k r where "get_row k ?t1 = Some r" "ia_address r = a" using grown_has[OF t a] by blast
    then show ?thesis using existing_lookup[of "w\<lparr>w_ips := ?t1\<rparr>" "map fst l" a k r] t1 a by auto
  qed
  have ex1: "(if fresh_rows ?new (w_now w) \<noteq> [] then ?ex1 else existing_ips (map fst l) w) = ?ex1"
    by (auto simp: grown_def add_rows_def)
  obtain ex t2 where b: "bump_last_seen l ?ex1 (w\<lparr>w_ips := ?t1\<rparr>) = (Inr ex, w\<lparr>w_ips := t2\<rparr>)"
      "table_ok t2" "\<forall>k. get_row k t2 = map_option (bumped l (w_now w)) (get_row k ?t1)"
      "\<forall>a. map_option fst (map_of ex a) = map_option fst (map_of ?ex1 a)"
    using bump_last_seen_spec[of "w\<lparr>w_ips := ?t1\<rparr>" l ?ex1] t1 spec(1) lookup by auto
  have found: "\<exists>k r r'. map_of ex a = Some (k, r') \<and> get_row k ?t1 = Some r \<and> ia_address r = a" if a: "a \<in> fst ` set l" for a
    using lookup[OF a] b(4)[rule_format, of a] by auto
  obtain ks where ks: "concat (map (\<lambda>(a, _). case map_of ex a of None \<Rightarrow> [] | Some (k, _) \<Rightarrow> [Process_new_ip k]) ?new) = map Process_new_ip ks"
      "distinct ks" "set ks = {k. \<exists>r. get_row k ?t1 = Some r \<and> ia_address r \<in> fst ` set ?new}"
    using sent_jobs[OF t1 arrivals_distinct[OF spec(1)], of w ex] found arrivals_keys[of l w] by auto
  have "record_sightings_bulk xs w = (Inr ex, delays (map Process_new_ip ks) (w\<lparr>w_ips := t2\<rparr>))"
    using xs l rows b(1) ks(1)
    by (simp add: record_sightings_bulk_def Let_def arrivals_missing c ex1 del: fresh_rows_addresses)
  then show ?thesis using t1 b(2,3) ks(2,3) grown_new_iff[OF t] found
    by (intro exI[of _ ex] exI[of _ t2] exI[of _ ks]) auto
qed

definition valid_batch :: "(string \<times> time) list \<Rightarrow> bool" where
  "valid_batch xs \<longleftrightarrow> list_all (\<lambda>(raw, _). ip_address (py_strip raw) \<noteq> None) xs"

lemma latest_total: "valid_batch xs \<Longrightarrow> \<exists>l. latest_seen_at d xs = Inr l"
  by (induction d xs rule: latest_seen_at.induct) (auto simp: valid_batch_def normalize_ip_def)

text \<open>What the callers of a batch rely on.\<close>

lemma bulk_ok:
  assumes t: "table_ok (w_ips w)" and u: "unique_on ia_address (w_ips w)"
    and valid: "valid_batch xs"
  shows "\<exists>d t' js. record_sightings_bulk xs w = (Inr d, w\<lparr>w_ips := t', w_jobs := js\<rparr>) \<and>
    table_ok t' \<and> unique_on ia_address t' \<and>
    (\<forall>k r. get_row k (w_ips w) = Some r \<longrightarrow> (\<exists>r'. get_row k t' = Some r' \<and> ia_address r' = ia_address r)) \<and>
    (\<forall>(raw, seen)\<in>set xs. \<exists>a k r r'. normalize_ip raw = Inr a \<and> map_of d a = Some (k, r') \<and>
       get_row k t' = Some r \<and> ia_address r = a)"
proof (cases "xs = []")
  case True
  then show ?thesis using t u
    by (intro exI[of _ "[]"] exI[of _ "w_ips w"] exI[of _ "w_jobs w"]) (simp add: record_sightings_bulk_def)
next
  case False
  obtain l where l: "latest_seen_at [] xs = Inr l" using latest_total[OF valid] by blast
  obtain d t' ks where b: "record_sightings_bulk xs w = (Inr d, delays (map Process_new_ip ks) (w\<lparr>w_ips := t'\<rparr>))"
    "unique_on ia_address (grown l w)" "table_ok t'"
    "\<forall>k. get_row k t' = map_option (bumped l (w_now w)) (get_row k (grown l w))"
    "\<forall>a\<in>fst ` set l. \<exists>k r r'. map_of d a = Some (k, r') \<and> get_row k (grown l w) = Some r \<and> ia_address r = a"
    using bulk_result[OF t u False l] by blast
  have u': "unique_on ia_address t'" using b(2,4) by (auto simp: rows_unique_def)
  have old: "\<exists>r'. get_row k t' = Some r' \<and> ia_address r' = ia_address r" if k: "get_row k (w_ips w) = Some r" for k r
  proof -
    have "get_row k (grown l w) = Some r"
      using get_add_rows_old[OF t get_row_seq[OF t k]] k by (simp add: grown_def)
    then show ?thesis using b(4) by simp
  qed
  have new: "\<exists>a k r r'. normalize_ip raw = Inr a \<and> map_of d a = Some (k, r') \<and> get_row k t' = Some r \<and> ia_address r = a"
    if m: "(raw, seen) \<in> set xs" for raw seen
  proof -
    obtain a v where a: "normalize_ip raw = Inr a" "map_of l a = Some v"
      using latest_seen_at_spec(3)[OF l _ m] by auto
    then have "a \<in> fst ` set l" by (force dest: map_of_SomeD)
    then obtain k r r' where "map_of d a = Some (k, r')" "get_row k (grown l w) = Some r" "ia_address r = a"
      using b(5) by blast
    then show ?thesis using a b(4)
      by (intro exI[of _ a] exI[of _ k] exI[of _ "bumped l (w_now w) r"] exI[of _ r']) simp
  qed
  show ?thesis
    by (intro exI[of _ d] exI[of _ t'] exI[of _ "w_jobs w @ map Process_new_ip ks"] conjI allI impI ballI)
      (use b(1,3) u' old new in \<open>auto simp: delays_def\<close>)
qed

section \<open>Properties\<close>

text \<open>A normalised address is its own normal form, and two texts have the same normal form exactly
  when they denote the same address.\<close>

lemma normalize_canonical:
  assumes "normalize_ip raw = Inr s"
  shows "normalize_ip s = Inr s \<and>
    (\<forall>other. normalize_ip other = Inr s \<longleftrightarrow> ip_address (py_strip other) = ip_address (py_strip raw))"
proof -
  obtain a where a: "ip_address (py_strip raw) = Some a" "s = ip_str a" "ip_valid a"
    using assms by (rule normalize_InrD)
  have "normalize_ip other = Inr s \<longleftrightarrow> ip_address (py_strip other) = Some a" for other
    using a ip.show_inject[of _ a]
    by (auto simp: normalize_ip_def ip_address_valid split: option.splits)
  then show ?thesis using a(1) normalize_fixed[OF assms] by simp
qed

lemma normalize_canonical_example:
  "normalize_ip '' 2001:DB8:0:0::1 '' = Inr ''2001:db8::1'' \<and> normalize_ip ''2001:db8::1'' = Inr ''2001:db8::1''"
proof -
  have "normalize_ip '' 2001:DB8:0:0::1 '' = Inr ''2001:db8::1''" by code_simp
  with normalize_canonical[OF this] show ?thesis by blast
qed

lemma bulk_cases:
  assumes t: "table_ok (w_ips w)" and u: "unique_on ia_address (w_ips w)"
    and r: "record_sightings_bulk xs w = (Inr d, w')"
  obtains "xs = []" "w' = w" | l where "xs \<noteq> []" "latest_seen_at [] xs = Inr l"
proof (cases "xs = []")
  case True
  then show ?thesis using r that(1) by (simp add: record_sightings_bulk_def)
next
  case False
  then obtain l where "latest_seen_at [] xs = Inr l"
    using r by (auto simp: record_sightings_bulk_def split: sum.splits)
  then show ?thesis using False that(2) by blast
qed

text \<open>C20: Recording a batch keeps addresses unique, and every sighting of the batch leads to the one row
  that carries its normal form, seen no earlier than the sighting; that row is also the one returned.\<close>

theorem sightings_identity:
  assumes t: "table_ok (w_ips w)" and u: "unique_on ia_address (w_ips w)"
    and r: "record_sightings_bulk xs w = (Inr d, w')"
  shows "table_ok (w_ips w') \<and> unique_on ia_address (w_ips w') \<and>
    (\<forall>(raw, seen)\<in>set xs. \<exists>a k row. normalize_ip raw = Inr a \<and> get_row k (w_ips w') = Some row \<and>
       ia_address row = a \<and> seen \<le> ia_last_seen_at row \<and> map_option fst (map_of d a) = Some k)"
  using t u r
proof (cases rule: bulk_cases)
  case 1
  then show ?thesis using t u by simp
next
  case (2 l)
  define t1 where "t1 = grown l w"
  obtain ex t2 ks where b: "record_sightings_bulk xs w = (Inr ex, delays (map Process_new_ip ks) (w\<lparr>w_ips := t2\<rparr>))"
    "table_ok t1" "unique_on ia_address t1" "table_ok t2"
    "\<forall>k. get_row k t2 = map_option (bumped l (w_now w)) (get_row k t1)"
    "\<forall>a\<in>fst ` set l. \<exists>k r r'. map_of ex a = Some (k, r') \<and> get_row k t1 = Some r \<and> ia_address r = a"
    using bulk_result[OF t u 2] unfolding t1_def by blast
  have w': "w_ips w' = t2" "d = ex" using b(1) r by (auto simp: delays_def)
  have u2: "unique_on ia_address t2"
    using b(3,5) by (auto simp: rows_unique_def) 
  moreover have "\<exists>a k row. normalize_ip raw = Inr a \<and> get_row k t2 = Some row \<and>
       ia_address row = a \<and> seen \<le> ia_last_seen_at row \<and> map_option fst (map_of ex a) = Some k"
    if m: "(raw, seen) \<in> set xs" for raw seen
  proof -
    obtain a v where a: "normalize_ip raw = Inr a" "map_of l a = Some v" "seen \<le> v"
      using latest_seen_at_spec(3)[OF 2(2) _ m] by auto
    then have "a \<in> fst ` set l" by (force dest: map_of_SomeD)
    then obtain k row row' where k: "map_of ex a = Some (k, row')" "get_row k t1 = Some row" "ia_address row = a"
      using b(6) by blast
    then show ?thesis using a b(5) by (intro exI[of _ a] exI[of _ k] exI[of _ "bumped l (w_now w) row"]) simp
  qed
  ultimately show ?thesis using w' b(4) by auto
qed

text \<open>C2: A batch never moves a known address back in time: its row keeps everything but the last
  sighting, which is the old one or a later one from the batch.\<close>

theorem sightings_monotone:
  assumes t: "table_ok (w_ips w)" and u: "unique_on ia_address (w_ips w)"
    and r: "record_sightings_bulk xs w = (Inr d, w')" and k: "get_row k (w_ips w) = Some row"
  shows "\<exists>row'. get_row k (w_ips w') = Some row' \<and> ia_last_seen_at row \<le> ia_last_seen_at row' \<and>
    row' = row\<lparr>ia_last_seen_at := ia_last_seen_at row', ia_updated_at := ia_updated_at row'\<rparr> \<and>
    (ia_last_seen_at row' = ia_last_seen_at row \<or>
     (\<exists>raw. (raw, ia_last_seen_at row') \<in> set xs \<and> normalize_ip raw = Inr (ia_address row)))"
  using t u r
proof (cases rule: bulk_cases)
  case 1
  then show ?thesis using k by simp
next
  case (2 l)
  obtain ex t2 ks where b: "record_sightings_bulk xs w = (Inr ex, delays (map Process_new_ip ks) (w\<lparr>w_ips := t2\<rparr>))"
    "\<forall>k. get_row k t2 = map_option (bumped l (w_now w)) (get_row k (grown l w))"
    using bulk_result[OF t u 2] by blast
  have "get_row k (grown l w) = Some row"
    using get_add_rows_old[OF t get_row_seq[OF t k]] k by (simp add: grown_def)
  then have g: "get_row k (w_ips w') = Some (bumped l (w_now w) row)" using b r by (auto simp: delays_def)
  have "\<exists>raw. (raw, v) \<in> set xs \<and> normalize_ip raw = Inr a" if "map_of l a = Some v" for a v
    using latest_seen_at_spec(4)[OF 2(2) _ that] by simp
  then show ?thesis unfolding g
    by (intro exI[of _ "bumped l (w_now w) row"]) (auto simp: bumped_def split: option.splits)
qed

text \<open>C22: The jobs a batch sends are exactly one \<open>process_new_ip\<close> for every row it created, and nothing
  for addresses that were known.\<close>

theorem sightings_enqueue_new_once:
  assumes t: "table_ok (w_ips w)" and u: "unique_on ia_address (w_ips w)"
    and r: "record_sightings_bulk xs w = (Inr d, w')"
  shows "\<exists>ks. w_jobs w' = w_jobs w @ map Process_new_ip ks \<and> distinct ks \<and>
    set ks = {k. has_row (w_ips w') k \<and> \<not> has_row (w_ips w) k}"
  using t u r
proof (cases rule: bulk_cases)
  case 1
  then show ?thesis by (intro exI[of _ "[]"]) simp
next
  case (2 l)
  obtain ex t2 ks where b: "record_sightings_bulk xs w = (Inr ex, delays (map Process_new_ip ks) (w\<lparr>w_ips := t2\<rparr>))"
    "\<forall>k. get_row k t2 = map_option (bumped l (w_now w)) (get_row k (grown l w))"
    "distinct ks" "set ks = {k. has_row (grown l w) k \<and> \<not> has_row (w_ips w) k}"
    using bulk_result[OF t u 2] by blast
  have "has_row t2 k = has_row (grown l w) k" for k using b(2) by (simp add: has_row_def)
  then show ?thesis using b r by (intro exI[of _ ks]) (auto simp: delays_def)
qed

text \<open>A batch is recorded exactly when all its addresses are valid; one invalid address rejects the
  whole batch with a \<open>ValueError\<close> before anything is written.\<close>

lemma sightings_all_or_nothing:
  assumes t: "table_ok (w_ips w)" and u: "unique_on ia_address (w_ips w)"
  shows "if list_all (\<lambda>(raw, _). ip_address (py_strip raw) \<noteq> None) xs
    then \<exists>d w'. record_sightings_bulk xs w = (Inr d, w')
    else record_sightings_bulk xs w = (Inl ValueError, w)"
proof -
  have latest: "if list_all (\<lambda>(raw, _). ip_address (py_strip raw) \<noteq> None) xs
      then \<exists>l. latest_seen_at d xs = Inr l else latest_seen_at d xs = Inl ValueError" for d xs
    by (induction d xs rule: latest_seen_at.induct) (auto simp: normalize_ip_def split: option.splits)
  show ?thesis
  proof (cases "xs = []")
    case True
    then show ?thesis by (simp add: record_sightings_bulk_def)
  next
    case False
    show ?thesis
    proof (cases "list_all (\<lambda>(raw, _). ip_address (py_strip raw) \<noteq> None) xs")
      case True
      then obtain l where l: "latest_seen_at [] xs = Inr l" using latest[of xs "[]"] by auto
      from bulk_result[OF t u False l] show ?thesis unfolding if_P[OF True] by blast
    next
      case bad: False
      then have "latest_seen_at [] xs = Inl ValueError" using latest[of xs "[]"] by auto
      then show ?thesis using bad False by (simp add: record_sightings_bulk_def)
    qed
  qed
qed

text \<open>A database with one known address, and a batch that sees it again together with a new one.\<close>

definition seen_world :: world where
  "seen_world = (empty_world default_settings 1000)
     \<lparr>w_ips := add_row (blank_ip ''5.160.0.1'' 4 100 100) empty_table\<rparr>"

definition seen_batch :: "(string \<times> time) list" where
  "seen_batch = [(''5.160.0.1'', 90), (''91.98.1.1 '', 300), (''91.98.1.1'', 200), (''5.160.0.1'', 400)]"

definition seen_result :: "ip_dict \<times> world" where
  "seen_result = (case record_sightings_bulk seen_batch seen_world of
     (Inr d, w') \<Rightarrow> (d, w') | (_, w') \<Rightarrow> ([], w'))"

lemma seen_run: "record_sightings_bulk seen_batch seen_world = (Inr (fst seen_result), snd seen_result)"
  by code_simp

lemma seen_facts:
  "db_check seen_world" "normalize_ip ''91.98.1.1 '' = Inr ''91.98.1.1''" "w_jobs seen_world = []"
  "get_row 1 (w_ips seen_world) = Some (blank_ip ''5.160.0.1'' 4 100 100)"
  by code_simp+

lemma seen_outcome:
  "(w_jobs (snd seen_result), map_option ia_first_seen_at (get_row 2 (w_ips (snd seen_result)))) =
   ([Process_new_ip 2], Some 300)"
  by code_simp

lemma unseen_batch:
  "\<not> list_all (\<lambda>(raw, _). ip_address (py_strip raw) \<noteq> None) [(''5.160.0.1'', 400::time), (''5.160.0.256'', 400)]"
  by code_simp

lemma seen_world_ok: "table_ok (w_ips seen_world)" "unique_on ia_address (w_ips seen_world)"
proof -
  have "db_ok seen_world" using seen_facts(1) by (simp only: db_ok_check)
  then show "table_ok (w_ips seen_world)" "unique_on ia_address (w_ips seen_world)"
    by (simp_all add: db_ok_def tables_ok_def addresses_unique_def)
qed

theorem sightings_identity_witness:
  "\<exists>k row. get_row k (w_ips (snd seen_result)) = Some row \<and> ia_address row = ''91.98.1.1'' \<and>
     300 \<le> ia_last_seen_at row"
proof -
  have m: "(''91.98.1.1 '', 300) \<in> set seen_batch" by (simp add: seen_batch_def)
  show ?thesis using sightings_identity[OF seen_world_ok seen_run] m seen_facts(2) by fastforce
qed

theorem sightings_monotone_witness:
  "\<exists>row. get_row 1 (w_ips (snd seen_result)) = Some row \<and> 100 \<le> ia_last_seen_at row"
proof -
  from sightings_monotone[OF seen_world_ok seen_run seen_facts(4)] show ?thesis by auto
qed

theorem sightings_enqueue_new_once_witness:
  "\<exists>ks. w_jobs (snd seen_result) = map Process_new_ip ks \<and> distinct ks \<and> w_jobs (snd seen_result) = [Process_new_ip 2]"
proof -
  have "w_jobs seen_world = []" "w_jobs (snd seen_result) = [Process_new_ip 2]"
    using seen_facts(3) seen_outcome by simp_all
  moreover obtain ks where "w_jobs (snd seen_result) = w_jobs seen_world @ map Process_new_ip ks" "distinct ks"
    using sightings_enqueue_new_once[OF seen_world_ok seen_run] by blast
  ultimately show ?thesis by (intro exI[of _ ks]) simp
qed

lemma sightings_all_or_nothing_example:
  "record_sightings_bulk [(''5.160.0.1'', 400), (''5.160.0.256'', 400)] seen_world = (Inl ValueError, seen_world)"
proof -
  from unseen_batch sightings_all_or_nothing[OF seen_world_ok, of "[(''5.160.0.1'', 400), (''5.160.0.256'', 400)]"]
  show ?thesis by argo
qed

text \<open>The row of a new address starts at the latest sighting of its batch, not at the first one.\<close>

lemma first_seen_is_latest:
  "map_option ia_first_seen_at (get_row 2 (w_ips (snd seen_result))) = Some 300"
  using seen_outcome by simp

text \<open>A new address that nobody else is processing is sent to classification and to geolocation, and
  to a lookup exactly when its freshness window has passed; otherwise nothing is sent, and the lock is
  free afterwards in every case in which it was taken.\<close>

lemma process_new_ip_fan_out:
  "process_new_ip k w =
     (case get_row k (w_ips w) of
        None \<Rightarrow> (Inr (), w)
      | Some ip \<Rightarrow>
          let key = lock_key ''ip:process:'' (ia_address ip) in
          if live key (w_now w) (w_cache w) then (Inr (), w)
          else (Inr (), delays ((if needs_whois_check ip (w_now w) then [Perform_whois_lookup k False] else [])
                  @ [Classify_ip k, Enrich_ip k]) (w\<lparr>w_cache := cache_delete key (w_cache w)\<rparr>)))"
proof (cases "get_row k (w_ips w)")
  case (Some ip)
  let ?key = "lock_key ''ip:process:'' (ia_address ip)"
  have d: "cache_delete ?key ((?key, t) # cache_delete ?key c) = cache_delete ?key c" for t c
    by (simp add: cache_delete_def)
  show ?thesis
  proof (cases "live ?key (w_now w) (w_cache w)")
    case True
    then show ?thesis using Some
      by (simp add: process_new_ip_def skip_if_held_def redis_lock_held[OF True] Let_def)
  next
    case False
    then show ?thesis using Some d
      by (simp add: process_new_ip_def skip_if_held_def redis_lock_free[OF False] release_def Let_def delay_def
          delays_def)
  qed
qed (simp add: process_new_ip_def)

end
