(* ===== verification/Log_Reader.thy ===== *)
theory Log_Reader
  imports Log_Parser Ip_Service Ssh_Service "HOL-Library.Sublist"
begin

text \<open>
  \<open>apps/logs/services.py\<close> and \<open>apps/logs/tasks.py\<close>: one incremental read-and-process cycle of a log
  source and the tasks around it. Decoding bytes to text is a parameter, because text here stops at
  Latin-1; the file itself is what the host of the server answers.
\<close>

section \<open>The lines of a chunk\<close>

definition newline :: char where "newline = CHR 0x0A"

definition raw_lines :: "string \<Rightarrow> string list" where
  "raw_lines chunk = butlast (split_on newline chunk)"

definition leftover :: "string \<Rightarrow> string" where
  "leftover chunk = last (split_on newline chunk)"

definition consumed_bytes :: "string \<Rightarrow> nat" where
  "consumed_bytes chunk = length chunk - length (leftover chunk)"

definition complete_lines :: "(string \<Rightarrow> string) \<Rightarrow> string \<Rightarrow> string list" where
  "complete_lines decode chunk = map decode (filter (\<lambda>l. l \<noteq> []) (raw_lines chunk))"

fun parse_lines :: "re \<Rightarrow> string list \<Rightarrow> (parsed_line list \<times> nat) res" where
  "parse_lines pattern [] = Inr ([], 0)"
| "parse_lines pattern (l # ls) =
     (case parse_line pattern l of
        Inr p \<Rightarrow> res_bind (parse_lines pattern ls) (\<lambda>(ps, n). Inr (p # ps, n))
      | Inl (LogParseError _) \<Rightarrow> res_bind (parse_lines pattern ls) (\<lambda>(ps, n). Inr (ps, Suc n))
      | Inl e \<Rightarrow> Inl e)"

section \<open>Events\<close>

definition event_of :: "pk \<Rightarrow> pk \<Rightarrow> pk \<Rightarrow> time \<Rightarrow> parsed_line \<Rightarrow> event" where
  "event_of server_id source_id ip_id now p =
     \<lparr>ev_server = server_id, ev_log_source = source_id, ev_ip = ip_id, ev_timestamp = pl_timestamp p,
      ev_host = take 255 (pl_host p), ev_method = take 16 (pl_method p), ev_uri = take 2048 (pl_uri p),
      ev_status = pl_status p, ev_bytes = pl_bytes p, ev_request_time = pl_request_time p,
      ev_user_agent = take 512 (pl_user_agent p), ev_referer = take 2048 (pl_referer p),
      ev_raw_line = take 8192 (pl_raw_line p), ev_created_at = now\<rparr>"

fun build_events :: "log_source \<Rightarrow> pk \<Rightarrow> time \<Rightarrow> ip_dict \<Rightarrow> parsed_line list \<Rightarrow> event list res" where
  "build_events src k now ip_map [] = Inr []"
| "build_events src k now ip_map (p # ps) =
     res_bind (normalize_ip (pl_remote_addr p)) (\<lambda>a.
       case map_of ip_map a of
         None \<Rightarrow> Inl KeyError
       | Some (ip_id, _) \<Rightarrow>
           res_bind (build_events src k now ip_map ps) (\<lambda>es. Inr (event_of (ls_server src) k ip_id now p # es)))"

text \<open>What the columns of an event take: \<open>bytes\<close> is a \<open>PositiveBigIntegerField\<close>, and a text column of PostgreSQL
  holds no NUL character. \<open>bulk_create\<close> is one transaction, so one event that does not fit refuses them all.\<close>

definition nul_free :: "string \<Rightarrow> bool" where "nul_free s \<longleftrightarrow> CHR 0x00 \<notin> set s"

definition storable_event :: "event \<Rightarrow> bool" where
  "storable_event e \<longleftrightarrow> 0 \<le> ev_bytes e \<and> ev_bytes e < 2 ^ 63 \<and>
     list_all nul_free [ev_host e, ev_method e, ev_uri e, ev_user_agent e, ev_referer e, ev_raw_line e]"

definition store_events :: "log_source \<Rightarrow> pk \<Rightarrow> parsed_line list \<Rightarrow> unit eff" where
  "store_events src k parsed w =
     (if parsed = [] then (Inr (), w)
      else
        (case record_sightings_bulk (map (\<lambda>p. (pl_remote_addr p, pl_timestamp p)) parsed) w of
           (Inl e, w') \<Rightarrow> (Inl e, w')
         | (Inr ip_map, w') \<Rightarrow>
             (case build_events src k (w_now w') ip_map parsed of
                Inl e \<Rightarrow> (Inl e, w')
              | Inr events \<Rightarrow>
                  if list_all storable_event events then (Inr (), w'\<lparr>w_events := add_rows events (w_events w')\<rparr>)
                  else (Inl (RuntimeError ''DataError''), w'))))"

section \<open>One cycle\<close>

record poll_summary =
  ps_events_created :: nat
  ps_parse_errors :: nat
  ps_lines_read :: nat
  ps_rotated :: bool
  ps_file_missing :: bool

definition save_source :: "pk \<Rightarrow> (log_source \<Rightarrow> log_source) \<Rightarrow> world \<Rightarrow> world" where
  "save_source k f w =
     w\<lparr>w_sources := update_row k (\<lambda>s. (f s)\<lparr>ls_updated_at := w_now w\<rparr>) (w_sources w)\<rparr>"

definition reader_poll :: "(string \<Rightarrow> string) \<Rightarrow> host \<Rightarrow> pk \<Rightarrow> log_source \<Rightarrow> poll_summary eff" where
  "reader_poll decode h k src w =
     (case get_row (ls_server src) (w_servers w) of
        None \<Rightarrow> (Inl DoesNotExist, w)
      | Some server \<Rightarrow>
     (case poll_log h server (ls_path src) (ls_inode src)
             (if ls_inode src \<noteq> None then Some (ls_byte_offset src) else None) of
        Inl e \<Rightarrow> (Inl e, w)
      | Inr None \<Rightarrow>
          (Inr \<lparr>ps_events_created = 0, ps_parse_errors = 0, ps_lines_read = 0, ps_rotated = False,
                ps_file_missing = True\<rparr>,
           save_source k (\<lambda>s. s\<lparr>ls_last_error := ''Log file not found: '' @ ls_path src,
                                ls_last_read_at := Some (w_now w)\<rparr>) w)
      | Inr (Some chunk) \<Rightarrow>
     (case compiled_pattern (ls_format src) of
        Inl e \<Rightarrow> (Inl e, w)
      | Inr pattern \<Rightarrow>
     (let complete = complete_lines decode (lc_data chunk) in
      case parse_lines pattern complete of
        Inl e \<Rightarrow> (Inl e, w)
      | Inr (parsed, parse_errors) \<Rightarrow>
     (case store_events src k parsed w of
        (Inl e, w') \<Rightarrow> (Inl e, w')
      | (Inr _, w') \<Rightarrow>
          (Inr \<lparr>ps_events_created = length parsed, ps_parse_errors = parse_errors,
                ps_lines_read = length complete, ps_rotated = lc_rotated chunk, ps_file_missing = False\<rparr>,
           save_source k (\<lambda>s. s\<lparr>ls_inode := Some (lc_inode chunk),
               ls_byte_offset := lc_offset chunk + int (consumed_bytes (lc_data chunk)),
               ls_last_read_at := Some (w_now w'),
               ls_last_event_at := (if parsed = [] then ls_last_event_at src
                                    else Some (Max (pl_timestamp ` set parsed))),
               ls_last_error := (if parse_errors = 0 then []
                                 else nat_str parse_errors @ '' line(s) failed to parse on last read'')\<rparr>) w'))))))"

section \<open>Tasks\<close>

definition poll_log_source :: "(string \<Rightarrow> string) \<Rightarrow> host \<Rightarrow> pk \<Rightarrow> unit eff" where
  "poll_log_source decode h k w =
     (case get_row k (w_sources w) of
        None \<Rightarrow> (Inr (), w)
      | Some src \<Rightarrow>
          (case get_row (ls_server src) (w_servers w) of
             None \<Rightarrow> (Inr (), w)
           | Some server \<Rightarrow>
               if \<not> ls_enabled src \<or> \<not> sv_enabled server then (Inr (), w)
               else
                 skip_if_held
                   (redis_lock (lock_key ''logreader:'' (nat_str (ls_server src) @ '':'' @ nat_str k)) (seconds 120)
                      (\<lambda>w. case reader_poll decode h k src w of
                         (Inl e, w') \<Rightarrow> (Inl e, w') | (Inr _, w') \<Rightarrow> (Inr (), w'))) w))"

definition poll_all_log_sources :: "unit eff" where
  "poll_all_log_sources w =
     (Inr (),
      delays (map (\<lambda>(k, _). Poll_log_source k)
        (select_rows (\<lambda>_ s. ls_enabled s \<and>
           (case get_row (ls_server s) (w_servers w) of Some v \<Rightarrow> sv_enabled v | None \<Rightarrow> False)) (w_sources w))) w)"

section \<open>Chunks: lemmas\<close>

lemma split_parts: "raw_lines c @ [leftover c] = split_on newline c"
  by (simp add: raw_lines_def leftover_def)

lemma leftover_suffix: "\<exists>u. c = u @ leftover c \<and> length u = consumed_bytes c"
proof -
  have "\<exists>u. c = u @ last (split_on newline c)"
  proof (induction c)
    case (Cons x c)
    then obtain u where u: "c = u @ last (split_on newline c)" by blast
    show ?case
    proof (cases "split_on newline c")
      case (Cons y ys)
      show ?thesis
      proof (cases "ys = [] \<and> x \<noteq> newline")
        case True
        then have "split_on newline (x # c) = [x # y]" using Cons by simp
        moreover have "c = y" using u Cons True join_split_on[of newline c] by simp
        ultimately show ?thesis by simp
      next
        case False
        then have "last (split_on newline (x # c)) = last (split_on newline c)" using Cons by auto
        then show ?thesis using u by (intro exI[of _ "x # u"]) simp
      qed
    qed simp
  qed simp
  then show ?thesis unfolding leftover_def consumed_bytes_def
    by (metis add_diff_cancel_right' length_append leftover_def)
qed

lemma drop_consumed: "drop (consumed_bytes c) (c @ d) = leftover c @ d"
  and consumed_le: "consumed_bytes c \<le> length c"
  using leftover_suffix[of c] by (metis append.assoc append_eq_conv_conj, simp add: consumed_bytes_def)

lemma raw_lines_append: "raw_lines (c @ d) = raw_lines c @ raw_lines (leftover c @ d)"
  and leftover_append: "leftover (c @ d) = leftover (leftover c @ d)"
proof -
  have n: "newline \<notin> set (leftover c)"
    using split_on_pieces[of "leftover c" newline c] by (simp add: leftover_def)
  have "split_on newline (leftover c) = [leftover c]" by (rule split_on_no_sep[OF n])
  then have e: "split_on newline (c @ d) = raw_lines c @ split_on newline (leftover c @ d)"
    using split_on_append[of newline c d] split_on_append[of newline "leftover c" d]
    by (simp add: raw_lines_def leftover_def)
  then show "raw_lines (c @ d) = raw_lines c @ raw_lines (leftover c @ d)"
    "leftover (c @ d) = leftover (leftover c @ d)"
    by (simp_all add: raw_lines_def leftover_def butlast_append)
qed

lemma consumed_append: "consumed_bytes (c @ d) = consumed_bytes c + consumed_bytes (leftover c @ d)"
proof -
  obtain u where u: "c = u @ leftover c" "length u = consumed_bytes c" using leftover_suffix by blast
  obtain v where v: "leftover c @ d = v @ leftover (leftover c @ d)" "length v = consumed_bytes (leftover c @ d)"
    using leftover_suffix by blast
  have "c @ d = (u @ v) @ leftover (c @ d)" using u v leftover_append by (metis append.assoc)
  moreover obtain x where "c @ d = x @ leftover (c @ d)" "length x = consumed_bytes (c @ d)"
    using leftover_suffix by blast
  ultimately show ?thesis using u v by (metis append_same_eq length_append)
qed

lemma complete_lines_append:
  "complete_lines decode (c @ d) = complete_lines decode c @ complete_lines decode (leftover c @ d)"
  by (simp add: complete_lines_def raw_lines_append[of c d])

section \<open>Parsing a batch: lemmas\<close>

lemma line_of_groups_cases:
  "(\<exists>m. line_of_groups line groups = Inl (LogParseError m)) \<or>
   (\<exists>x. line_of_groups line groups = Inr x \<and>
      pl_remote_addr x = (case map_of groups ''remote_addr'' of Some s \<Rightarrow> s | None \<Rightarrow> []) \<and>
      ip_address (pl_remote_addr x) \<noteq> None \<and>
      Option.bind (map_of groups ''status'') py_int = Some (pl_status x))"
proof -
  obtain m u where r: "split_request (case map_of groups ''request'' of Some s \<Rightarrow> s | None \<Rightarrow> []) = (m, u)"
    by (cases "split_request (case map_of groups ''request'' of Some s \<Rightarrow> s | None \<Rightarrow> [])")
  let ?a = "case map_of groups ''remote_addr'' of Some s \<Rightarrow> s | None \<Rightarrow> []"
  show ?thesis
  proof (cases "ip_address ?a = None")
    case True
    then show ?thesis by (simp add: line_of_groups_def Let_def)
  next
    case False
    show ?thesis
    proof (cases "Option.bind (map_of groups ''time_local'') strptime_log")
      case None
      then show ?thesis using False by (simp add: line_of_groups_def Let_def)
    next
      case (Some t)
      then show ?thesis using False
        by (cases "Option.bind (map_of groups ''status'') py_int") (simp_all add: line_of_groups_def Let_def r)
    qed
  qed
qed

lemma parse_line_error: "parse_line p l = Inl e \<Longrightarrow> \<exists>m. e = LogParseError m"
  using line_of_groups_cases[of "rstrip_newline l"]
  by (auto simp: parse_line_def Let_def split: option.splits) (metis Inl_Inr_False sum.inject(1))

definition parsed_of :: "re \<Rightarrow> string list \<Rightarrow> parsed_line list" where
  "parsed_of p ls = List.map_filter (\<lambda>l. case parse_line p l of Inr x \<Rightarrow> Some x | Inl _ \<Rightarrow> None) ls"

definition failed_of :: "re \<Rightarrow> string list \<Rightarrow> nat" where
  "failed_of p ls = length (filter (\<lambda>l. case parse_line p l of Inr _ \<Rightarrow> False | Inl _ \<Rightarrow> True) ls)"

lemma parsed_of_simps [simp]:
  "parsed_of p [] = []"
  "parsed_of p (l # ls) = (case parse_line p l of Inr x \<Rightarrow> x # parsed_of p ls | Inl _ \<Rightarrow> parsed_of p ls)"
  "parsed_of p (xs @ ys) = parsed_of p xs @ parsed_of p ys"
  by (simp_all add: parsed_of_def List.map_filter_def split: sum.splits)

lemma failed_of_simps [simp]:
  "failed_of p [] = 0"
  "failed_of p (l # ls) = (case parse_line p l of Inr x \<Rightarrow> failed_of p ls | Inl _ \<Rightarrow> Suc (failed_of p ls))"
  by (simp_all add: failed_of_def split: sum.splits)

lemma parse_lines_eq: "parse_lines p ls = Inr (parsed_of p ls, failed_of p ls)"
proof (induction ls)
  case (Cons l ls)
  show ?case
  proof (cases "parse_line p l")
    case (Inl e)
    then obtain m where "e = LogParseError m" using parse_line_error by blast
    then show ?thesis using Inl Cons by simp
  qed (simp add: Cons)
qed simp

lemma parsed_and_failed: "length (parsed_of p ls) + failed_of p ls = length ls"
  by (induction ls) (auto split: sum.splits)

text \<open>A captured group only holds characters of its variable's class, so a captured address has no
  white space and the sightings of parsed lines are always valid.\<close>

lemma rep_captures:
  assumes "(s', cs') \<in> set (successes (Rep k lo hi) s cs)"
  shows "cs' = cs \<and> (\<exists>n\<le>length (takeWhile (in_cset k) s). s' = drop n s \<and> (\<forall>h. hi = Some h \<longrightarrow> n \<le> h))"
proof -
  obtain n where "n \<in> set (rep_lengths k lo hi s)" "s' = drop n s" "cs' = cs" using assms by auto
  moreover have "n \<le> length (takeWhile (in_cset k) s) \<and> (\<forall>h. hi = Some h \<longrightarrow> n \<le> h)" if "n \<in> set (rep_lengths k lo hi s)" for n
    using that by (auto simp: rep_lengths_def Let_def split: option.splits)
  ultimately show ?thesis by blast
qed

definition captured_by :: "token \<Rightarrow> string \<Rightarrow> bool" where
  "captured_by t u \<longleftrightarrow> list_all (in_cset (tk_class t)) u \<and> (\<forall>h. tk_max t = Some h \<longrightarrow> length u \<le> h)"

lemma list_all_take_run: "n \<le> length (takeWhile P s) \<Longrightarrow> list_all P (take n s)"
proof -
  assume n: "n \<le> length (takeWhile P s)"
  have "take n s = take n (takeWhile P s)" using n by (metis takeWhile_eq_take min.absorb1 take_take)
  then show ?thesis using set_take_subset[of n "takeWhile P s"] set_takeWhileD[of _ P s] by (auto simp: list_all_iff)
qed

lemma token_captures:
  assumes "(s', cs') \<in> set (successes (token_re v t) s cs)" "(g, u) \<in> set cs'"
  shows "(g, u) \<in> set cs \<or> g = v \<and> tk_named t \<and> captured_by t u"
proof (cases "tk_named t")
  case True
  then obtain cs0 where c: "(s', cs0) \<in> set (successes (Rep (tk_class t) (tk_min t) (tk_max t)) s cs)"
    "cs' = (v, take (length s - length s') s) # cs0"
    using assms(1) by (auto simp: token_re_def Let_def simp del: successes.simps(3))
  then obtain n where n: "n \<le> length (takeWhile (in_cset (tk_class t)) s)" "s' = drop n s"
    "cs' = (v, take (length s - length s') s) # cs" "\<forall>h. tk_max t = Some h \<longrightarrow> n \<le> h"
    using rep_captures[OF c(1)] by blast
  have "length (takeWhile (in_cset (tk_class t)) s) \<le> length s" by (rule length_takeWhile_le)
  then have "length s - length s' = n" using n by simp
  then show ?thesis using n assms(2) True list_all_take_run by (auto simp: captured_by_def)
next
  case False
  then show ?thesis using assms rep_captures[of s' cs' "tk_class t" "tk_min t" "tk_max t" s cs]
    by (simp add: token_re_def Let_def del: successes.simps)
qed

lemma pieces_captures:
  assumes "pieces_re ps = Inr rs" "(s', cs') \<in> set (successes (cats (rs @ [Eol])) s cs)" "(g, u) \<in> set cs'"
  shows "(g, u) \<in> set cs \<or> (\<exists>t. token_patterns g = Some t \<and> captured_by t u)"
  using assms
proof (induction ps arbitrary: rs s cs)
  case Nil
  then show ?case by (auto split: if_splits)
next
  case (Cons p ps)
  then obtain r rs' where rs: "rs = r # rs'" "piece_re p = Inr r" "pieces_re ps = Inr rs'"
    by (auto simp: res_bind_Inr_iff)
  then obtain s1 cs1 where 1: "(s1, cs1) \<in> set (successes r s cs)" "(s', cs') \<in> set (successes (cats (rs' @ [Eol])) s1 cs1)"
    using Cons.prems(2) by auto
  have "(g, u) \<in> set cs1 \<or> (\<exists>t. token_patterns g = Some t \<and> captured_by t u)"
    by (rule Cons.IH[OF rs(3) 1(2) Cons.prems(3)])
  moreover have "(g, u) \<in> set cs \<or> (\<exists>t. token_patterns g = Some t \<and> captured_by t u)"
    if "(g, u) \<in> set cs1"
  proof (cases p)
    case (Text c)
    then show ?thesis using rs(2) 1(1) that by (auto split: list.splits if_splits)
  next
    case (Var v)
    then obtain t where t: "token_patterns v = Some t" "r = token_re v t" using rs(2) by (auto split: option.splits)
    then show ?thesis using token_captures[OF 1(1)[unfolded t(2)] that] by blast
  qed
  ultimately show ?case by blast
qed

lemma parsed_address_valid:
  assumes "compiled_pattern f = Inr p" "parse_line p l = Inr x"
  shows "ip_address (py_strip (pl_remote_addr x)) \<noteq> None"
proof -
  obtain ps rs where ps: "pieces_re ps = Inr rs" "p = cats (rs @ [Eol])"
    using assms(1) by (auto simp: compiled_pattern_def compile_format_def Let_def res_bind_Inr_iff split: if_splits)
  obtain rest groups where m: "re_match p (rstrip_newline l) = Some (rest, groups)"
    and line: "line_of_groups (rstrip_newline l) groups = Inr x"
    using assms(2) by (auto simp: parse_line_def Let_def split: option.splits)
  let ?a = "case map_of groups ''remote_addr'' of Some s \<Rightarrow> s | None \<Rightarrow> []"
  have a: "ip_address ?a \<noteq> None" "pl_remote_addr x = ?a"
    using line line_of_groups_cases[of "rstrip_newline l" groups] by auto
  have "list_all (\<lambda>c. \<not> py_ws c) ?a"
  proof (cases "map_of groups ''remote_addr''")
    case (Some u)
    have "(rest, groups) \<in> set (successes p (rstrip_newline l) [])"
      using m by (auto simp: re_match_def split: list.splits)
    then obtain t where "token_patterns ''remote_addr'' = Some t" "captured_by t u"
      using pieces_captures[OF ps(1)] ps(2) map_of_SomeD[OF Some] by fastforce
    moreover from this have "tk_class t = NonSpace" by (auto simp: token_patterns_def Let_def)
    ultimately show ?thesis using Some by (simp add: list_all_iff captured_by_def)
  qed simp
  then show ?thesis using a py_strip_no_ws by simp
qed

lemma digits_val_bound: "list_all ascii_digit s \<Longrightarrow> digits_val s < 10 ^ length s"
proof (induction s rule: rev_induct)
  case (snoc c s)
  then have "digits_val s < 10 ^ length s" "digit_val c \<le> 9" by (auto simp: digit_val_def ascii_digit_def)
  then show ?case by simp
qed simp

lemma parsed_status_small:
  assumes "compiled_pattern f = Inr p" "parse_line p l = Inr x"
  shows "0 \<le> pl_status x \<and> pl_status x < 1000"
proof -
  obtain ps rs where ps: "pieces_re ps = Inr rs" "p = cats (rs @ [Eol])"
    using assms(1) by (auto simp: compiled_pattern_def compile_format_def Let_def res_bind_Inr_iff split: if_splits)
  obtain rest groups where m: "re_match p (rstrip_newline l) = Some (rest, groups)"
    and line: "line_of_groups (rstrip_newline l) groups = Inr x"
    using assms(2) by (auto simp: parse_line_def Let_def split: option.splits)
  obtain u where u: "map_of groups ''status'' = Some u" "py_int u = Some (pl_status x)"
    using line line_of_groups_cases[of "rstrip_newline l" groups] by (auto simp: bind_eq_Some_conv)
  have "(rest, groups) \<in> set (successes p (rstrip_newline l) [])"
    using m by (auto simp: re_match_def split: list.splits)
  then obtain t where t: "token_patterns ''status'' = Some t" "captured_by t u"
    using pieces_captures[OF ps(1)] ps(2) map_of_SomeD[OF u(1)] by fastforce
  then have d: "list_all ascii_digit u" "length u \<le> 3" by (auto simp: token_patterns_def Let_def captured_by_def list_all_iff)
  moreover have "u \<noteq> []" using u(2) by (auto simp: py_int_def Let_def py_strip_no_ws)
  ultimately have "pl_status x = int (digits_val u)" using py_int_digits[of u] u(2) by (simp add: ascii_digits_def)
  moreover have "digits_val u < 10 ^ length u" by (rule digits_val_bound[OF d(1)])
  moreover have "(10::nat) ^ length u \<le> 10 ^ 3" using d(2) by (intro power_increasing) auto
  ultimately show ?thesis by simp
qed

lemma parsed_valid:
  "compiled_pattern f = Inr p \<Longrightarrow> x \<in> set (parsed_of p ls) \<Longrightarrow> ip_address (py_strip (pl_remote_addr x)) \<noteq> None"
  by (induction ls) (auto dest: parsed_address_valid split: sum.splits)

section \<open>Storing a batch: lemmas\<close>

definition event_for :: "world \<Rightarrow> pk \<Rightarrow> pk \<Rightarrow> parsed_line \<Rightarrow> event \<Rightarrow> bool" where
  "event_for w server_id source_id p e \<longleftrightarrow>
     (\<exists>row. get_row (ev_ip e) (w_ips w) = Some row \<and> normalize_ip (pl_remote_addr p) = Inr (ia_address row)
       \<and> e = event_of server_id source_id (ev_ip e) (w_now w) p)"

lemma ev_ip_event_of [simp]: "ev_ip (event_of s k i n p) = i"
  by (simp add: event_of_def)

definition storable_line :: "parsed_line \<Rightarrow> bool" where
  "storable_line p \<longleftrightarrow> storable_event (event_of 0 0 0 0 p)"

lemma storable_event_of [simp]: "storable_event (event_of s k i now p) = storable_line p"
  by (simp add: storable_line_def storable_event_def event_of_def)

lemma storable_event_for: "event_for w s k p e \<Longrightarrow> storable_event e = storable_line p"
  unfolding event_for_def by (metis storable_event_of)

lemma storable_events: "list_all2 (event_for w s k) ps es \<Longrightarrow> list_all storable_event es = list_all storable_line ps"
  by (induction rule: list_all2_induct) (simp_all add: storable_event_for)

lemma build_events_spec:
  assumes "\<And>p. p \<in> set ps \<Longrightarrow> \<exists>a k r r'. normalize_ip (pl_remote_addr p) = Inr a \<and> map_of d a = Some (k, r') \<and>
     get_row k (w_ips w) = Some r \<and> ia_address r = a"
  shows "\<exists>es. build_events src k (w_now w) d ps = Inr es \<and> list_all2 (event_for w (ls_server src) k) ps es"
  using assms
proof (induction ps)
  case (Cons p ps)
  then obtain es where es: "build_events src k (w_now w) d ps = Inr es" "list_all2 (event_for w (ls_server src) k) ps es"
    by auto
  obtain a j r r' where a: "normalize_ip (pl_remote_addr p) = Inr a" "map_of d a = Some (j, r')"
    "get_row j (w_ips w) = Some r" "ia_address r = a" using Cons.prems[of p] by auto
  then have "event_for w (ls_server src) k p (event_of (ls_server src) k j (w_now w) p)" by (simp add: event_for_def)
  then show ?case using es a by simp
qed simp

definition ips_ok :: "world \<Rightarrow> bool" where
  "ips_ok w \<longleftrightarrow> table_ok (w_ips w) \<and> unique_on ia_address (w_ips w)"

definition same_ips :: "world \<Rightarrow> world \<Rightarrow> bool" where
  "same_ips w w' \<longleftrightarrow> w_now w' = w_now w \<and>
     (\<forall>k r. get_row k (w_ips w) = Some r \<longrightarrow> (\<exists>r'. get_row k (w_ips w') = Some r' \<and> ia_address r' = ia_address r))"

lemma event_for_mono: "event_for w s k p e \<Longrightarrow> same_ips w w' \<Longrightarrow> event_for w' s k p e"
  unfolding event_for_def same_ips_def by metis

lemma same_ips_trans: "same_ips u v \<Longrightarrow> same_ips v w \<Longrightarrow> same_ips u w"
  unfolding same_ips_def by metis

lemma store_events_spec:
  assumes ok: "ips_ok w" and valid: "\<forall>p\<in>set ps. ip_address (py_strip (pl_remote_addr p)) \<noteq> None"
  shows "\<exists>t es js. store_events src k ps w =
      (if list_all storable_line ps then (Inr (), w\<lparr>w_ips := t, w_jobs := js, w_events := add_rows es (w_events w)\<rparr>)
       else (Inl (RuntimeError ''DataError''), w\<lparr>w_ips := t, w_jobs := js\<rparr>)) \<and>
    ips_ok (w\<lparr>w_ips := t\<rparr>) \<and> same_ips w (w\<lparr>w_ips := t\<rparr>) \<and>
    list_all2 (event_for (w\<lparr>w_ips := t\<rparr>) (ls_server src) k) ps es"
proof (cases "ps = []")
  case True
  then show ?thesis using ok
    by (intro exI[of _ "w_ips w"] exI[of _ "[]"] exI[of _ "w_jobs w"])
      (simp add: store_events_def add_rows_def same_ips_def)
next
  case False
  let ?xs = "map (\<lambda>p. (pl_remote_addr p, pl_timestamp p)) ps"
  have v: "valid_batch ?xs" using valid by (auto simp: valid_batch_def list_all_iff)
  obtain d t js where b: "record_sightings_bulk ?xs w = (Inr d, w\<lparr>w_ips := t, w_jobs := js\<rparr>)"
    "table_ok t" "unique_on ia_address t"
    "\<forall>k r. get_row k (w_ips w) = Some r \<longrightarrow> (\<exists>r'. get_row k t = Some r' \<and> ia_address r' = ia_address r)"
    "\<forall>(raw, seen)\<in>set ?xs. \<exists>a k r r'. normalize_ip raw = Inr a \<and> map_of d a = Some (k, r') \<and>
       get_row k t = Some r \<and> ia_address r = a"
    using bulk_ok[OF ok[unfolded ips_ok_def, THEN conjunct1] ok[unfolded ips_ok_def, THEN conjunct2] v] by blast
  have "\<exists>a k r r'. normalize_ip (pl_remote_addr p) = Inr a \<and> map_of d a = Some (k, r') \<and>
     get_row k (w_ips (w\<lparr>w_ips := t\<rparr>)) = Some r \<and> ia_address r = a" if "p \<in> set ps" for p
    using b(5) that by fastforce
  then obtain es where es: "build_events src k (w_now (w\<lparr>w_ips := t\<rparr>)) d ps = Inr es"
    "list_all2 (event_for (w\<lparr>w_ips := t\<rparr>) (ls_server src) k) ps es"
    using build_events_spec[of ps d "w\<lparr>w_ips := t\<rparr>" src k] by blast
  then show ?thesis using False b storable_events[OF es(2)]
    by (intro exI[of _ t] exI[of _ es] exI[of _ js]) (simp add: store_events_def ips_ok_def same_ips_def)
qed

section \<open>One cycle: lemmas\<close>

definition serves :: "host \<Rightarrow> server \<Rightarrow> string \<Rightarrow> int \<Rightarrow> string \<Rightarrow> bool" where
  "serves h server path inode content \<longleftrightarrow>
     ssh_client h server = Inr () \<and> rh_content h path = content \<and>
     (case ssh_exec_with_status h [''stat'', ''-c'', ''%i %s %Y'', path] of
        None \<Rightarrow> False
      | Some out \<Rightarrow> (case parse_stat out of Inr (i, n, _) \<Rightarrow> i = inode \<and> n = int (length content) | Inl _ \<Rightarrow> False))"

lemma poll_served:
  assumes "serves h server path inode content"
  shows "\<exists>m. poll_log h server path known off =
    Inr (Some (chunk_of known off content (inode, int (length content), m)))"
  using assms by (auto simp: serves_def poll_log_def split: option.splits sum.splits)

definition polled_source :: "log_source \<Rightarrow> log_chunk \<Rightarrow> parsed_line list \<Rightarrow> nat \<Rightarrow> time \<Rightarrow> log_source" where
  "polled_source src chunk parsed errors now =
     src\<lparr>ls_inode := Some (lc_inode chunk),
         ls_byte_offset := lc_offset chunk + int (consumed_bytes (lc_data chunk)),
         ls_last_read_at := Some now,
         ls_last_event_at := (if parsed = [] then ls_last_event_at src else Some (Max (pl_timestamp ` set parsed))),
         ls_last_error := (if errors = 0 then [] else nat_str errors @ '' line(s) failed to parse on last read''),
         ls_updated_at := now\<rparr>"

definition lines_of_chunk :: "(string \<Rightarrow> string) \<Rightarrow> log_chunk \<Rightarrow> string list" where
  "lines_of_chunk decode chunk = complete_lines decode (lc_data chunk)"

lemma reader_poll_spec:
  fixes decode :: "string \<Rightarrow> string"
  assumes ok: "ips_ok w" and src: "get_row k (w_sources w) = Some src"
    and server: "get_row (ls_server src) (w_servers w) = Some server"
    and chunk: "poll_log h server (ls_path src) (ls_inode src)
      (if ls_inode src \<noteq> None then Some (ls_byte_offset src) else None) = Inr (Some chunk)"
    and pattern: "compiled_pattern (ls_format src) = Inr pattern"
    and fits: "list_all storable_line (parsed_of pattern (lines_of_chunk decode chunk))"
  defines "parsed \<equiv> parsed_of pattern (lines_of_chunk decode chunk)"
    and "errors \<equiv> failed_of pattern (lines_of_chunk decode chunk)"
  shows "\<exists>t es js w'. reader_poll decode h k src w =
      (Inr \<lparr>ps_events_created = length parsed, ps_parse_errors = errors,
            ps_lines_read = length (lines_of_chunk decode chunk), ps_rotated = lc_rotated chunk,
            ps_file_missing = False\<rparr>, w') \<and>
    w' = w\<lparr>w_ips := t, w_jobs := js, w_events := add_rows es (w_events w), w_sources := w_sources w'\<rparr> \<and>
    ips_ok w' \<and> same_ips w w' \<and> list_all2 (event_for w' (ls_server src) k) parsed es \<and>
    (\<forall>j. get_row j (w_sources w') = (if j = k then Some (polled_source src chunk parsed errors (w_now w)) else get_row j (w_sources w)))"
proof -
  have valid: "\<forall>p\<in>set parsed. ip_address (py_strip (pl_remote_addr p)) \<noteq> None"
    using parsed_valid[OF pattern] by (simp add: parsed_def)
  obtain t es js where st: "store_events src k parsed w =
      (Inr (), w\<lparr>w_ips := t, w_jobs := js, w_events := add_rows es (w_events w)\<rparr>)"
    "ips_ok (w\<lparr>w_ips := t\<rparr>)" "same_ips w (w\<lparr>w_ips := t\<rparr>)"
    "list_all2 (event_for (w\<lparr>w_ips := t\<rparr>) (ls_server src) k) parsed es"
    using store_events_spec[OF ok valid, of src k, unfolded if_P[OF fits[folded parsed_def]]] by blast
  have pl: "parse_lines pattern (complete_lines decode (lc_data chunk)) = Inr (parsed, errors)"
    by (simp add: parse_lines_eq parsed_def errors_def lines_of_chunk_def)
  let ?f = "\<lambda>s. s\<lparr>ls_inode := Some (lc_inode chunk),
         ls_byte_offset := lc_offset chunk + int (consumed_bytes (lc_data chunk)),
         ls_last_read_at := Some (w_now w),
         ls_last_event_at := (if parsed = [] then ls_last_event_at src else Some (Max (pl_timestamp ` set parsed))),
         ls_last_error := (if errors = 0 then [] else nat_str errors @ '' line(s) failed to parse on last read'')\<rparr>"
  let ?w = "save_source k ?f (w\<lparr>w_ips := t, w_jobs := js, w_events := add_rows es (w_events w)\<rparr>)"
  have run: "reader_poll decode h k src w =
      (Inr \<lparr>ps_events_created = length parsed, ps_parse_errors = errors,
            ps_lines_read = length (lines_of_chunk decode chunk), ps_rotated = lc_rotated chunk,
            ps_file_missing = False\<rparr>, ?w)"
    by (simp add: reader_poll_def server chunk[simplified] chunk pattern Let_def pl st(1) lines_of_chunk_def)
  have f: "event_for ?w = event_for (w\<lparr>w_ips := t\<rparr>)" by (intro ext) (simp add: event_for_def save_source_def)
  have "ips_ok ?w" "same_ips w ?w" using st(2,3) by (simp_all add: save_source_def ips_ok_def same_ips_def)
  moreover have "get_row j (w_sources ?w) =
      (if j = k then Some (polled_source src chunk parsed errors (w_now w)) else get_row j (w_sources w))" for j
    using src by (simp add: save_source_def get_update_row polled_source_def)
  moreover have "?w = w\<lparr>w_ips := t, w_jobs := js, w_events := add_rows es (w_events w), w_sources := w_sources ?w\<rparr>"
    by (simp add: save_source_def)
  moreover have "list_all2 (event_for ?w (ls_server src) k) parsed es" using st(4) unfolding f .
  ultimately show ?thesis using run by blast
qed

lemma leftover_le: "length (leftover c) \<le> length c"
  using leftover_suffix[of c] by (metis le_add2 length_append)

text \<open>The part of a file one cycle looks at.\<close>

definition region :: "log_source \<Rightarrow> int \<Rightarrow> string \<Rightarrow> string" where
  "region src inode content =
     (case ls_inode src of
        None \<Rightarrow> []
      | Some i \<Rightarrow> if i = inode then drop (nat (ls_byte_offset src)) content else content)"

lemma chunk_region:
  assumes "0 \<le> ls_byte_offset src"
  shows "lc_data (chunk_of (ls_inode src) (if ls_inode src \<noteq> None then Some (ls_byte_offset src) else None)
      content (inode, int (length content), m)) = region src inode content"
    and "lc_offset (chunk_of (ls_inode src) (if ls_inode src \<noteq> None then Some (ls_byte_offset src) else None)
      content (inode, int (length content), m)) = int (length content) - int (length (region src inode content))"
proof -
  have "nat (int (length content) - int k) = length content - k" for k :: nat by simp
  moreover obtain k where k: "ls_byte_offset src = int k" using assms zero_le_imp_eq_int by blast
  ultimately show "lc_data (chunk_of (ls_inode src) (if ls_inode src \<noteq> None then Some (ls_byte_offset src) else None)
      content (inode, int (length content), m)) = region src inode content"
    by (auto simp: chunk_of_def region_def Let_def read_range_def min_def split: option.splits)
  show "lc_offset (chunk_of (ls_inode src) (if ls_inode src \<noteq> None then Some (ls_byte_offset src) else None)
      content (inode, int (length content), m)) = int (length content) - int (length (region src inode content))"
    using k by (auto simp: chunk_of_def region_def Let_def min_def split: option.splits)
qed

lemma chunk_inode: "lc_inode (chunk_of known off content (inode, n, m)) = inode"
  by (simp add: chunk_of_def Let_def)

lemma poll_region_spec:
  fixes decode :: "string \<Rightarrow> string"
  assumes ok: "ips_ok w" and src: "get_row k (w_sources w) = Some src" "0 \<le> ls_byte_offset src"
    and server: "get_row (ls_server src) (w_servers w) = Some server"
    and host: "serves h server (ls_path src) inode content"
    and pattern: "compiled_pattern (ls_format src) = Inr pattern"
    and fits: "list_all storable_line (parsed_of pattern (complete_lines decode (region src inode content)))"
  defines "lines \<equiv> complete_lines decode (region src inode content)"
  shows "\<exists>summary es w' src'. reader_poll decode h k src w = (Inr summary, w') \<and>
    w_events w' = add_rows es (w_events w) \<and> w_servers w' = w_servers w \<and>
    ps_lines_read summary = length lines \<and> ips_ok w' \<and> same_ips w w' \<and>
    list_all2 (event_for w' (ls_server src) k) (parsed_of pattern lines) es \<and>
    ps_events_created summary + ps_parse_errors summary = ps_lines_read summary \<and>
    ps_events_created summary = length es \<and>
    get_row k (w_sources w') = Some src' \<and> ls_inode src' = Some inode \<and>
    ls_server src' = ls_server src \<and> ls_path src' = ls_path src \<and> ls_format src' = ls_format src \<and>
    ls_byte_offset src' = int (length content) - int (length (leftover (region src inode content))) \<and>
    (\<forall>j. j \<noteq> k \<longrightarrow> get_row j (w_sources w') = get_row j (w_sources w))"
proof -
  let ?off = "if ls_inode src \<noteq> None then Some (ls_byte_offset src) else None"
  obtain m where p: "poll_log h server (ls_path src) (ls_inode src) ?off =
      Inr (Some (chunk_of (ls_inode src) ?off content (inode, int (length content), m)))"
    using poll_served[OF host] by blast
  let ?chunk = "chunk_of (ls_inode src) ?off content (inode, int (length content), m)"
  note c = chunk_region(1,2)[OF src(2), of content inode m] chunk_inode
  have l: "lines_of_chunk decode ?chunk = lines" by (simp only: lines_of_chunk_def c lines_def)
  let ?src = "polled_source src ?chunk (parsed_of pattern lines) (failed_of pattern lines) (w_now w)"
  have o: "ls_byte_offset ?src = int (length content) - int (length (leftover (region src inode content)))"
  proof -
    have "ls_byte_offset ?src = lc_offset ?chunk + int (consumed_bytes (lc_data ?chunk))" by (simp add: polled_source_def)
    also have "\<dots> = int (length content) - int (length (region src inode content)) + int (consumed_bytes (region src inode content))"
      by (simp only: c)
    also have "\<dots> = int (length content) - int (length (leftover (region src inode content)))"
      using leftover_le[of "region src inode content"] by (simp add: consumed_bytes_def of_nat_diff)
    finally show ?thesis .
  qed
  have f: "ls_inode ?src = Some inode" "ls_server ?src = ls_server src" "ls_path ?src = ls_path src"
    "ls_format ?src = ls_format src" by (simp_all add: polled_source_def c(3))
  obtain t es js w' where r: "reader_poll decode h k src w =
      (Inr \<lparr>ps_events_created = length (parsed_of pattern lines), ps_parse_errors = failed_of pattern lines,
            ps_lines_read = length lines, ps_rotated = lc_rotated ?chunk, ps_file_missing = False\<rparr>, w')"
    "w' = w\<lparr>w_ips := t, w_jobs := js, w_events := add_rows es (w_events w), w_sources := w_sources w'\<rparr>"
    "ips_ok w'" "same_ips w w'" "list_all2 (event_for w' (ls_server src) k) (parsed_of pattern lines) es"
    "\<forall>j. get_row j (w_sources w') = (if j = k then Some ?src else get_row j (w_sources w))"
    using reader_poll_spec[OF ok src(1) server p pattern, of decode] fits unfolding l lines_def by blast
  have n: "length (parsed_of pattern lines) = length es" by (rule list_all2_lengthD[OF r(5)])
  have ev: "w_events w' = add_rows es (w_events w)" by (subst r(2)) simp
  have sv: "w_servers w' = w_servers w" by (subst r(2)) simp
  show ?thesis
    by (intro exI conjI, rule r(1))
      (use ev sv r(3-6) f o n parsed_and_failed[of pattern lines] in simp_all)
qed


text \<open>A chunk with a line that does not fit: the sightings are recorded, everything else stays.\<close>

lemma reader_poll_refused:
  fixes decode :: "string \<Rightarrow> string"
  assumes ok: "ips_ok w" and src: "0 \<le> ls_byte_offset src"
    and server: "get_row (ls_server src) (w_servers w) = Some server"
    and host: "serves h server (ls_path src) inode content"
    and pattern: "compiled_pattern (ls_format src) = Inr pattern"
    and bad: "\<not> list_all storable_line (parsed_of pattern (complete_lines decode (region src inode content)))"
  shows "\<exists>t js. reader_poll decode h k src w = (Inl (RuntimeError ''DataError''), w\<lparr>w_ips := t, w_jobs := js\<rparr>) \<and>
    ips_ok (w\<lparr>w_ips := t\<rparr>)"
proof -
  let ?off = "if ls_inode src \<noteq> None then Some (ls_byte_offset src) else None"
  obtain chunk where p: "poll_log h server (ls_path src) (ls_inode src) ?off = Inr (Some chunk)"
    and data: "lc_data chunk = region src inode content"
    using poll_served[OF host] chunk_region(1)[OF src] by meson
  let ?parsed = "parsed_of pattern (complete_lines decode (region src inode content))"
  obtain t js where st: "store_events src k ?parsed w = (Inl (RuntimeError ''DataError''), w\<lparr>w_ips := t, w_jobs := js\<rparr>)"
    "ips_ok (w\<lparr>w_ips := t\<rparr>)"
    using store_events_spec[OF ok, of ?parsed src k, unfolded if_not_P[OF bad]] parsed_valid[OF pattern] by blast
  have "reader_poll decode h k src w = (Inl (RuntimeError ''DataError''), w\<lparr>w_ips := t, w_jobs := js\<rparr>)"
    by (simp add: reader_poll_def server p[simplified] p pattern Let_def parse_lines_eq data st(1))
  then show ?thesis using st(2) by blast
qed

section \<open>Following a growing file\<close>

fun poll_rounds :: "(string \<Rightarrow> string) \<Rightarrow> host list \<Rightarrow> pk \<Rightarrow> unit eff" where
  "poll_rounds decode [] k w = (Inr (), w)"
| "poll_rounds decode (h # hs) k w =
     (case get_row k (w_sources w) of
        None \<Rightarrow> (Inl DoesNotExist, w)
      | Some src \<Rightarrow>
          (case reader_poll decode h k src w of
             (Inl e, w') \<Rightarrow> (Inl e, w')
           | (Inr _, w') \<Rightarrow> poll_rounds decode hs k w'))"

text \<open>Successive states of one file that only grows, as the host answers them.\<close>

fun grows :: "server \<Rightarrow> string \<Rightarrow> int \<Rightarrow> string \<Rightarrow> host list \<Rightarrow> bool" where
  "grows server path inode content [] = True"
| "grows server path inode content (h # hs) =
     (prefix content (rh_content h path) \<and> serves h server path inode (rh_content h path)
      \<and> grows server path inode (rh_content h path) hs)"

definition last_content :: "string \<Rightarrow> string \<Rightarrow> host list \<Rightarrow> string" where
  "last_content path content hs = foldl (\<lambda>_ h. rh_content h path) content hs"

lemma grows_prefix: "grows server path i c hs \<Longrightarrow> prefix c (last_content path c hs)"
proof (induction hs arbitrary: c)
  case (Cons h hs)
  then have "prefix c (rh_content h path)" "prefix (rh_content h path) (last_content path (rh_content h path) hs)" by auto
  then show ?case by (simp add: last_content_def)
qed (simp add: last_content_def)

lemma poll_rounds_spec:
  fixes decode :: "string \<Rightarrow> string"
  assumes "hs \<noteq> []" "ips_ok w" "get_row k (w_sources w) = Some src"
    "ls_inode src = Some i" "ls_byte_offset src = int n" "n \<le> length c"
    "get_row (ls_server src) (w_servers w) = Some server"
    "grows server (ls_path src) i c hs" "compiled_pattern (ls_format src) = Inr pattern"
    "list_all storable_line (parsed_of pattern (complete_lines decode (drop n (last_content (ls_path src) c hs))))"
  shows "\<exists>w' es src'. poll_rounds decode hs k w = (Inr (), w') \<and> same_ips w w' \<and>
    w_events w' = add_rows es (w_events w) \<and> get_row k (w_sources w') = Some src' \<and>
    ls_byte_offset src' = int (length (last_content (ls_path src) c hs) -
      length (leftover (drop n (last_content (ls_path src) c hs)))) \<and>
    list_all2 (event_for w' (ls_server src) k)
      (parsed_of pattern (complete_lines decode (drop n (last_content (ls_path src) c hs)))) es"
  using assms
proof (induction hs arbitrary: w src n c)
  case (Cons h hs)
  let ?c1 = "rh_content h (ls_path src)"
  have pre: "prefix c ?c1" and srv: "serves h server (ls_path src) i ?c1" and gr: "grows server (ls_path src) i ?c1 hs"
    using Cons.prems(8) by auto
  have n: "n \<le> length ?c1" using Cons.prems(6) prefix_length_le[OF pre] by simp
  have reg: "region src i ?c1 = drop n ?c1" using Cons.prems(4,5) by (simp add: region_def)
  let ?n1 = "length ?c1 - length (leftover (drop n ?c1))"
  have n1: "?n1 = n + consumed_bytes (drop n ?c1)"
    using n leftover_le[of "drop n ?c1"] by (simp add: consumed_bytes_def)
  let ?L = "last_content (ls_path src) ?c1 hs"
  have last: "last_content (ls_path src) c (h # hs) = ?L" by (simp add: last_content_def)
  obtain e where e: "?L = ?c1 @ e" using grows_prefix[OF gr] by (auto simp: prefix_def)
  have dl: "drop n ?L = drop n ?c1 @ e" using n e by simp
  have "drop ?n1 ?L = drop (consumed_bytes (drop n ?c1)) (drop n ?L)" by (simp only: n1 drop_drop add.commute)
  then have d1: "drop ?n1 ?L = leftover (drop n ?c1) @ e" by (simp only: dl drop_consumed)
  have cl: "complete_lines decode (drop n ?L) = complete_lines decode (drop n ?c1) @ complete_lines decode (drop ?n1 ?L)"
    unfolding dl d1 by (rule complete_lines_append)
  have fits: "list_all storable_line (parsed_of pattern (complete_lines decode (drop n ?c1)))"
    "list_all storable_line (parsed_of pattern (complete_lines decode (drop ?n1 ?L)))"
    using Cons.prems(10) unfolding last cl by simp_all
  obtain summary es w1 src1 where r: "reader_poll decode h k src w = (Inr summary, w1)"
    "w_events w1 = add_rows es (w_events w) \<and> w_servers w1 = w_servers w"
    "ips_ok w1" "same_ips w w1"
    "list_all2 (event_for w1 (ls_server src) k) (parsed_of pattern (complete_lines decode (drop n ?c1))) es"
    "get_row k (w_sources w1) = Some src1" "ls_inode src1 = Some i" "ls_server src1 = ls_server src"
    "ls_path src1 = ls_path src" "ls_format src1 = ls_format src"
    "ls_byte_offset src1 = int (length ?c1) - int (length (leftover (drop n ?c1)))"
    using poll_region_spec[OF Cons.prems(2,3) _ Cons.prems(7) srv Cons.prems(9), of decode] Cons.prems(5) fits(1)
    unfolding reg by auto
  have le: "length (leftover (drop n ?c1)) \<le> length ?c1" using leftover_le[of "drop n ?c1"] by simp
  have off: "ls_byte_offset src1 = int ?n1" using r(11) le by (simp add: of_nat_diff)
  show ?case
  proof (cases "hs = []")
    case True
    then show ?thesis using r(1,2,4,5,6) Cons.prems(3) off
      by (intro exI[of _ w1] exI[of _ es] exI[of _ src1]) (simp add: last_content_def)
  next
    case False
    have srv1: "get_row (ls_server src1) (w_servers w1) = Some server" using r(2,8) Cons.prems(7) by simp
    obtain w' es' src' where IH: "poll_rounds decode hs k w1 = (Inr (), w')" "same_ips w1 w'"
      "w_events w' = add_rows es' (w_events w1)" "get_row k (w_sources w') = Some src'"
      "ls_byte_offset src' = int (length ?L - length (leftover (drop ?n1 ?L)))"
      "list_all2 (event_for w' (ls_server src) k) (parsed_of pattern (complete_lines decode (drop ?n1 ?L))) es'"
      using Cons.IH[OF False r(3) r(6) r(7) off _ srv1, where c = ?c1, unfolded r(8,9,10)] gr Cons.prems(9) fits(2)
      by auto
    have lo: "leftover (drop n ?L) = leftover (drop ?n1 ?L)" unfolding dl d1 by (rule leftover_append)
    have ev: "w_events w' = add_rows (es @ es') (w_events w)"
      using IH(3) r(2) by (simp add: add_rows_def)
    have "list_all2 (event_for w' (ls_server src) k) (parsed_of pattern (complete_lines decode (drop n ?c1))) es"
      using r(5) by (rule list_all2_mono) (rule event_for_mono[OF _ IH(2)])
    then have "list_all2 (event_for w' (ls_server src) k) (parsed_of pattern (complete_lines decode (drop n ?L))) (es @ es')"
      unfolding cl parsed_of_simps by (rule list_all2_appendI) (rule IH(6))
    moreover have "poll_rounds decode (h # hs) k w = (Inr (), w')" using Cons.prems(3) r(1) IH(1) by simp
    ultimately show ?thesis using same_ips_trans[OF r(4) IH(2)] ev IH(4,5) lo last by auto
  qed
qed simp

text \<open>The task of one source, run again and again; what a run raises is logged by its worker.\<close>

fun poll_tasks :: "(string \<Rightarrow> string) \<Rightarrow> host list \<Rightarrow> pk \<Rightarrow> world \<Rightarrow> world" where
  "poll_tasks decode [] k w = w"
| "poll_tasks decode (h # hs) k w = poll_tasks decode hs k (snd (poll_log_source decode h k w))"

definition only_sightings :: "world \<Rightarrow> world \<Rightarrow> bool" where
  "only_sightings w w' \<longleftrightarrow> ips_ok w' \<and> w_events w' = w_events w \<and> w_sources w' = w_sources w \<and> w_servers w' = w_servers w"

lemma poll_task_frame:
  assumes "get_row k (w_sources w) = Some src" "ips_ok w"
    and run: "\<And>v. ips_ok v \<Longrightarrow> w_servers v = w_servers w \<Longrightarrow> only_sightings v (snd (reader_poll decode h k src v))"
  shows "only_sightings w (snd (poll_log_source decode h k w))"
proof -
  let ?body = "\<lambda>w. case reader_poll decode h k src w of (Inl e, w') \<Rightarrow> (Inl e, w') | (Inr _, w') \<Rightarrow> (Inr (), w')"
  have locked: "only_sightings w (snd (skip_if_held (redis_lock key t ?body) w))" for key t
  proof (cases "live key (w_now w) (w_cache w)")
    case True
    then show ?thesis using assms(2) by (simp add: skip_if_held_def redis_lock_held only_sightings_def)
  next
    case False
    let ?v = "w\<lparr>w_cache := (key, w_now w + t) # cache_delete key (w_cache w)\<rparr>"
    obtain r v' where r: "reader_poll decode h k src ?v = (r, v')" by (cases "reader_poll decode h k src ?v")
    have "only_sightings ?v v'" using run[of ?v] assms(2) r by (simp add: ips_ok_def)
    then have "only_sightings w (release key v')" by (simp add: only_sightings_def release_def ips_ok_def)
    moreover have "snd (skip_if_held m v) = snd (m v)" for m :: "unit eff" and v
      by (auto simp: skip_if_held_def split: prod.split sum.split py_exn.split)
    ultimately show ?thesis using r by (cases r) (simp_all add: redis_lock_free[OF False])
  qed
  show ?thesis
    using assms locked by (auto simp: poll_log_source_def only_sightings_def split: option.split)
qed

text \<open>Once the unread part holds a line that does not fit, every later poll of the growing file fails on it.\<close>

lemma poll_tasks_refused:
  fixes decode :: "string \<Rightarrow> string"
  assumes "get_row k (w_sources w0) = Some src" "ls_inode src = Some i" "ls_byte_offset src = int n"
    "get_row (ls_server src) (w_servers w0) = Some server" "compiled_pattern (ls_format src) = Inr pattern"
    "ips_ok w" "w_sources w = w_sources w0" "w_servers w = w_servers w0"
    "n \<le> length c" "grows server (ls_path src) i c hs"
    "\<not> list_all storable_line (parsed_of pattern (complete_lines decode (drop n c)))"
  shows "only_sightings w (poll_tasks decode hs k w) \<and>
    (\<forall>h\<in>set hs. \<forall>v. ips_ok v \<longrightarrow> w_servers v = w_servers w0 \<longrightarrow> fst (reader_poll decode h k src v) = Inl (RuntimeError ''DataError''))"
  using assms(6-11)
proof (induction hs arbitrary: w c)
  case (Cons h hs)
  let ?c1 = "rh_content h (ls_path src)"
  have srv: "serves h server (ls_path src) i ?c1" and gr: "grows server (ls_path src) i ?c1 hs"
    using Cons.prems(5) by auto
  obtain e where e: "?c1 = c @ e" using Cons.prems(5) by (auto simp: prefix_def)
  have bad: "\<not> list_all storable_line (parsed_of pattern (complete_lines decode (drop n ?c1)))"
    using Cons.prems(4,6) complete_lines_append[of decode "drop n c" e] by (simp add: e)
  then have reg: "\<not> list_all storable_line (parsed_of pattern (complete_lines decode (region src i ?c1)))"
    using assms(2,3) by (simp add: region_def)
  have run: "\<exists>t js. reader_poll decode h k src v = (Inl (RuntimeError ''DataError''), v\<lparr>w_ips := t, w_jobs := js\<rparr>) \<and>
      ips_ok (v\<lparr>w_ips := t\<rparr>)" if "ips_ok v" "w_servers v = w_servers w0" for v
    by (rule reader_poll_refused[OF that(1) _ _ srv assms(5) reg]) (use assms(3,4) that(2) in simp_all)
  have frame: "only_sightings v (snd (reader_poll decode h k src v))" if "ips_ok v" "w_servers v = w_servers w" for v
    using run[OF that(1)] that(2) Cons.prems(3) by (auto simp: only_sightings_def ips_ok_def)
  have one: "only_sightings w (snd (poll_log_source decode h k w))"
    by (rule poll_task_frame[OF _ _ frame]) (use assms(1) Cons.prems(1,2) in simp_all)
  let ?w = "snd (poll_log_source decode h k w)"
  have later: "only_sightings ?w (poll_tasks decode hs k ?w) \<and>
    (\<forall>h\<in>set hs. \<forall>v. ips_ok v \<longrightarrow> w_servers v = w_servers w0 \<longrightarrow> fst (reader_poll decode h k src v) = Inl (RuntimeError ''DataError''))"
    by (rule Cons.IH[OF _ _ _ _ gr bad]) (use Cons.prems(2,3,4) one e in \<open>simp_all add: only_sightings_def\<close>)
  have first: "fst (reader_poll decode h k src v) = Inl (RuntimeError ''DataError'')" if "ips_ok v" "w_servers v = w_servers w0" for v
    using run[OF that] by auto
  have "only_sightings w (poll_tasks decode (h # hs) k w)" using one later by (simp add: only_sightings_def)
  then show ?case using later first by simp
qed (simp add: only_sightings_def)

section \<open>Properties\<close>

text \<open>C1: However a growing file is cut into polls, even in the middle of lines, the polls together
  record exactly one event for every complete line that parses, in the order of the file and
  attributed to the row of its address; the offset ends right after the last complete line. Every event has
  to fit its columns (see the last property of this theory).\<close>

theorem tail_exactly_once:
  fixes decode :: "string \<Rightarrow> string"
  assumes "hs \<noteq> []" "ips_ok w" "get_row k (w_sources w) = Some src"
    "ls_inode src = Some i" "ls_byte_offset src = int n" "n \<le> length c"
    "get_row (ls_server src) (w_servers w) = Some server"
    "grows server (ls_path src) i c hs" "compiled_pattern (ls_format src) = Inr pattern"
    and L: "L = last_content (ls_path src) c hs"
    and storable: "list_all storable_line (parsed_of pattern (complete_lines decode (drop n L)))"
  shows "\<exists>w' es src'. poll_rounds decode hs k w = (Inr (), w') \<and>
    row_values (w_events w') = row_values (w_events w) @ es \<and>
    list_all2 (event_for w' (ls_server src) k) (parsed_of pattern (complete_lines decode (drop n L))) es \<and>
    get_row k (w_sources w') = Some src' \<and> ls_byte_offset src' = int (length L - length (leftover (drop n L)))"
  using poll_rounds_spec[OF assms(1-9) storable[unfolded L]] unfolding L by (metis row_values_add_rows)

text \<open>What one poll does, in each situation of its source: never polled (it only marks the end), the
  same file (it continues at the offset) or another inode (it starts over). Every line it read was
  either recorded or counted as an error, and no other source changed.\<close>

lemma poll_reads_region:
  fixes decode :: "string \<Rightarrow> string"
  assumes "ips_ok w" "get_row k (w_sources w) = Some src" "0 \<le> ls_byte_offset src"
    and "get_row (ls_server src) (w_servers w) = Some server"
    and "serves h server (ls_path src) inode content"
    and "compiled_pattern (ls_format src) = Inr pattern"
    and r: "r = (case ls_inode src of None \<Rightarrow> []
      | Some i \<Rightarrow> if i = inode then drop (nat (ls_byte_offset src)) content else content)"
    and storable: "list_all storable_line (parsed_of pattern (complete_lines decode r))"
  shows "\<exists>summary es w' src'. reader_poll decode h k src w = (Inr summary, w') \<and>
    row_values (w_events w') = row_values (w_events w) @ es \<and>
    list_all2 (event_for w' (ls_server src) k) (parsed_of pattern (complete_lines decode r)) es \<and>
    ps_events_created summary = length es \<and>
    ps_events_created summary + ps_parse_errors summary = ps_lines_read summary \<and>
    get_row k (w_sources w') = Some src' \<and> ls_inode src' = Some inode \<and>
    ls_byte_offset src' = int (length content) - int (length (leftover r)) \<and>
    (\<forall>j. j \<noteq> k \<longrightarrow> get_row j (w_sources w') = get_row j (w_sources w))"
proof -
  have reg: "r = region src inode content" by (simp add: r region_def)
  obtain summary es w' src' where s: "reader_poll decode h k src w = (Inr summary, w')"
    "w_events w' = add_rows es (w_events w)"
    "list_all2 (event_for w' (ls_server src) k) (parsed_of pattern (complete_lines decode r)) es"
    "ps_events_created summary = length es"
    "ps_events_created summary + ps_parse_errors summary = ps_lines_read summary"
    "get_row k (w_sources w') = Some src'" "ls_inode src' = Some inode"
    "ls_byte_offset src' = int (length content) - int (length (leftover r))"
    "\<forall>j. j \<noteq> k \<longrightarrow> get_row j (w_sources w') = get_row j (w_sources w)"
    using poll_region_spec[OF assms(1-6), of decode] storable unfolding reg by blast
  have "row_values (w_events w') = row_values (w_events w) @ es" using s(2) by simp
  then show ?thesis using s by blast
qed

text \<open>C38: A file that was truncated in place below the known offset is not read from its new beginning:
  the poll records nothing and moves the offset to the new end, so that what the file holds by then
  is never read.\<close>

theorem truncated_file_is_skipped:
  fixes decode :: "string \<Rightarrow> string"
  assumes "ips_ok w" "get_row k (w_sources w) = Some src" "ls_inode src = Some inode"
    and "get_row (ls_server src) (w_servers w) = Some server"
    and "serves h server (ls_path src) inode content"
    and "compiled_pattern (ls_format src) = Inr pattern"
    and shorter: "int (length content) < ls_byte_offset src"
  shows "\<exists>summary w' src'. reader_poll decode h k src w = (Inr summary, w') \<and>
    row_values (w_events w') = row_values (w_events w) \<and> ps_lines_read summary = 0 \<and>
    get_row k (w_sources w') = Some src' \<and> ls_byte_offset src' = int (length content)"
proof -
  have "0 \<le> ls_byte_offset src" using shorter by simp
  moreover have "region src inode content = []" using assms(3) shorter by (simp add: region_def)
  moreover have "complete_lines decode [] = []" "leftover [] = []" by (simp_all add: complete_lines_def raw_lines_def leftover_def)
  ultimately obtain summary es w' src' where s: "reader_poll decode h k src w = (Inr summary, w')"
    "w_events w' = add_rows es (w_events w)" "es = []" "ps_lines_read summary = 0"
    "get_row k (w_sources w') = Some src'" "ls_byte_offset src' = int (length content)"
    using poll_region_spec[OF assms(1,2) _ assms(4,5,6), of decode] by auto
  have "row_values (w_events w') = row_values (w_events w)" using s(2,3) by simp
  then show ?thesis using s by blast
qed

text \<open>C21: One line that parses but does not fit the columns of an event (a NUL in its host, say, or a byte
  count beyond 63 bits) blocks its source for good: every poll that has it in the unread part raises, and
  however the file grows and however often the task runs, no event is stored and the offset stays.\<close>

theorem unstorable_line_blocks_source:
  fixes decode :: "string \<Rightarrow> string"
  assumes "ips_ok w" "get_row k (w_sources w) = Some src"
    "ls_inode src = Some i" "ls_byte_offset src = int n" "n \<le> length c"
    "get_row (ls_server src) (w_servers w) = Some server"
    "grows server (ls_path src) i c hs" "compiled_pattern (ls_format src) = Inr pattern"
    and line: "p \<in> set (parsed_of pattern (complete_lines decode (drop n c)))" "\<not> storable_line p"
  shows "w_events (poll_tasks decode hs k w) = w_events w \<and>
    get_row k (w_sources (poll_tasks decode hs k w)) = Some src \<and>
    (\<forall>h\<in>set hs. fst (reader_poll decode h k src w) = Inl (RuntimeError ''DataError''))"
proof -
  have bad: "\<not> list_all storable_line (parsed_of pattern (complete_lines decode (drop n c)))"
    using line by (auto simp: list_all_iff)
  show ?thesis
    using poll_tasks_refused[OF assms(2-4,6,8,1) refl refl assms(5,7) bad] assms(1,2) by (simp add: only_sightings_def)
qed

section \<open>A growing file\<close>

definition tail_format :: string where "tail_format = ''$remote_addr [$time_local] $status''"

definition tail_line :: string where "tail_line = ''5.160.0.1 [10/Oct/2025:13:55:36 +0330] 503''"

definition tail_host :: "string \<Rightarrow> host" where
  "tail_host content = example_host
     \<lparr>rh_exec := (\<lambda>_. (0, ''77 '' @ nat_str (length content) @ '' 1700000000'', [])), rh_content := (\<lambda>_. content)\<rparr>"

definition tail_source :: "int \<Rightarrow> log_source" where
  "tail_source offset = (new_source 1 ''/var/log/nginx/access.log'' 0)
     \<lparr>ls_format := tail_format, ls_enabled := True, ls_inode := Some 77, ls_byte_offset := offset\<rparr>"

definition tail_world :: "int \<Rightarrow> world" where
  "tail_world offset = example_world\<lparr>w_sources := add_row (tail_source offset) empty_table\<rparr>"

text \<open>Two lines arrive in two pieces, the second piece starting in the middle of the second line.\<close>

definition tail_hosts :: "host list" where
  "tail_hosts = [tail_host (tail_line @ [newline] @ take 20 tail_line),
                 tail_host (tail_line @ [newline] @ tail_line @ [newline])]"

lemma tail_facts:
  "get_row 1 (w_sources (tail_world n)) = Some (tail_source n)"
  "get_row (ls_server (tail_source n)) (w_servers (tail_world n)) = Some example_server"
  "ls_inode (tail_source n) = Some 77" "ls_byte_offset (tail_source n) = n"
  "ls_path (tail_source n) = ''/var/log/nginx/access.log''" "ls_format (tail_source n) = tail_format"
  by (simp_all add: tail_world_def tail_source_def new_source_def example_world_def get_row_def add_row_def
      insert_row_def empty_table_def)

lemma tail_ips_ok: "ips_ok (tail_world n)"
  by (simp add: ips_ok_def tail_world_def example_world_def empty_world_def rows_unique_def get_row_def empty_table_def
      table_ok_def)

lemma tail_pattern: "\<exists>p. compiled_pattern tail_format = Inr p"
proof -
  have "(case compiled_pattern tail_format of Inr _ \<Rightarrow> True | Inl _ \<Rightarrow> False)" by code_simp
  then show ?thesis by (cases "compiled_pattern tail_format") auto
qed

lemma tail_grows: "grows example_server ''/var/log/nginx/access.log'' 77 [] tail_hosts"
  by code_simp

lemma tail_last: "last_content ''/var/log/nginx/access.log'' [] tail_hosts = tail_line @ [newline] @ tail_line @ [newline]"
  by (simp add: last_content_def tail_hosts_def tail_host_def)

lemma tail_storable:
  assumes "compiled_pattern tail_format = Inr p"
  shows "list_all storable_line (parsed_of p (complete_lines id (tail_line @ [newline] @ tail_line @ [newline])))"
proof -
  have "(case compiled_pattern tail_format of Inl _ \<Rightarrow> False | Inr q \<Rightarrow>
      list_all storable_line (parsed_of q (complete_lines id (tail_line @ [newline] @ tail_line @ [newline]))))" by code_simp
  then show ?thesis by (simp only: assms sum.case)
qed

theorem tail_exactly_once_witness:
  "\<exists>p w' es. compiled_pattern tail_format = Inr p \<and> poll_rounds id tail_hosts 1 (tail_world 0) = (Inr (), w') \<and>
     row_values (w_events w') = es \<and>
     list_all2 (event_for w' 1 1) (parsed_of p (complete_lines id (tail_line @ [newline] @ tail_line @ [newline]))) es"
proof -
  obtain p where p: "compiled_pattern tail_format = Inr p" using tail_pattern by blast
  have hs: "tail_hosts \<noteq> []" by (simp add: tail_hosts_def)
  have ev: "row_values (w_events (tail_world 0)) = []" "ls_server (tail_source 0) = 1"
    by (simp_all add: tail_world_def example_world_def empty_world_def empty_table_def row_values_def
        tail_source_def new_source_def)
  have off: "ls_byte_offset (tail_source 0) = int 0" by (simp add: tail_facts)
  note g = tail_grows[folded tail_facts(5)[of 0]]
  from tail_exactly_once[OF hs tail_ips_ok tail_facts(1) tail_facts(3) off _ tail_facts(2) g
      p[folded tail_facts(6)[of 0]] refl, of id] tail_storable[OF p]
  show ?thesis using p by (simp add: tail_facts tail_last ev) blast
qed

lemma tail_serves: "serves (tail_host tail_line) example_server ''/var/log/nginx/access.log'' 77 tail_line"
  by code_simp

theorem truncated_file_is_skipped_witness:
  "\<exists>summary w' src'. reader_poll id (tail_host tail_line) 1 (tail_source 500) (tail_world 500) = (Inr summary, w') \<and>
     ps_lines_read summary = 0 \<and> get_row 1 (w_sources w') = Some src' \<and> ls_byte_offset src' = 42"
proof -
  obtain p where p: "compiled_pattern tail_format = Inr p" using tail_pattern by blast
  have len: "length tail_line = 42" by (simp add: tail_line_def)
  have off: "int (length tail_line) < ls_byte_offset (tail_source 500)" by (simp add: tail_facts len)
  note s = tail_serves[folded tail_facts(5)[of 500]]
  from truncated_file_is_skipped[OF tail_ips_ok tail_facts(1) tail_facts(3) tail_facts(2) s p[folded tail_facts(6)[of 500]] off, of id]
  show ?thesis by (auto simp: len)
qed

text \<open>A file whose first line got a block of NULs in front, as a crash may leave it, read in the format
  \<open>combined_host\<close>.\<close>

definition torn_line :: string where
  "torn_line = [CHR 0x00, CHR 0x00] @
     ''example.org 5.160.0.1 - - [10/Oct/2025:13:55:36 +0330] '' @
     [CHR 0x22] @ ''GET / HTTP/1.1'' @ [CHR 0x22] @ '' 200 5 '' @ [CHR 0x22] @ ''-'' @ [CHR 0x22, CHR '' '', CHR 0x22] @ ''-'' @ [CHR 0x22]"

definition torn_source :: log_source where
  "torn_source = (tail_source 0)\<lparr>ls_format := ''combined_host''\<rparr>"

definition torn_world :: world where
  "torn_world = example_world\<lparr>w_sources := add_row torn_source empty_table\<rparr>"

definition torn_hosts :: "host list" where
  "torn_hosts = [tail_host (torn_line @ [newline]), tail_host (torn_line @ [newline] @ torn_line @ [newline])]"

lemma torn_facts:
  "get_row 1 (w_sources torn_world) = Some torn_source"
  "w_servers torn_world = w_servers (tail_world 0)" "w_ips torn_world = w_ips (tail_world 0)"
  by (simp_all add: torn_world_def tail_world_def get_row_def add_row_def insert_row_def empty_table_def)

lemma torn_unstorable:
  "case compiled_pattern ''combined_host'' of Inl _ \<Rightarrow> False
   | Inr p \<Rightarrow> (case parsed_of p (complete_lines id (torn_line @ [newline])) of [l] \<Rightarrow> \<not> storable_line l | _ \<Rightarrow> False)"
  by code_simp

lemma torn_grows: "grows example_server ''/var/log/nginx/access.log'' 77 (torn_line @ [newline]) torn_hosts"
  by code_simp

theorem unstorable_line_blocks_source_witness:
  "w_events (poll_tasks id torn_hosts 1 torn_world) = w_events torn_world \<and> torn_hosts \<noteq> [] \<and>
   (\<exists>src. get_row 1 (w_sources (poll_tasks id torn_hosts 1 torn_world)) = Some src \<and> ls_byte_offset src = 0)"
proof -
  obtain p l where p: "compiled_pattern ''combined_host'' = Inr p"
    "parsed_of p (complete_lines id (torn_line @ [newline])) = [l]" "\<not> storable_line l"
    using torn_unstorable by (auto split: sum.splits list.splits)
  have ok: "ips_ok torn_world" using tail_ips_ok[of 0] by (simp add: ips_ok_def torn_facts)
  have src: "ls_inode torn_source = Some 77" "ls_byte_offset torn_source = int 0" "ls_path torn_source = ''/var/log/nginx/access.log''"
    "ls_server torn_source = ls_server (tail_source 0)" "ls_format torn_source = ''combined_host''"
    by (simp_all add: torn_source_def tail_facts)
  have server: "get_row (ls_server torn_source) (w_servers torn_world) = Some example_server"
    unfolding src(4) torn_facts(2) by (rule tail_facts(2))
  have line: "l \<in> set (parsed_of p (complete_lines id (drop 0 (torn_line @ [newline]))))" using p(2) by simp
  from unstorable_line_blocks_source[OF ok torn_facts(1) src(1,2) _ server torn_grows[folded src(3)]
      p(1)[folded src(5)] line p(3)]
  show ?thesis using src(2) by (simp add: torn_hosts_def)
qed

end
