(* ===== verification/Whois_Parser.thy ===== *)
theory Whois_Parser
  imports World Py_Regex
begin

text \<open>
  \<open>apps/whois/parsers.py\<close>: reading "key: value" lines of a WHOIS response of any registry, and picking
  the canonical fields out of them.
\<close>

section \<open>Lines\<close>

definition letters :: string where
  "letters = ''ABCDEFGHIJKLMNOPQRSTUVWXYZabcdefghijklmnopqrstuvwxyz''"

definition key_tail :: string where
  "key_tail = letters @ ''0123456789 _-''"

definition key_re :: re where
  "key_re = cats [Grp ''1'' (Cat (one (OneOf letters)) (star (OneOf key_tail))), Lit (CHR '':''),
     Rep Space 0 (Some 1), Grp ''2'' (star AnyChar), Eol]"

definition normalize_key :: "string \<Rightarrow> string" where
  "normalize_key key = replace_char (CHR ''-'') (CHR ''_'') (replace_char (CHR '' '') (CHR ''_'') (py_lower (py_strip key)))"

definition the_group :: "captures \<Rightarrow> string \<Rightarrow> string" where
  "the_group cs g = (case map_of cs g of Some v \<Rightarrow> v | None \<Rightarrow> [])"

definition field_of_line :: "string \<Rightarrow> (string \<times> string) option" where
  "field_of_line raw_line =
     (let line = py_strip raw_line in
      if line = [] \<or> starts_with ''%'' line \<or> starts_with ''#'' line then None
      else (case re_match key_re line of
              None \<Rightarrow> None
            | Some (_, cs) \<Rightarrow>
                (let key = normalize_key (the_group cs ''1''); v = py_strip (the_group cs ''2'')
                 in if key = [] \<or> v = [] then None else Some (key, v))))"

text \<open>\<open>fields[key].append(value)\<close> on a \<open>defaultdict(list)\<close>.\<close>

definition add_value :: "string \<Rightarrow> string \<Rightarrow> fields \<Rightarrow> fields" where
  "add_value key v d =
     (if key \<in> fst ` set d then map (\<lambda>(k, vs). (k, if k = key then vs @ [v] else vs)) d else d @ [(key, [v])])"

fun collect_fields :: "string list \<Rightarrow> fields \<Rightarrow> fields" where
  "collect_fields [] d = d"
| "collect_fields (line # rest) d =
     collect_fields rest (case field_of_line line of None \<Rightarrow> d | Some (k, v) \<Rightarrow> add_value k v d)"

definition parse_generic :: "string \<Rightarrow> fields" where
  "parse_generic raw = collect_fields (splitlines raw) []"

section \<open>Known fields\<close>

definition field_aliases :: "(string \<times> string list) list" where
  "field_aliases =
     [(''inetnum'', [''inetnum'', ''netrange'', ''cidr'', ''inet6num'']),
      (''netname'', [''netname'']),
      (''country'', [''country'']),
      (''organization'', [''orgname'', ''org_name'', ''organization'', ''owner'', ''org'']),
      (''descr'', [''descr'']),
      (''origin'', [''origin'']),
      (''route'', [''route'', ''route6'']),
      (''mnt_by'', [''mnt_by'']),
      (''abuse_email'', [''abuse_mailbox'', ''orgabuseemail'', ''abuse_email''])]"

fun first_value :: "fields \<Rightarrow> string list \<Rightarrow> string option" where
  "first_value parsed [] = None"
| "first_value parsed (a # as) =
     (case map_of parsed a of Some (v # vs) \<Rightarrow> Some v | _ \<Rightarrow> first_value parsed as)"

fun known_of :: "fields \<Rightarrow> (string \<times> string list) list \<Rightarrow> (string \<times> string) list" where
  "known_of parsed [] = []"
| "known_of parsed ((canonical, aliases) # rest) =
     (case first_value parsed aliases of
        None \<Rightarrow> known_of parsed rest
      | Some v \<Rightarrow> (canonical, v) # known_of parsed rest)"

definition extract_known_fields :: "fields \<Rightarrow> (string \<times> string) list" where
  "extract_known_fields parsed = known_of parsed field_aliases"

definition whois_parse :: "string \<Rightarrow> fields \<times> (string \<times> string) list" where
  "whois_parse raw = (let generic = parse_generic raw in (generic, extract_known_fields generic))"

section \<open>What the parser keeps\<close>

text \<open>Reference: the values of a key are those of its lines, in their order.\<close>

definition field_lines :: "string \<Rightarrow> (string \<times> string) list" where
  "field_lines raw = concat (map (\<lambda>l. case field_of_line l of None \<Rightarrow> [] | Some f \<Rightarrow> [f]) (splitlines raw))"

definition values_of :: "string \<Rightarrow> (string \<times> string) list \<Rightarrow> string list" where
  "values_of key fs = map snd (filter (\<lambda>(k, _). k = key) fs)"

lemma map_of_updated_lines:
  "map_of (map (\<lambda>(name, vs). (name, upd name vs)) d) key = map_option (upd key) (map_of d key)"
  by (induction d) auto

lemma map_of_add_value:
  "map_of (add_value key v d) k = (if k = key then Some ((case map_of d key of None \<Rightarrow> [] | Some vs \<Rightarrow> vs) @ [v]) else map_of d k)"
proof (cases "key \<in> fst ` set d")
  case True
  then obtain vs where vs: "map_of d key = Some vs" by (cases "map_of d key") (auto simp: map_of_eq_None_iff)
  then show ?thesis
    using True map_of_updated_lines[of "\<lambda>k vs. if k = key then vs @ [v] else vs" d k]
    by (cases "k = key") (simp_all add: add_value_def option.map_ident)
next
  case False
  then have n: "map_of d key = None" by (simp add: map_of_eq_None_iff)
  have "add_value key v d = d @ [(key, [v])]" using False unfolding add_value_def by (rule if_not_P)
  then show ?thesis using n by (cases "k = key"; cases "map_of d k") (simp_all add: map_add_def)
qed

lemma keys_add_value: "map fst (add_value key v d) = (if key \<in> fst ` set d then map fst d else map fst d @ [key])"
proof -
  have "map fst (map (\<lambda>(k, vs). (k, if k = key then vs @ [v] else vs)) d) = map fst d" by (induction d) auto
  then show ?thesis unfolding add_value_def by (simp only: if_distrib[of "map fst"]) simp
qed

lemma distinct_add_value: "distinct (map fst d) \<Longrightarrow> distinct (map fst (add_value key v d))"
  unfolding keys_add_value by simp

lemma collect_fields_spec:
  "map_of (collect_fields ls d) k =
     (let vs = values_of k (concat (map (\<lambda>l. case field_of_line l of None \<Rightarrow> [] | Some f \<Rightarrow> [f]) ls))
      in case map_of d k of None \<Rightarrow> if vs = [] then None else Some vs | Some us \<Rightarrow> Some (us @ vs))"
proof (induction ls arbitrary: d)
  case Nil
  then show ?case by (simp add: values_of_def split: option.splits)
next
  case (Cons l ls)
  show ?case
  proof (cases "field_of_line l")
    case None
    then show ?thesis using Cons.IH by simp
  next
    case (Some f)
    then obtain key v where f: "field_of_line l = Some (key, v)" by (cases f) auto
    show ?thesis
      using f by (auto simp: Cons.IH map_of_add_value values_of_def Let_def split: option.splits)
  qed
qed

lemma distinct_collect_fields: "distinct (map fst d) \<Longrightarrow> distinct (map fst (collect_fields ls d))"
  by (induction ls arbitrary: d) (auto simp: distinct_add_value split: option.splits)

text \<open>Generic parsing is grouping: every key occurs once, with exactly the values of its lines in their
  order, whatever other lines stand in between.\<close>

lemma parse_generic_groups:
  "distinct (map fst (parse_generic raw)) \<and>
   map_of (parse_generic raw) k = (let vs = values_of k (field_lines raw) in if vs = [] then None else Some vs)"
  by (simp add: parse_generic_def distinct_collect_fields collect_fields_spec field_lines_def)

section \<open>Reading one line\<close>

lemma key_tail_colon: "\<not> in_cset (OneOf key_tail) (CHR '':'')"
  by (simp add: key_tail_def letters_def)

lemma letters_tail: "c \<in> set letters \<Longrightarrow> c \<in> set key_tail"
  by (simp add: key_tail_def)

definition key_ok :: "string \<Rightarrow> bool" where
  "key_ok key = (case key of [] \<Rightarrow> False | c # cs \<Rightarrow> c \<in> set letters \<and> list_all (in_cset (OneOf key_tail)) cs)"

definition value_ok :: "string \<Rightarrow> bool" where
  "value_ok v \<longleftrightarrow> v \<noteq> [] \<and> \<not> py_ws (hd v) \<and> \<not> py_ws (last v) \<and> list_all (\<lambda>c. \<not> line_break c) v"

lemma letters_plain: "list_all (\<lambda>c. \<not> py_ws c \<and> c \<noteq> CHR ''%'' \<and> c \<noteq> CHR ''#'') letters"
  by code_simp

lemma key_tail_plain: "list_all (\<lambda>c. \<not> line_break c) key_tail"
  by code_simp

lemma break_newline: "\<not> line_break c \<Longrightarrow> c \<noteq> CHR 0x0A"
  by (auto simp: line_break_def cp_def)

lemma key_re_rendered:
  assumes k: "key_ok key" and v: "CHR 0x0A \<notin> set v" "v \<noteq> []"
  shows "\<exists>s cs. re_match key_re (key @ '': '' @ v) = Some (s, cs) \<and> the_group cs ''1'' = key \<and> the_group cs ''2'' = v"
proof -
  obtain c cs where key: "key = c # cs" "c \<in> set letters" "list_all (in_cset (OneOf key_tail)) cs"
    using k by (cases key) (auto simp: key_ok_def)
  let ?rest = "CHR '':'' # CHR '' '' # v"
  define after where "after = cats [Lit (CHR '':''), Rep Space 0 (Some 1), Grp ''2'' (star AnyChar), Eol]"
  have one: "rep_lengths (OneOf letters) 1 (Some 1) (c # cs @ ?rest) = [1]"
    using key(2) by (simp add: rep_lengths_def Let_def)
  have lens: "rep_lengths (OneOf key_tail) 0 None (cs @ ?rest) = length cs # rev [0..<length cs]"
    using rep_lengths_run[of "OneOf key_tail" cs ?rest None 0] key(3) key_tail_colon by simp
  have g1: "successes (Grp ''1'' (Cat (one (OneOf letters)) (star (OneOf key_tail)))) (key @ '': '' @ v) [] =
      map (\<lambda>n. (drop n (cs @ ?rest), [(''1'', take (length (key @ '': '' @ v) - length (drop n (cs @ ?rest))) (key @ '': '' @ v))]))
        (length cs # rev [0..<length cs])"
    using one lens key(1) by (simp add: one_def star_def comp_def)
  have short: "successes after (drop n (cs @ ?rest)) g = []" if "n < length cs" for n g
  proof -
    have "drop n (cs @ ?rest) = cs ! n # drop (Suc n) cs @ ?rest" using that by (simp add: Cons_nth_drop_Suc)
    moreover have "cs ! n \<noteq> CHR '':''" using key(3) key_tail_colon that by (auto simp: list_all_length)
    ultimately show ?thesis by (simp add: after_def)
  qed
  have any: "rep_lengths AnyChar 0 None v = length v # rev [0..<length v]"
    using rep_lengths_run[of AnyChar v "[]" None 0] v(1) by (auto simp: list_all_iff)
  have sp: "rep_lengths Space 0 (Some 1) (CHR '' '' # v) = [1, 0]"
    by (simp add: rep_lengths_def Let_def py_ws_def cp_def upt_rec)
  have long: "\<exists>xs. successes after ?rest g = ([], (''2'', v) # g) # xs" for g
    using sp any by (simp add: after_def star_def comp_def)
  define g where "g = [(''1'', key)]"
  have len: "length (key @ '': '' @ v) - length ?rest = length key" "take (length key) (key @ '': '' @ v) = key" by simp_all
  obtain xs where xs: "successes after ?rest g = ([], (''2'', v) # g) # xs" using long by blast
  have kr: "key_re = Cat (Grp ''1'' (Cat (one (OneOf letters)) (star (OneOf key_tail)))) after"
    by (simp add: key_re_def after_def)
  define G where "G = (\<lambda>n. [(''1'', take (length (key @ '': '' @ v) - length (drop n (cs @ ?rest))) (key @ '': '' @ v))])"
  have G: "G (length cs) = g" using key(1) by (simp add: G_def g_def)
  have "successes key_re (key @ '': '' @ v) [] =
      concat (map (\<lambda>n. successes after (drop n (cs @ ?rest)) (G n)) (length cs # rev [0..<length cs]))"
    unfolding kr successes.simps(4) g1 G_def by (simp only: map_map comp_def split)
  also have "\<dots> = successes after ?rest g @ concat (map (\<lambda>n. successes after (drop n (cs @ ?rest)) (G n)) (rev [0..<length cs]))"
    using G by simp
  also have "\<dots> = ([], (''2'', v) # g) # xs"
    using xs short by (simp add: concat_eq_Nil_conv)
  finally show ?thesis by (simp add: re_match_def g_def the_group_def)
qed

lemma field_of_line_rendered:
  assumes "key_ok key" "value_ok v"
  shows "field_of_line (key @ '': '' @ v) = Some (normalize_key key, v)"
proof -
  obtain c cs where key: "key = c # cs" "c \<in> set letters" using assms(1) by (cases key) (auto simp: key_ok_def)
  have c: "\<not> py_ws c" "c \<noteq> CHR ''%''" "c \<noteq> CHR ''#''" using letters_plain key(2) by (auto simp: list_all_iff)
  have v: "v \<noteq> []" "\<not> py_ws (hd v)" "\<not> py_ws (last v)" "CHR 0x0A \<notin> set v"
    using assms(2) break_newline by (auto simp: value_ok_def list_all_iff)
  have strip: "py_strip (key @ '': '' @ v) = key @ '': '' @ v"
    using key c v by (intro py_strip_id) simp
  have sv: "py_strip v = v" using v by (intro py_strip_id) simp
  obtain s g where m: "re_match key_re (key @ '': '' @ v) = Some (s, g)" "the_group g ''1'' = key" "the_group g ''2'' = v"
    using key_re_rendered[OF assms(1) v(4,1)] by blast
  have "c \<in> set (py_strip key)" using key c by (intro py_strip_keeps) simp_all
  moreover have "length (normalize_key key) = length (py_strip key)"
  proof -
    have "length (replace_char a b s) = length s" for a b s by (induction s) auto
    then show ?thesis by (simp add: normalize_key_def py_lower_def)
  qed
  ultimately have "normalize_key key \<noteq> []" by force
  then show ?thesis using m strip sv key c v by (simp add: field_of_line_def starts_with_def)
qed

definition rendered_response :: "(string \<times> string) list \<Rightarrow> string" where
  "rendered_response fs = concat (map (\<lambda>(k, v). k @ '': '' @ v @ [CHR 0x0A]) fs)"

lemma splitlines_aux_line:
  "list_all (\<lambda>c. \<not> line_break c) l \<Longrightarrow> splitlines_aux acc (l @ CHR 0x0A # rest) = (rev acc @ l) # splitlines_aux [] rest"
proof (induction l arbitrary: acc)
  case Nil
  then show ?case by (simp add: line_break_def cp_def)
next
  case (Cons c l)
  then have "c \<noteq> CHR 0x0D" by (auto simp: line_break_def cp_def)
  then show ?case using Cons by simp
qed

lemma field_lines_rendered:
  assumes "\<forall>(k, v)\<in>set fs. key_ok k \<and> value_ok v"
  shows "field_lines (rendered_response fs) = map (\<lambda>(k, v). (normalize_key k, v)) fs"
  using assms
proof (induction fs)
  case Nil
  then show ?case by (simp add: field_lines_def rendered_response_def splitlines_def)
next
  case (Cons f fs)
  obtain k v where f: "f = (k, v)" by (cases f)
  have kv: "key_ok k" "value_ok v" using Cons.prems f by auto
  have lb: "\<not> line_break (CHR '':'')" "\<not> line_break (CHR '' '')" by (simp_all add: line_break_def cp_def)
  have "list_all (\<lambda>c. \<not> line_break c) letters" by code_simp
  then have "list_all (\<lambda>c. \<not> line_break c) (k @ '': '' @ v)"
    using kv key_tail_plain lb by (auto simp: key_ok_def value_ok_def list_all_iff split: list.splits)
  then have "splitlines (rendered_response (f # fs)) = (k @ '': '' @ v) # splitlines (rendered_response fs)"
    using splitlines_aux_line[of "k @ '': '' @ v" "[]" "rendered_response fs"]
    by (simp add: splitlines_def rendered_response_def f)
  then show ?case
    using Cons field_of_line_rendered[OF kv] f by (simp add: field_lines_def)
qed

text \<open>A response made of "key: value" lines, in any order and with repeated keys, parses to a dictionary whose
  entry for a key is the list of the values rendered under any spelling of it.\<close>

lemma whois_response_roundtrip:
  assumes "\<forall>(k, v)\<in>set fs. key_ok k \<and> value_ok v"
  shows "map_of (parse_generic (rendered_response fs)) key =
    (let vs = map snd (filter (\<lambda>(k, _). normalize_key k = key) fs) in if vs = [] then None else Some vs)"
proof -
  have "values_of key (map (\<lambda>(k, v). (normalize_key k, v)) fs) = map snd (filter (\<lambda>(k, _). normalize_key k = key) fs)"
    by (induction fs) (auto simp: values_of_def)
  then show ?thesis
    by (simp add: parse_generic_def collect_fields_spec field_lines_def[symmetric] field_lines_rendered[OF assms])
qed

lemma whois_response_roundtrip_example:
  "map_of (parse_generic (rendered_response [(''netname'', ''TIC''), (''mnt-by'', ''A''), (''MNT-BY'', ''B: C'')])) ''mnt_by'' =
    Some [''A'', ''B: C'']"
proof -
  have ok: "\<forall>(k, v)\<in>set [(''netname'', ''TIC''), (''mnt-by'', ''A''), (''MNT-BY'', ''B: C'')]. key_ok k \<and> value_ok v"
    unfolding list_all_iff[symmetric] by code_simp
  have n: "map snd (filter (\<lambda>(k, _). normalize_key k = ''mnt_by'') [(''netname'', ''TIC''), (''mnt-by'', ''A''), (''MNT-BY'', ''B: C'')])
      = [''A'', ''B: C'']" by code_simp
  show ?thesis unfolding whois_response_roundtrip[OF ok] n by simp
qed


end
