(* ===== verification/Py_Sha256.thy ===== *)
theory Py_Sha256
  imports Py_Prelude "HOL-Library.Word"
begin

unbundle bit_operations_syntax

text \<open>
  \<open>hashlib.sha256(s.encode("utf-8", errors="replace")).hexdigest()\<close>, which the WHOIS service stores
  beside every response: UTF-8 of the modelled code points, the SHA-256 compression on 32-bit words,
  and the digest in hexadecimal.
\<close>

definition utf8 :: "string \<Rightarrow> nat list" where
  "utf8 s = concat (map (\<lambda>c. if cp c < 128 then [cp c] else [192 + cp c div 64, 128 + cp c mod 64]) s)"

text \<open>The two tables of the standard, in decimal.\<close>

definition sha_initial :: "32 word list" where
  "sha_initial = [
    1779033703, 3144134277, 1013904242, 2773480762, 1359893119, 2600822924, 528734635, 1541459225]"

definition sha_constants :: "32 word list" where
  "sha_constants = [
    1116352408, 1899447441, 3049323471, 3921009573, 961987163, 1508970993, 2453635748, 2870763221,
    3624381080, 310598401, 607225278, 1426881987, 1925078388, 2162078206, 2614888103, 3248222580,
    3835390401, 4022224774, 264347078, 604807628, 770255983, 1249150122, 1555081692, 1996064986,
    2554220882, 2821834349, 2952996808, 3210313671, 3336571891, 3584528711, 113926993, 338241895,
    666307205, 773529912, 1294757372, 1396182291, 1695183700, 1986661051, 2177026350, 2456956037,
    2730485921, 2820302411, 3259730800, 3345764771, 3516065817, 3600352804, 4094571909, 275423344,
    430227734, 506948616, 659060556, 883997877, 958139571, 1322822218, 1537002063, 1747873779,
    1955562222, 2024104815, 2227730452, 2361852424, 2428436474, 2756734187, 3204031479, 3329325298]"

definition sha_pad :: "nat list \<Rightarrow> nat list" where
  "sha_pad bs =
     (let n = length bs; z = (119 - n mod 64) mod 64
      in bs @ [128] @ replicate z 0 @ map (\<lambda>i. (8 * n) div 256 ^ (7 - i) mod 256) [0..<8])"

definition word_of_bytes :: "nat list \<Rightarrow> 32 word" where
  "word_of_bytes bs = word_of_nat (foldl (\<lambda>v b. v * 256 + b) 0 bs)"

fun chunks_of :: "nat \<Rightarrow> nat \<Rightarrow> 'a list \<Rightarrow> 'a list list" where
  "chunks_of 0 n xs = []"
| "chunks_of (Suc k) n xs = take n xs # chunks_of k n (drop n xs)"

definition sha_schedule_step :: "32 word list \<Rightarrow> 32 word list" where
  "sha_schedule_step ws =
     (let a = ws ! (length ws - 15); b = ws ! (length ws - 2);
          s0 = word_rotr 7 a XOR word_rotr 18 a XOR drop_bit 3 a;
          s1 = word_rotr 17 b XOR word_rotr 19 b XOR drop_bit 10 b
      in ws @ [ws ! (length ws - 16) + s0 + ws ! (length ws - 7) + s1])"

definition sha_schedule :: "nat list \<Rightarrow> 32 word list" where
  "sha_schedule block = (sha_schedule_step ^^ 48) (map word_of_bytes (chunks_of 16 4 block))"

fun sha_round :: "32 word list \<Rightarrow> 32 word \<times> 32 word \<Rightarrow> 32 word list" where
  "sha_round [a, b, c, d, e, f, g, h] (k, w) =
     (let s1 = word_rotr 6 e XOR word_rotr 11 e XOR word_rotr 25 e;
          ch = (e AND f) XOR ((NOT e) AND g);
          t1 = h + s1 + ch + k + w;
          s0 = word_rotr 2 a XOR word_rotr 13 a XOR word_rotr 22 a;
          maj = (a AND b) XOR (a AND c) XOR (b AND c);
          t2 = s0 + maj
      in [t1 + t2, a, b, c, d + t1, e, f, g])"
| "sha_round hs _ = hs"

definition sha_block :: "32 word list \<Rightarrow> nat list \<Rightarrow> 32 word list" where
  "sha_block hs block = map2 (+) hs (foldl sha_round hs (zip sha_constants (sha_schedule block)))"

definition hex_digits :: "nat \<Rightarrow> nat \<Rightarrow> string" where
  "hex_digits k n =
     map (\<lambda>i. (let d = n div 16 ^ (k - 1 - i) mod 16 in if d < 10 then char_of (48 + d) else char_of (87 + d))) [0..<k]"

definition sha256_hex :: "string \<Rightarrow> string" where
  "sha256_hex s =
     (let bs = sha_pad (utf8 s)
      in concat (map (\<lambda>w. hex_digits 8 (unat w)) (foldl sha_block sha_initial (chunks_of (length bs div 64) 64 bs))))"

section \<open>The digest is 64 hexadecimal characters\<close>

lemma length_sha_round: "length hs = 8 \<Longrightarrow> length (sha_round hs kw) = 8"
  by (induction hs kw rule: sha_round.induct) (auto simp: Let_def)

lemma length_sha_rounds: "length hs = 8 \<Longrightarrow> length (foldl sha_round hs kws) = 8"
  by (induction kws arbitrary: hs) (auto simp: length_sha_round)

lemma length_sha_blocks: "length hs = 8 \<Longrightarrow> length (foldl sha_block hs bs) = 8"
  by (induction bs arbitrary: hs) (auto simp: sha_block_def length_sha_rounds)

lemma length_sha256_hex: "length (sha256_hex s) = 64"
proof -
  have "length (concat (map (\<lambda>w. hex_digits 8 (unat w)) ws)) = 8 * length ws" for ws :: "32 word list"
    by (induction ws) (auto simp: hex_digits_def)
  moreover have "length sha_initial = 8" by (simp add: sha_initial_def)
  ultimately show ?thesis by (simp add: sha256_hex_def Let_def length_sha_blocks)
qed

end
