(* ===== verification/Whois_Tasks.thy ===== *)
theory Whois_Tasks
  imports Whois_Parser Ip_Service Py_Sha256
begin

text \<open>
  \<open>apps/whois/services.py\<close> and \<open>apps/whois/tasks.py\<close>: running the whois binary, and the task that looks
  one address up, with its freshness rule, its lock, its retries and what it writes. The file system
  and the processes of the machine are a parameter: what exists, and how a run of a command ends.
\<close>

section \<open>The service\<close>

text \<open>How \<open>subprocess.run(..., text=True)\<close> ends; output that is not valid text raises UnicodeDecodeError,
  a \<open>ValueError\<close>.\<close>

datatype process_outcome =
    Timed_out
  | Os_error string
  | Undecodable
  | Completed (proc_stdout: string) (proc_stderr: string) (proc_returncode: int)

record whois_host =
  wh_exists :: "string \<Rightarrow> bool"
  wh_which :: "string option"
  wh_run :: "string list \<Rightarrow> process_outcome"

record whois_result =
  wl_success :: bool
  wl_raw_response :: string
  wl_error :: string
  wl_retryable :: bool

definition whois_error :: "string \<Rightarrow> bool \<Rightarrow> whois_result" where
  "whois_error msg again = \<lparr>wl_success = False, wl_raw_response = [], wl_error = msg, wl_retryable = again\<rparr>"

definition resolve_binary :: "whois_host \<Rightarrow> string \<Rightarrow> string" where
  "resolve_binary h configured =
     (if wh_exists h configured then configured
      else (case wh_which h of Some found \<Rightarrow> if found \<noteq> [] then found else configured | None \<Rightarrow> configured))"

definition whois_lookup :: "whois_host \<Rightarrow> settings \<Rightarrow> string \<Rightarrow> whois_result res" where
  "whois_lookup h cfg address =
     (let binary = resolve_binary h (st_whois_binary cfg) in
      if ip_address address = None then Inr (whois_error (''Invalid IP address: '' @ py_repr address) False)
      else if \<not> wh_exists h binary then
        Inr (whois_error (''whois binary not found at '' @ py_repr binary @ '' (set WHOIS_BINARY)'') False)
      else (case wh_run h [binary, address] of
              Timed_out \<Rightarrow> Inr (whois_error (''whois timed out after '' @ int_str (st_whois_timeout cfg) @ ''s'') True)
            | Os_error msg \<Rightarrow> Inr (whois_error msg True)
            | Undecodable \<Rightarrow> Inl ValueError
            | Completed out err code \<Rightarrow>
                if py_strip out = [] then
                  Inr (whois_error (if py_strip err \<noteq> [] then py_strip err
                         else ''whois exited '' @ int_str code @ '' with no output'') False)
                else Inr \<lparr>wl_success = True, wl_raw_response = out, wl_error = [], wl_retryable = False\<rparr>))"

definition response_hash :: "string \<Rightarrow> string" where
  "response_hash raw = sha256_hex raw"

section \<open>Fields of the address\<close>

definition asn_re :: re where
  "asn_re = cats [one (OneOf ''Aa''), one (OneOf ''Ss''), Grp ''1'' (plus Digit)]"

text \<open>\<open>int()\<close> refuses text of more than 4300 digits.\<close>

definition parse_asn :: "string \<Rightarrow> int option res" where
  "parse_asn origin =
     (case re_search asn_re origin of
        None \<Rightarrow> Inr None
      | Some (_, cs) \<Rightarrow> (case py_int (the_group cs ''1'') of None \<Rightarrow> Inl ValueError | Some n \<Rightarrow> Inr (Some n)))"

definition referral_keys :: "string list" where
  "referral_keys = [''referralserver'', ''whois'', ''refer'']"

definition guess_whois_server :: "fields \<Rightarrow> string" where
  "guess_whois_server generic = (case first_value generic referral_keys of None \<Rightarrow> [] | Some v \<Rightarrow> take 255 v)"

definition range_to_cidr :: "ipaddr \<Rightarrow> ipaddr \<Rightarrow> string option res" where
  "range_to_cidr a b =
     (case summarize_address_range a b of
        Inl ValueError \<Rightarrow> Inr None
      | Inl e \<Rightarrow> Inl e
      | Inr blocks \<Rightarrow> Inr (case blocks of [] \<Rightarrow> None | n # _ \<Rightarrow> Some (net_str n)))"

definition inetnum_to_cidr :: "string \<Rightarrow> string option res" where
  "inetnum_to_cidr raw =
     (let inetnum = py_strip raw in
      if CHR ''/'' \<in> set inetnum then Inr (map_option net_str (ip_network inetnum))
      else if CHR ''-'' \<in> set inetnum then
        (let (start_str, _, end_str) = py_partition (CHR ''-'') inetnum
         in case ip_address (py_strip start_str) of
              None \<Rightarrow> Inr None
            | Some a \<Rightarrow> (case ip_address (py_strip end_str) of None \<Rightarrow> Inr None | Some b \<Rightarrow> range_to_cidr a b))
      else Inr None)"

section \<open>The task\<close>

definition max_retries :: nat where "max_retries = 3"

definition known_field :: "(string \<times> string) list \<Rightarrow> string \<Rightarrow> string" where
  "known_field known key = (case map_of known key of Some v \<Rightarrow> v | None \<Rightarrow> [])"

definition next_whois_check :: "world \<Rightarrow> time" where
  "next_whois_check w = w_now w + days (st_whois_cache_days (w_settings w))"

text \<open>The two ways a lookup is written to the address.\<close>

definition lookup_failed :: "string \<Rightarrow> world \<Rightarrow> ip_row \<Rightarrow> ip_row" where
  "lookup_failed msg w r =
     r\<lparr>ia_whois_status := ERROR, ia_whois_error := msg, ia_whois_checked_at := Some (w_now w),
       ia_whois_next_check_at := Some (next_whois_check w), ia_updated_at := w_now w\<rparr>"

definition lookup_answered ::
  "(string \<times> string) list \<Rightarrow> int option \<Rightarrow> string option \<Rightarrow> world \<Rightarrow> ip_row \<Rightarrow> ip_row" where
  "lookup_answered known asn cidr w r =
     r\<lparr>ia_whois_status := OK, ia_whois_error := [], ia_whois_checked_at := Some (w_now w),
       ia_whois_next_check_at := Some (next_whois_check w),
       ia_whois_country := take 2 (known_field known ''country''),
       ia_organization := take 255 (known_field known ''organization''),
       ia_network := take 255 (case map_of known ''netname'' of Some v \<Rightarrow> v | None \<Rightarrow> known_field known ''inetnum''),
       ia_asn := asn, ia_cidr := cidr, ia_updated_at := w_now w\<rparr>"

definition whois_row :: "pk \<Rightarrow> fields \<Rightarrow> string \<Rightarrow> time \<Rightarrow> whois_record" where
  "whois_row k generic raw now =
     \<lparr>wr_ip = k, wr_queried_at = now, wr_whois_server = guess_whois_server generic, wr_raw_response = raw,
      wr_parsed_data = generic, wr_response_hash = response_hash raw, wr_created_at = now\<rparr>"

text \<open>The ASN and network columns after an answer: kept when the answer has no such field. An ASN beyond the
  column's range is refused by the database.\<close>

definition answered_asn :: "(string \<times> string) list \<Rightarrow> int option \<Rightarrow> int option res" where
  "answered_asn known old =
     (let origin = known_field known ''origin'' in if origin \<noteq> [] then parse_asn origin else Inr old)"

definition answered_cidr :: "(string \<times> string) list \<Rightarrow> string option \<Rightarrow> string option res" where
  "answered_cidr known old =
     (let inetnum = known_field known ''inetnum'' in if inetnum \<noteq> [] then inetnum_to_cidr inetnum else Inr old)"

definition asn_fits :: "int option \<Rightarrow> bool" where
  "asn_fits asn = (case asn of None \<Rightarrow> True | Some n \<Rightarrow> 0 \<le> n \<and> n < 2 ^ 63)"

text \<open>\<open>_run_lookup\<close>: None when done, Some countdown when it asked Celery for a retry.\<close>

definition run_lookup :: "whois_host \<Rightarrow> nat \<Rightarrow> pk \<Rightarrow> ip_row \<Rightarrow> int option eff" where
  "run_lookup h retries k ip w =
     (case whois_lookup h (w_settings w) (ia_address ip) of
        Inl e \<Rightarrow> (Inl e, w)
      | Inr result \<Rightarrow>
          if \<not> wl_success result then
            if wl_retryable result \<and> retries < max_retries then (Inr (Some (30 * 2 ^ retries)), w)
            else (Inr None, w\<lparr>w_ips := update_row k (lookup_failed (wl_error result) w) (w_ips w)\<rparr>)
          else
            (let raw = wl_raw_response result;
                 (generic, known) = whois_parse raw;
                 w1 = w\<lparr>w_whois := add_row (whois_row k generic raw (w_now w)) (w_whois w)\<rparr>
             in (case answered_asn known (ia_asn ip) of
                   Inl e \<Rightarrow> (Inl e, w1)
                 | Inr asn \<Rightarrow>
                     (case answered_cidr known (ia_cidr ip) of
                        Inl e \<Rightarrow> (Inl e, w1)
                      | Inr cidr \<Rightarrow>
                          if \<not> asn_fits asn then (Inl (RuntimeError ''DataError''), w1)
                          else
                            (Inr None,
                             delays (if take 2 (known_field known ''country'') \<noteq> [] then [Classify_ip k] else [])
                               (w1\<lparr>w_ips := update_row k (lookup_answered known asn cidr w) (w_ips w1)\<rparr>))))))"

definition perform_whois_lookup :: "whois_host \<Rightarrow> nat \<Rightarrow> pk \<Rightarrow> bool \<Rightarrow> int option eff" where
  "perform_whois_lookup h retries k force w =
     (case get_row k (w_ips w) of
        None \<Rightarrow> (Inr None, w)
      | Some ip \<Rightarrow>
          if \<not> force \<and> \<not> needs_whois_check ip (w_now w) then (Inr None, w)
          else
            (case redis_lock (lock_key ''whois:'' (ia_address ip)) (seconds (st_whois_timeout (w_settings w) + 30))
                    (run_lookup h retries k ip) w of
               (Inl (LockHeldError key), w') \<Rightarrow> (Inr None, w')
             | r \<Rightarrow> r))"

section \<open>Retries\<close>

lemma run_lookup_retry: "run_lookup h n k ip w = (Inr (Some c), w') \<Longrightarrow> n < max_retries \<and> c = 30 * 2 ^ n \<and> w' = w"
  by (auto simp: run_lookup_def Let_def split: sum.splits if_splits prod.splits)

text \<open>The lock around the lookup, unfolded: a lookup itself neither raises LockHeldError nor touches the cache.\<close>

definition locked :: "string \<Rightarrow> world \<Rightarrow> world" where
  "locked key w = w\<lparr>w_cache := snd (cache_add key (seconds (st_whois_timeout (w_settings w) + 30)) (w_now w) (w_cache w))\<rparr>"

lemma summarize_error: "summarize_address_range a b = Inl e \<Longrightarrow> e = TypeError \<or> e = ValueError"
  by (auto simp: summarize_address_range_def split: if_splits)

lemma range_to_cidr_error: "range_to_cidr a b = Inl e \<Longrightarrow> e = TypeError"
  using summarize_error[of a b] by (cases "summarize_address_range a b") (auto simp: range_to_cidr_def split: py_exn.splits)

lemma inetnum_error: "inetnum_to_cidr s = Inl e \<Longrightarrow> e = TypeError"
  using range_to_cidr_error by (auto simp: inetnum_to_cidr_def Let_def split: if_splits prod.splits option.splits)

lemma whois_lookup_error: "whois_lookup h cfg a = Inl e \<Longrightarrow> e = ValueError"
  by (auto simp: whois_lookup_def Let_def split: if_splits process_outcome.splits)

lemma answered_asn_error: "answered_asn known old = Inl e \<Longrightarrow> e = ValueError"
  by (cases "re_search asn_re (known_field known ''origin'')")
     (auto simp: answered_asn_def parse_asn_def Let_def split: if_split_asm option.split_asm simp del: re_search.simps)

lemma answered_cidr_error: "answered_cidr known old = Inl e \<Longrightarrow> e = TypeError"
  using inetnum_error by (auto simp: answered_cidr_def Let_def split: if_splits)

lemma run_lookup_errors: "run_lookup h n k ip w = (Inl e, w') \<Longrightarrow> e \<in> {ValueError, TypeError, RuntimeError ''DataError''}"
  unfolding run_lookup_def Let_def
  by (auto split: sum.split_asm if_split_asm prod.split_asm
      dest!: whois_lookup_error answered_asn_error answered_cidr_error)

lemma run_lookup_frame:
  "w_cache (snd (run_lookup h n k ip w)) = w_cache w" "w_now (snd (run_lookup h n k ip w)) = w_now w"
  "w_settings (snd (run_lookup h n k ip w)) = w_settings w"
  by (simp_all add: run_lookup_def Let_def delays_def split: sum.splits prod.splits)

lemma perform_cases:
  assumes "get_row k (w_ips w) = Some ip" "force \<or> needs_whois_check ip (w_now w)"
    and "key = lock_key ''whois:'' (ia_address ip)" "\<not> live key (w_now w) (w_cache w)"
  shows "perform_whois_lookup h n k force w =
    (fst (run_lookup h n k ip (locked key w)), release key (snd (run_lookup h n k ip (locked key w))))"
proof -
  obtain r w' where r: "run_lookup h n k ip (locked key w) = (r, w')" by (cases "run_lookup h n k ip (locked key w)")
  have "redis_lock key (seconds (st_whois_timeout (w_settings w) + 30)) (run_lookup h n k ip) w = (r, release key w')"
    using assms(4) r by (simp add: redis_lock_free locked_def cache_add_def)
  moreover have "r \<noteq> Inl (LockHeldError x)" for x
    using run_lookup_errors[of h n k ip "locked key w" _ w'] r by (cases r) auto
  ultimately show ?thesis
    using assms(1-3) r by (auto simp: perform_whois_lookup_def split: sum.splits py_exn.splits)
qed

lemma perform_idle:
  "get_row k (w_ips w) = None \<Longrightarrow> perform_whois_lookup h n k force w = (Inr None, w)"
  "get_row k (w_ips w) = Some ip \<Longrightarrow> \<not> force \<Longrightarrow> \<not> needs_whois_check ip (w_now w) \<Longrightarrow>
    perform_whois_lookup h n k force w = (Inr None, w)"
  "get_row k (w_ips w) = Some ip \<Longrightarrow> live (lock_key ''whois:'' (ia_address ip)) (w_now w) (w_cache w) \<Longrightarrow>
    perform_whois_lookup h n k force w = (Inr None, w)"
  by (simp_all add: perform_whois_lookup_def redis_lock_def cache_add_def)

lemma perform_retry:
  assumes "perform_whois_lookup h n k force w = (Inr (Some c), w')"
  shows "n < max_retries \<and> c = 30 * 2 ^ n"
proof -
  obtain ip where ip: "get_row k (w_ips w) = Some ip" using assms by (cases "get_row k (w_ips w)") (simp_all add: perform_idle)
  have due: "force \<or> needs_whois_check ip (w_now w)" using assms perform_idle(2)[OF ip, of force h n] by fastforce
  have free: "\<not> live (lock_key ''whois:'' (ia_address ip)) (w_now w) (w_cache w)"
    using assms perform_idle(3)[OF ip, of h n force] by fastforce
  have "fst (run_lookup h n k ip (locked (lock_key ''whois:'' (ia_address ip)) w)) = Inr (Some c)"
    using assms perform_cases[OF ip due refl free, of h n] by simp
  then show ?thesis by (metis run_lookup_retry prod.collapse)
qed

text \<open>What Celery does with the task: it runs it again after every countdown, with the retry count raised. The
  environment may answer differently every time. The result lists the countdowns.\<close>

function whois_attempts :: "(nat \<Rightarrow> whois_host) \<Rightarrow> pk \<Rightarrow> bool \<Rightarrow> nat \<Rightarrow> world \<Rightarrow> (unit res \<times> int list) \<times> world" where
  "whois_attempts hosts k force n w =
     (case perform_whois_lookup (hosts n) n k force w of
        (Inl e, w') \<Rightarrow> ((Inl e, []), w')
      | (Inr None, w') \<Rightarrow> ((Inr (), []), w')
      | (Inr (Some c), w') \<Rightarrow>
          (case whois_attempts hosts k force (Suc n) (w'\<lparr>w_now := w_now w' + seconds c\<rparr>) of
             ((r, cs), w2) \<Rightarrow> ((r, c # cs), w2)))"
  by pat_completeness auto
termination
  by (relation "measure (\<lambda>(hosts, k, force, n, w). max_retries - n)") (auto dest!: perform_retry[OF sym] perform_retry)

declare whois_attempts.simps [simp del]

section \<open>Every lookup settles\<close>

definition settled :: "world \<Rightarrow> ip_row \<Rightarrow> bool" where
  "settled w r \<longleftrightarrow> ia_whois_status r \<noteq> NEVER_CHECKED \<and> ia_whois_checked_at r = Some (w_now w)
     \<and> ia_whois_next_check_at r = Some (next_whois_check w)"

lemma run_lookup_done:
  assumes "run_lookup h n k ip w = (Inr None, w')" "get_row k (w_ips w) = Some r"
  shows "\<exists>r'. get_row k (w_ips w') = Some r' \<and> settled w r' \<and> ia_address r' = ia_address r"
  using assms
  by (auto simp: run_lookup_def Let_def delays_def get_update_row lookup_failed_def lookup_answered_def settled_def
      split: sum.split_asm if_split_asm prod.split_asm)

lemma next_whois_check_frame [simp]:
  "next_whois_check (release key w) = next_whois_check w" "next_whois_check (locked key w) = next_whois_check w"
  by (simp_all add: next_whois_check_def release_def locked_def)

lemma locked_simps [simp]:
  "w_ips (locked key w) = w_ips w" "w_now (locked key w) = w_now w" "w_settings (locked key w) = w_settings w"
  "w_jobs (locked key w) = w_jobs w" "w_whois (locked key w) = w_whois w"
  by (simp_all add: locked_def)

lemma release_simps [simp]:
  "w_ips (release key w) = w_ips w" "w_now (release key w) = w_now w" "w_settings (release key w) = w_settings w"
  "w_jobs (release key w) = w_jobs w" "w_whois (release key w) = w_whois w" for w :: world
  by (simp_all add: release_def)

lemma release_free: "\<not> live key t (w_cache (release key w))"
  by (simp add: release_def cache.drop_free)

lemma whois_attempts_spec:
  assumes "get_row k (w_ips w) = Some ip" "force \<or> needs_whois_check ip (w_now w)"
    and "\<not> live (lock_key ''whois:'' (ia_address ip)) (w_now w) (w_cache w)" "n \<le> max_retries"
    and "whois_attempts hosts k force n w = ((r, cs), w')"
  shows "n + length cs \<le> max_retries \<and> cs = map (\<lambda>i. 30 * 2 ^ i) [n ..< n + length cs]
    \<and> (r = Inr () \<longrightarrow> (\<exists>ip'. get_row k (w_ips w') = Some ip' \<and> settled w' ip' \<and> ia_address ip' = ia_address ip))
    \<and> \<not> live (lock_key ''whois:'' (ia_address ip)) t (w_cache w')"
  using assms
proof (induction hosts k force n w arbitrary: r cs w' rule: whois_attempts.induct)
  case (1 hosts k force n w)
  let ?key = "lock_key ''whois:'' (ia_address ip)"
  obtain res w1 where run: "run_lookup (hosts n) n k ip (locked ?key w) = (res, w1)"
    by (cases "run_lookup (hosts n) n k ip (locked ?key w)")
  have p: "perform_whois_lookup (hosts n) n k force w = (res, release ?key w1)"
    using perform_cases[OF "1.prems"(1,2) refl "1.prems"(3), of "hosts n" n] run by simp
  have fr: "w_now w1 = w_now w" "w_settings w1 = w_settings w"
    using run_lookup_frame[of "hosts n" n k ip "locked ?key w"] run by simp_all
  note eq = "1.prems"(5)[unfolded whois_attempts.simps[of hosts k force n w] p]
  consider e where "res = Inl e" | "res = Inr None" | c where "res = Inr (Some c)"
    by (cases res; cases "case res of Inr x \<Rightarrow> x | Inl _ \<Rightarrow> None") auto
  then show ?case
  proof cases
    case 1
    then show ?thesis using eq release_free "1.prems"(4) by auto
  next
    case 2
    obtain ip' where ip': "get_row k (w_ips w1) = Some ip'" "settled (locked ?key w) ip'" "ia_address ip' = ia_address ip"
      using run_lookup_done[of "hosts n" n k ip "locked ?key w" w1 ip] run 2 "1.prems"(1) by auto
    have "w' = release ?key w1" "cs = []" using eq 2 by auto
    moreover have "settled w' ip'"
      using ip'(2) fr \<open>w' = _\<close> by (simp add: settled_def next_whois_check_def)
    ultimately show ?thesis using ip' release_free "1.prems"(4) by auto
  next
    case 3
    have rt: "n < max_retries" "c = 30 * 2 ^ n" "w1 = locked ?key w" using run_lookup_retry run 3 by metis+
    define w2 where "w2 = (release ?key w1)\<lparr>w_now := w_now (release ?key w1) + seconds c\<rparr>"
    obtain cs1 where cs: "cs = c # cs1" "whois_attempts hosts k force (Suc n) w2 = ((r, cs1), w')"
      using eq 3 by (auto simp: w2_def split: prod.splits)
    have c0: "0 \<le> seconds c" using rt(2) by (simp add: seconds_def)
    have "get_row k (w_ips w2) = Some ip" using "1.prems"(1) rt(3) by (simp add: w2_def)
    moreover have "force \<or> needs_whois_check ip (w_now w2)"
      using "1.prems"(2) c0 fr by (auto simp: w2_def needs_whois_check_def split: option.splits)
    moreover have "\<not> live ?key (w_now w2) (w_cache w2)" using release_free by (simp add: w2_def)
    ultimately have IH: "Suc n + length cs1 \<le> max_retries \<and> cs1 = map (\<lambda>i. 30 * 2 ^ i) [Suc n ..< Suc n + length cs1]
      \<and> (r = Inr () \<longrightarrow> (\<exists>ip'. get_row k (w_ips w') = Some ip' \<and> settled w' ip' \<and> ia_address ip' = ia_address ip))
      \<and> \<not> live ?key t (w_cache w')"
      using "1.IH"[OF p[unfolded 3, symmetric] refl refl] cs(2) rt(1) by (simp add: w2_def)
    have "[n ..< n + length cs] = n # [Suc n ..< Suc n + length cs1]"
      by (subst upt_conv_Cons) (simp_all add: cs(1))
    then have "cs = map (\<lambda>i. 30 * 2 ^ i) [n ..< n + length cs]" using IH cs(1) rt(2) by simp
    then show ?thesis using IH cs(1) by simp
  qed
qed


text \<open>C23: Whatever the whois binary does on each attempt, the task runs at most four times, 30, 60 and 120 seconds
  apart; unless an attempt raises, the address then has an outcome and is not due again before the cache
  window has passed, and its lock is free.\<close>

theorem whois_lookup_settles:
  assumes "get_row k (w_ips w) = Some ip" "force \<or> needs_whois_check ip (w_now w)"
    and "\<not> live (lock_key ''whois:'' (ia_address ip)) (w_now w) (w_cache w)"
    and "whois_attempts hosts k force 0 w = ((r, countdowns), w')"
  shows "countdowns = take (length countdowns) [30, 60, 120]
    \<and> (r = Inr () \<longrightarrow> (\<exists>ip'. get_row k (w_ips w') = Some ip' \<and> settled w' ip' \<and> ia_address ip' = ia_address ip))
    \<and> \<not> live (lock_key ''whois:'' (ia_address ip)) t (w_cache w')"
proof -
  have s: "length countdowns \<le> 3" "countdowns = map (\<lambda>i. 30 * 2 ^ i) [0 ..< length countdowns]"
    "r = Inr () \<longrightarrow> (\<exists>ip'. get_row k (w_ips w') = Some ip' \<and> settled w' ip' \<and> ia_address ip' = ia_address ip)"
    "\<not> live (lock_key ''whois:'' (ia_address ip)) t (w_cache w')"
    using whois_attempts_spec[OF assms(1-3) _ assms(4)] by (auto simp: max_retries_def)
  have "[30, 60, 120] = map (\<lambda>i. 30 * 2 ^ i :: int) [0 ..< 3]" by (simp add: upt_rec)
  then have "take (length countdowns) [30, 60, 120] = map (\<lambda>i. 30 * 2 ^ i :: int) [0 ..< length countdowns]"
    using s(1) by (simp add: take_map)
  then show ?thesis using s by simp
qed

lemma whois_outage:
  assumes "get_row k (w_ips w) = Some ip" "force \<or> needs_whois_check ip (w_now w)"
    and "\<not> live (lock_key ''whois:'' (ia_address ip)) (w_now w) (w_cache w)" "n \<le> max_retries"
    and "\<And>i cfg. \<exists>res. whois_lookup (hosts i) cfg (ia_address ip) = Inr res \<and> \<not> wl_success res \<and> wl_retryable res"
  shows "\<exists>cs w' r. whois_attempts hosts k force n w = ((Inr (), cs), w') \<and> n + length cs = max_retries
    \<and> w_whois w' = w_whois w \<and> w_jobs w' = w_jobs w
    \<and> get_row k (w_ips w') = Some r \<and> ia_whois_status r = ERROR"
  using assms(1-4)
proof (induction "max_retries - n" arbitrary: n w)
  case (0 n w)
  let ?key = "lock_key ''whois:'' (ia_address ip)"
  obtain res where res: "whois_lookup (hosts n) (w_settings w) (ia_address ip) = Inr res" "\<not> wl_success res" "wl_retryable res"
    using assms(5) by blast
  have n: "n = max_retries" using 0 by simp
  have "run_lookup (hosts n) n k ip (locked ?key w)
      = (Inr None, (locked ?key w)\<lparr>w_ips := update_row k (lookup_failed (wl_error res) (locked ?key w)) (w_ips w)\<rparr>)"
    using res by (simp add: run_lookup_def n)
  then have "perform_whois_lookup (hosts n) n k force w
      = (Inr None, release ?key ((locked ?key w)\<lparr>w_ips := update_row k (lookup_failed (wl_error res) (locked ?key w)) (w_ips w)\<rparr>))"
    using perform_cases[OF "0.prems"(1,2) refl "0.prems"(3), of "hosts n" n] by simp
  then show ?case using "0.prems"(1) n
    by (simp add: whois_attempts.simps get_update_row lookup_failed_def)
next
  case (Suc d n w)
  let ?key = "lock_key ''whois:'' (ia_address ip)"
  obtain res where res: "whois_lookup (hosts n) (w_settings w) (ia_address ip) = Inr res" "\<not> wl_success res" "wl_retryable res"
    using assms(5) by blast
  have n: "n < max_retries" using Suc.hyps(2) by simp
  let ?c = "30 * 2 ^ n :: int"
  have "run_lookup (hosts n) n k ip (locked ?key w) = (Inr (Some ?c), locked ?key w)"
    using res n by (simp add: run_lookup_def)
  then have p: "perform_whois_lookup (hosts n) n k force w = (Inr (Some ?c), release ?key (locked ?key w))"
    using perform_cases[OF Suc.prems(1,2) refl Suc.prems(3), of "hosts n" n] by simp
  let ?w = "release ?key (locked ?key w)"
  define w2 where "w2 = ?w\<lparr>w_now := w_now ?w + seconds ?c\<rparr>"
  have c0: "0 \<le> seconds ?c" by (simp add: seconds_def)
  have ip2: "get_row k (w_ips w2) = Some ip" using Suc.prems(1) by (simp add: w2_def)
  have due: "force \<or> needs_whois_check ip (w_now w2)"
    using Suc.prems(2) c0 by (auto simp: w2_def needs_whois_check_def split: option.splits)
  have free: "\<not> live ?key (w_now w2) (w_cache w2)" using release_free by (simp add: w2_def)
  have d: "d = max_retries - Suc n" "Suc n \<le> max_retries" using Suc.hyps(2) n by simp_all
  obtain cs w' r where IH: "whois_attempts hosts k force (Suc n) w2 = ((Inr (), cs), w')" "Suc n + length cs = max_retries"
    "w_whois w' = w_whois w2" "w_jobs w' = w_jobs w2" "get_row k (w_ips w') = Some r" "ia_whois_status r = ERROR"
    using Suc.hyps(1)[OF d(1) ip2 due free d(2)] by blast
  have "whois_attempts hosts k force n w = ((Inr (), ?c # cs), w')"
    unfolding whois_attempts.simps[of hosts k force n w] p using IH(1) by (simp add: w2_def)
  then show ?case using IH by (simp add: w2_def)
qed

text \<open>When the registry does not answer, whatever else happens, the task ends: it is run exactly four times, 30, 60 and 120
  seconds apart, then gives up with the address in the error state, due again after a cache window; no record is written and no
  job is sent.\<close>

lemma whois_outage_gives_up:
  assumes "get_row k (w_ips w) = Some ip" "force \<or> needs_whois_check ip (w_now w)"
    and "\<not> live (lock_key ''whois:'' (ia_address ip)) (w_now w) (w_cache w)"
    and "\<forall>i cfg. \<exists>res. whois_lookup (hosts i) cfg (ia_address ip) = Inr res \<and> \<not> wl_success res \<and> wl_retryable res"
  shows "\<exists>w' r. whois_attempts hosts k force 0 w = ((Inr (), [30, 60, 120]), w')
    \<and> get_row k (w_ips w') = Some r \<and> ia_whois_status r = ERROR \<and> settled w' r
    \<and> w_whois w' = w_whois w \<and> w_jobs w' = w_jobs w"
proof -
  obtain cs w' r where a: "whois_attempts hosts k force 0 w = ((Inr (), cs), w')" "length cs = max_retries"
    "w_whois w' = w_whois w" "w_jobs w' = w_jobs w" "get_row k (w_ips w') = Some r" "ia_whois_status r = ERROR"
    using whois_outage[OF assms(1-3), of 0 hosts] assms(4) by auto
  note s = whois_attempts_spec[OF assms(1-3) _ a(1)]
  have "cs = [30, 60, 120]" using s a(2) by (simp add: max_retries_def upt_rec)
  moreover have "settled w' r" using s a(5) by auto
  ultimately show ?thesis using a by blast
qed

lemma run_lookup_error_state:
  "run_lookup h n k ip w = (Inl e, w') \<Longrightarrow>
   w' = w \<or> (\<exists>generic raw. w' = w\<lparr>w_whois := add_row (whois_row k generic raw (w_now w)) (w_whois w)\<rparr>)"
  unfolding run_lookup_def Let_def
  by (auto split: sum.split_asm if_split_asm prod.split_asm)


section \<open>A range and its first block\<close>

lemma ipv4_str_plain:
  assumes "c \<in> set (ipv4_str n)" shows "c \<noteq> CHR ''/''" "c \<noteq> CHR ''-''" "\<not> py_ws c"
  using ipv4_str_set[OF assms] by (auto simp: ascii_digit_def py_ws_def cp_def Let_def)

lemma py_partition_at: "c \<notin> set u \<Longrightarrow> py_partition c (u @ c # v) = (u, True, v)"
  unfolding py_partition_def by (induction u) auto

lemma py_strip_padded:
  assumes "list_all (\<lambda>c. \<not> py_ws c) x" "x \<noteq> []"
  shows "py_strip (x @ '' '') = x" "py_strip (CHR '' '' # x) = x"
proof -
  have h: "\<not> py_ws (hd x)" "\<not> py_ws (last x)" using assms by (simp_all add: list_all_iff)
  have sp: "py_ws (CHR '' '')" by (simp add: py_ws_def cp_def)
  have "dropWhile py_ws (x @ '' '') = x @ '' ''" using h(1) assms(2) by (intro dropWhile_id_hd) simp
  moreover have "dropWhile py_ws (rev x) = rev x" using h(2) assms(2) by (intro dropWhile_id_hd) (simp add: hd_rev)
  ultimately show "py_strip (x @ '' '') = x" using sp by (simp add: py_strip_def py_lstrip_def rstrip_with_def)
  have "py_strip (CHR '' '' # x) = py_strip x" using sp by (simp add: py_strip_def py_lstrip_def)
  then show "py_strip (CHR '' '' # x) = x" using py_strip_no_ws[OF assms(1)] by simp
qed

lemma ipv4_str_nonempty [simp]: "ipv4_str n \<noteq> []"
  by (simp add: ipv4_str_def)

text \<open>A response that gives its network as an IPv4 range stores one block of that range: it starts where the
  range starts, stays inside it, and is canonical text.\<close>

lemma whois_range_block:
  assumes "a \<le> b" "b < 2 ^ 32"
  shows "\<exists>net. inetnum_to_cidr (ipv4_str a @ '' - '' @ ipv4_str b) = Inr (Some (net_str net))
    \<and> ip_network (net_str net) = Some net \<and> net_addr net = V4 a \<and> net_range net \<subseteq> {a..b}"
proof -
  let ?s = "ipv4_str a @ '' - '' @ ipv4_str b"
  have n: "a < 2 ^ 32" using assms by simp
  have strip: "py_strip ?s = ?s"
  proof -
    have "hd ?s \<in> set (ipv4_str a)" "last ?s \<in> set (ipv4_str b)" by simp_all
    then show ?thesis using ipv4_str_plain(3) by (intro py_strip_id) blast
  qed
  have sl: "CHR ''/'' \<notin> set ?s" using ipv4_str_plain(1) by auto
  have "CHR ''-'' \<notin> set (ipv4_str a @ '' '')" using ipv4_str_plain(2) by auto
  then have part: "py_partition (CHR ''-'') ?s = (ipv4_str a @ '' '', True, CHR '' '' # ipv4_str b)"
    using py_partition_at[of "CHR ''-''" "ipv4_str a @ '' ''" "CHR '' '' # ipv4_str b"] by simp
  have ws: "list_all (\<lambda>c. \<not> py_ws c) (ipv4_str m)" for m using ipv4_str_plain(3) by (auto simp: list_all_iff)
  have st: "py_strip (ipv4_str a @ '' '') = ipv4_str a" "py_strip (CHR '' '' # ipv4_str b) = ipv4_str b"
    by (rule py_strip_padded[OF ws ipv4_str_nonempty])+
  have ad: "ip_address (ipv4_str a) = Some (V4 a)" "ip_address (ipv4_str b) = Some (V4 b)"
    using ip_address_str[of "V4 a"] ip_address_str[of "V4 b"] n assms by simp_all
  obtain nb where nb: "summarize_ints 32 a b = (a, 32 - nb) # summarize_ints 32 (a + 2 ^ nb) b"
    "a + 2 ^ nb \<le> Suc b" "2 ^ nb dvd a" "nb \<le> 32"
    by (rule summarize_ints_Cons[OF assms(1), of 32]) (use assms(2) in auto)
  let ?net = "Net (V4 a) (32 - nb)"
  have "inetnum_to_cidr ?s = Inr (Some (net_str ?net))"
    using strip sl part st ad nb(1) assms(1)
    by (simp add: inetnum_to_cidr_def range_to_cidr_def summarize_address_range_def Let_def)
  moreover have "net_valid ?net" using nb n by simp
  ultimately show ?thesis using nb(2,4)
    by (intro exI[of _ ?net]) (auto simp: ip_network_str net_range_def host_bits_def)
qed


section \<open>Examples\<close>

definition whois_ip :: ip_row where "whois_ip = blank_ip ''5.1.2.3'' 4 100 100"

definition whois_world :: world where
  "whois_world = (empty_world default_settings 500)\<lparr>w_ips := add_row whois_ip empty_table\<rparr>"

definition whois_says :: "process_outcome \<Rightarrow> whois_host" where
  "whois_says out = \<lparr>wh_exists = (\<lambda>_. True), wh_which = None, wh_run = (\<lambda>_. out)\<rparr>"

definition mixed_response :: string where
  "mixed_response = ''inetnum: 5.1.2.0 - 2001:db8::1''"

lemma whois_world_facts:
  "get_row 1 (w_ips whois_world) = Some whois_ip" "needs_whois_check whois_ip (w_now whois_world)"
  "\<not> live (lock_key ''whois:'' (ia_address whois_ip)) (w_now whois_world) (w_cache whois_world)"
  "ip_address (ia_address whois_ip) \<noteq> None"
  by code_simp+

lemma mixed_response_facts:
  "py_strip mixed_response \<noteq> []" "whois_parse mixed_response = ([(''inetnum'', [''5.1.2.0 - 2001:db8::1''])], [(''inetnum'', ''5.1.2.0 - 2001:db8::1'')])"
  "inetnum_to_cidr ''5.1.2.0 - 2001:db8::1'' = Inl TypeError"
  by code_simp+

theorem whois_lookup_settles_witness:
  "\<exists>countdowns w'. whois_attempts (\<lambda>n. whois_says Timed_out) 1 False 0 whois_world = ((Inr (), countdowns), w')
    \<and> countdowns = take (length countdowns) [30, 60, 120]
    \<and> (\<exists>ip'. get_row 1 (w_ips w') = Some ip' \<and> settled w' ip' \<and> ia_address ip' = ''5.1.2.3'')"
proof -
  obtain r cs w' where a: "whois_attempts (\<lambda>n. whois_says Timed_out) 1 False 0 whois_world = ((r, cs), w')"
    by (metis prod.collapse)
  have "fst (fst (whois_attempts (\<lambda>n. whois_says Timed_out) 1 False 0 whois_world)) = Inr ()" by code_simp
  then have "r = Inr ()" using a by simp
  then show ?thesis
    using whois_lookup_settles[OF whois_world_facts(1) _ whois_world_facts(3) a] whois_world_facts(2) a
    by (auto simp: whois_ip_def blank_ip_def)
qed

lemma whois_outage_gives_up_example:
  "\<exists>w'. whois_attempts (\<lambda>n. whois_says Timed_out) 1 False 0 whois_world = ((Inr (), [30, 60, 120]), w')"
proof -
  have h: "\<forall>i cfg. \<exists>res. whois_lookup ((\<lambda>n. whois_says Timed_out) i) cfg (ia_address whois_ip) = Inr res \<and> \<not> wl_success res \<and> wl_retryable res"
    using whois_world_facts(4) by (auto simp: whois_lookup_def whois_says_def whois_error_def Let_def)
  show ?thesis using whois_outage_gives_up[OF whois_world_facts(1) _ whois_world_facts(3) h] whois_world_facts(2) by blast
qed


lemma whois_range_block_example:
  "\<exists>net. inetnum_to_cidr (ipv4_str 83951616 @ '' - '' @ ipv4_str 83952639) = Inr (Some (net_str net))
    \<and> ip_network (net_str net) = Some net \<and> net_addr net = V4 83951616 \<and> net_range net \<subseteq> {83951616..83952639}"
  by (rule whois_range_block) simp_all

end
