(* ===== verification/Geo.thy ===== *)
theory Geo
  imports Ip_Service
begin

text \<open>
  \<open>apps/geo\<close>: the replaceable geolocation provider, persisting its answer, and the enrichment task. The
  \<open>geoip2\<close> package and its database file are a parameter: whether the package can be imported, and what
  its reader answers for an address.
\<close>

section \<open>Providers\<close>

record geo_result =
  gr_country_code :: string
  gr_country_name :: string
  gr_continent :: string
  gr_latitude :: "rat option"
  gr_longitude :: "rat option"

text \<open>What \<open>reader.city(address)\<close> returns: the fields may be missing.\<close>

record city_response =
  cr_iso_code :: "string option"
  cr_country_name :: "string option"
  cr_continent_code :: "string option"
  cr_latitude :: "rat option"
  cr_longitude :: "rat option"

datatype city_answer = Address_not_found | Lookup_error py_exn | City city_response

record geoip2 =
  g2_installed :: bool
  g2_open :: "string \<Rightarrow> (string \<Rightarrow> city_answer) res"

datatype geo_provider = Null_geoip | Max_mind string

definition or_empty :: "string option \<Rightarrow> string" where
  "or_empty v = (case v of None \<Rightarrow> [] | Some s \<Rightarrow> s)"

definition max_mind_provider :: "string \<Rightarrow> settings \<Rightarrow> geo_provider res" where
  "max_mind_provider database_path cfg =
     (let path = (if database_path \<noteq> [] then database_path else st_geoip_database_path cfg) in
      if path = [] then Inl (ImproperlyConfigured ''GEOIP_DATABASE_PATH must be set to use GEOIP_PROVIDER=maxmind.'')
      else Inr (Max_mind path))"

definition get_geo_provider :: "string \<Rightarrow> settings \<Rightarrow> geo_provider res" where
  "get_geo_provider name cfg =
     (let key = (if name \<noteq> [] then name else st_geoip_provider cfg) in
      if key = ''null'' then Inr Null_geoip
      else if key = ''maxmind'' then max_mind_provider [] cfg
      else Inl (ImproperlyConfigured (''Unknown GEOIP_PROVIDER: '' @ py_repr key @ ''. Available: ['' @
        py_repr ''maxmind'' @ '', '' @ py_repr ''null'' @ '']'')))"

definition city_result :: "city_response \<Rightarrow> geo_result" where
  "city_result r =
     \<lparr>gr_country_code = or_empty (cr_iso_code r), gr_country_name = or_empty (cr_country_name r),
      gr_continent = or_empty (cr_continent_code r), gr_latitude = cr_latitude r, gr_longitude = cr_longitude r\<rparr>"

definition geo_lookup :: "geoip2 \<Rightarrow> geo_provider \<Rightarrow> string \<Rightarrow> geo_result option res" where
  "geo_lookup g p address =
     (case p of
        Null_geoip \<Rightarrow> Inr None
      | Max_mind path \<Rightarrow>
          if \<not> g2_installed g then
            Inl (ImproperlyConfigured (''GEOIP_PROVIDER=maxmind requires the '' @ py_repr ''geoip2'' @ '' package (pip install geoip2).''))
          else res_bind (g2_open g path) (\<lambda>city.
            (case city address of
               Address_not_found \<Rightarrow> Inr None
             | Lookup_error e \<Rightarrow> Inl e
             | City r \<Rightarrow> Inr (Some (city_result r)))))"

section \<open>Service and task\<close>

definition located :: "geo_result \<Rightarrow> ip_row \<Rightarrow> ip_row" where
  "located g r =
     r\<lparr>ia_country_code := gr_country_code g, ia_country_name := gr_country_name g, ia_continent := gr_continent g,
       ia_latitude := gr_latitude g, ia_longitude := gr_longitude g\<rparr>"

definition geo_enrich :: "geoip2 \<Rightarrow> pk \<Rightarrow> ip_row \<Rightarrow> ip_row eff" where
  "geo_enrich g k ip w =
     (case res_bind (get_geo_provider [] (w_settings w)) (\<lambda>p. geo_lookup g p (ia_address ip)) of
        Inl e \<Rightarrow> (Inl e, w)
      | Inr None \<Rightarrow> (Inr ip, w)
      | Inr (Some r) \<Rightarrow>
          (Inr (located r ip),
           w\<lparr>w_ips := update_row k (\<lambda>s. (located r s)\<lparr>ia_updated_at := w_now w\<rparr>) (w_ips w)\<rparr>))"

definition enrich_ip :: "geoip2 \<Rightarrow> pk \<Rightarrow> unit eff" where
  "enrich_ip g k w =
     (case get_row k (w_ips w) of
        None \<Rightarrow> (Inr (), w)
      | Some ip \<Rightarrow>
          skip_if_held (redis_lock (lock_key ''geo:'' (ia_address ip)) (seconds 60)
            (\<lambda>w. case geo_enrich g k ip w of (Inl e, w') \<Rightarrow> (Inl e, w') | (Inr _, w') \<Rightarrow> (Inr (), w'))) w)"

section \<open>A miss keeps what is known\<close>

definition geo_fields :: "ip_row \<Rightarrow> string \<times> string \<times> string \<times> rat option \<times> rat option" where
  "geo_fields r = (ia_country_code r, ia_country_name r, ia_continent r, ia_latitude r, ia_longitude r)"

definition geo_answer :: "geoip2 \<Rightarrow> world \<Rightarrow> string \<Rightarrow> geo_result option res" where
  "geo_answer g w address = res_bind (get_geo_provider [] (w_settings w)) (\<lambda>p. geo_lookup g p address)"

text \<open>Enrichment replaces the five geographic fields by the provider's answer and touches nothing else; when
  the provider has no answer, or raises, the address keeps the fields it had.\<close>

lemma enrich_updates_geo_only:
  assumes "get_row k (w_ips w) = Some ip" "geo_enrich g k ip w = (r, w')"
  shows "\<exists>ip'. get_row k (w_ips w') = Some ip' \<and>
    (case geo_answer g w (ia_address ip) of
       Inr (Some a) \<Rightarrow> r = Inr (located a ip) \<and> ip' = (located a ip)\<lparr>ia_updated_at := w_now w\<rparr>
         \<and> geo_fields ip' = (gr_country_code a, gr_country_name a, gr_continent a, gr_latitude a, gr_longitude a)
     | Inr None \<Rightarrow> r = Inr ip \<and> w' = w
     | Inl e \<Rightarrow> r = Inl e \<and> w' = w)
    \<and> (\<forall>j. j \<noteq> k \<longrightarrow> get_row j (w_ips w') = get_row j (w_ips w))"
  using assms
  by (auto simp: geo_enrich_def geo_answer_def[symmetric] get_update_row located_def geo_fields_def
      split: sum.splits option.splits)

definition located_ip :: ip_row where "located_ip = blank_ip ''5.1.2.3'' 4 100 100"

definition geo_world :: world where
  "geo_world = (empty_world (default_settings\<lparr>st_geoip_provider := ''maxmind'', st_geoip_database_path := ''city.mmdb''\<rparr>) 500)
     \<lparr>w_ips := add_row located_ip empty_table\<rparr>"

definition geo_reader :: geoip2 where
  "geo_reader = \<lparr>g2_installed = True, g2_open = (\<lambda>_. Inr (\<lambda>_. City \<lparr>cr_iso_code = Some ''IR'', cr_country_name = None,
     cr_continent_code = Some ''AS'', cr_latitude = Some (3572 / 100), cr_longitude = None\<rparr>))\<rparr>"

lemma enrich_updates_geo_only_example:
  "\<exists>ip'. get_row 1 (w_ips (snd (geo_enrich geo_reader 1 located_ip geo_world))) = Some ip' \<and>
    geo_fields ip' = (''IR'', [], ''AS'', Some (3572 / 100), None)"
proof -
  have ip: "get_row 1 (w_ips geo_world) = Some located_ip" by code_simp
  have a: "geo_answer geo_reader geo_world (ia_address located_ip) = Inr (Some
      \<lparr>gr_country_code = ''IR'', gr_country_name = [], gr_continent = ''AS'', gr_latitude = Some (3572 / 100), gr_longitude = None\<rparr>)"
    by (simp add: geo_answer_def get_geo_provider_def max_mind_provider_def geo_world_def empty_world_def geo_lookup_def
        geo_reader_def city_result_def or_empty_def)
  show ?thesis using enrich_updates_geo_only[OF ip surjective_pairing, of geo_reader] unfolding a by auto
qed

end
