(* ===== verification/Retention.thy ===== *)
theory Retention
  imports Whois_Tasks
begin

text \<open>
  The retention tasks of \<open>apps/incidents/tasks.py\<close>, \<open>apps/whois/tasks.py\<close> and \<open>apps/ips/tasks.py\<close>: deleting
  old requests, old WHOIS responses, and addresses nothing refers to any more. Deleting an address
  deletes what refers to it (\<open>on_delete=CASCADE\<close>).
\<close>

section \<open>The tasks\<close>

definition request_cutoff :: "world \<Rightarrow> time" where
  "request_cutoff w = w_now w - days (st_request_retention_days (w_settings w))"

definition whois_cutoff :: "world \<Rightarrow> time" where
  "whois_cutoff w = w_now w - days (st_whois_retention_days (w_settings w))"

definition ip_cutoff :: "world \<Rightarrow> time" where
  "ip_cutoff w = w_now w - days (st_ip_retention_days (w_settings w))"

definition purge_old_request_events :: "nat eff" where
  "purge_old_request_events w =
     (let old = (\<lambda>_ e. ev_timestamp e < request_cutoff w); count = count_rows old (w_events w)
      in (Inr count, if count \<noteq> 0 then w\<lparr>w_events := delete_rows old (w_events w)\<rparr> else w))"

definition purge_old_whois_records :: "nat eff" where
  "purge_old_whois_records w =
     (let old = (\<lambda>_ r. wr_queried_at r < whois_cutoff w); count = count_rows old (w_whois w)
      in (Inr count, if count \<noteq> 0 then w\<lparr>w_whois := delete_rows old (w_whois w)\<rparr> else w))"

definition purge_eligible :: "world \<Rightarrow> pk \<Rightarrow> ip_row \<Rightarrow> bool" where
  "purge_eligible w k r \<longleftrightarrow>
     ia_last_seen_at r < ip_cutoff w \<and> \<not> ia_is_iran r
     \<and> k \<notin> set (map ev_ip (row_values (w_events w)))
     \<and> k \<notin> set (map ch_ip (row_values (w_history w)))"

text \<open>\<open>queryset.delete()\<close> on addresses, with its cascades.\<close>

definition delete_ips :: "(pk \<Rightarrow> ip_row \<Rightarrow> bool) \<Rightarrow> world \<Rightarrow> world" where
  "delete_ips P w =
     (let gone = (\<lambda>k. case get_row k (w_ips w) of None \<Rightarrow> False | Some r \<Rightarrow> P k r)
      in w\<lparr>w_ips := delete_rows P (w_ips w),
           w_events := delete_rows (\<lambda>_ e. gone (ev_ip e)) (w_events w),
           w_whois := delete_rows (\<lambda>_ r. gone (wr_ip r)) (w_whois w),
           w_history := delete_rows (\<lambda>_ h. gone (ch_ip h)) (w_history w)\<rparr>)"

definition purge_stale_ips :: "nat eff" where
  "purge_stale_ips w =
     (let count = count_rows (purge_eligible w) (w_ips w)
      in (Inr count, if count \<noteq> 0 then delete_ips (purge_eligible w) w else w))"

record purge_summary =
  pu_request_events :: nat
  pu_whois_records :: nat
  pu_ips :: nat

definition purge_old_data :: "purge_summary eff" where
  "purge_old_data =
     bnd purge_old_request_events (\<lambda>n. bnd purge_old_whois_records (\<lambda>m. bnd purge_stale_ips (\<lambda>i.
       ret \<lparr>pu_request_events = n, pu_whois_records = m, pu_ips = i\<rparr>)))"

section \<open>The contract of a purge\<close>

text \<open>A purge of one table by age: it reports how many rows it deletes and deletes exactly the old ones.\<close>

locale purge =
  fixes tab :: "'s \<Rightarrow> 'r table" and old :: "'s \<Rightarrow> 'r \<Rightarrow> bool" and task :: "('s, nat) effect"
  assumes reports: "fst (task s) = Inr (count_rows (\<lambda>_. old s) (tab s))"
    and deletes: "tab (snd (task s)) = delete_rows (\<lambda>_. old s) (tab s)"
    and same_age: "old (snd (task s)) = old s"
begin

lemma kept:
  "table_ok (tab s) \<Longrightarrow> get_row k (tab (snd (task s))) = Some r \<longleftrightarrow> get_row k (tab s) = Some r \<and> \<not> old s r"
  by (auto simp: deletes get_delete_rows split: option.splits)

lemma table_ok_kept: "table_ok (tab s) \<Longrightarrow> table_ok (tab (snd (task s)))"
  by (simp add: deletes)

lemma holds_kept: "table_ok (tab s) \<Longrightarrow> all_rows I (tab s) \<Longrightarrow> all_rows I (tab (snd (task s)))"
  by (simp add: rows_hold_def kept)

lemma accounts: "length (tb_rows (tab (snd (task s)))) + (case fst (task s) of Inr n \<Rightarrow> n | Inl _ \<Rightarrow> 0) = length (tb_rows (tab s))"
  by (simp add: reports deletes count_delete_rows)

lemma again: "fst (task (snd (task s))) = Inr 0"
proof -
  have "filter (\<lambda>(k, r). old s r) (filter (\<lambda>(k, r). \<not> old s r) xs) = []" for xs :: "(pk \<times> 'r) list"
    by (induction xs) auto
  then show ?thesis by (simp add: reports deletes same_age count_rows_def select_rows_def delete_rows_def)
qed

end

interpretation requests: purge w_events "\<lambda>w e. ev_timestamp e < request_cutoff w" purge_old_request_events
  by unfold_locales (auto simp: purge_old_request_events_def Let_def count_rows_zero request_cutoff_def)

interpretation responses: purge w_whois "\<lambda>w r. wr_queried_at r < whois_cutoff w" purge_old_whois_records
  by unfold_locales (auto simp: purge_old_whois_records_def Let_def count_rows_zero whois_cutoff_def)

section \<open>What survives\<close>

definition doomed :: "world \<Rightarrow> pk \<Rightarrow> bool" where
  "doomed w k \<longleftrightarrow> (\<exists>r. get_row k (w_ips w) = Some r \<and> purge_eligible w k r)"

lemma row_values_iff: "table_ok t \<Longrightarrow> x \<in> set (map f (row_values t)) \<longleftrightarrow> (\<exists>k r. get_row k t = Some r \<and> f r = x)"
  by (force simp: row_values_def get_row_Some)

lemma doomed_free:
  assumes "tables_ok w" "doomed w k"
  shows "get_row j (w_events w) = Some e \<Longrightarrow> ev_ip e \<noteq> k" "get_row j (w_history w) = Some h \<Longrightarrow> ch_ip h \<noteq> k"
  using assms row_values_iff[of "w_events w" k ev_ip] row_values_iff[of "w_history w" k ch_ip]
  by (auto simp: doomed_def purge_eligible_def tables_ok_def)

lemma delete_ips_doomed:
  "delete_ips (purge_eligible w) w =
     w\<lparr>w_ips := delete_rows (purge_eligible w) (w_ips w), w_events := delete_rows (\<lambda>_ e. doomed w (ev_ip e)) (w_events w),
       w_whois := delete_rows (\<lambda>_ r. doomed w (wr_ip r)) (w_whois w), w_history := delete_rows (\<lambda>_ h. doomed w (ch_ip h)) (w_history w)\<rparr>"
proof -
  have "(\<lambda>k. case get_row k (w_ips w) of None \<Rightarrow> False | Some r \<Rightarrow> purge_eligible w k r) = doomed w"
    by (auto simp: doomed_def fun_eq_iff split: option.splits)
  then show ?thesis by (simp add: delete_ips_def Let_def)
qed

lemma purge_stale_ips_tables:
  assumes ok: "tables_ok w"
  shows "snd (purge_stale_ips w) =
     w\<lparr>w_ips := delete_rows (purge_eligible w) (w_ips w), w_whois := delete_rows (\<lambda>_ r. doomed w (wr_ip r)) (w_whois w)\<rparr>"
proof (cases "count_rows (purge_eligible w) (w_ips w) = 0")
  case True
  have tok: "table_ok (w_ips w)" using ok by (simp add: tables_ok_def)
  have "\<not> doomed w k" for k
    using True select_rows_set[OF tok, of k _ "purge_eligible w"] by (auto simp: count_rows_def doomed_def)
  then have "delete_rows (\<lambda>_ r. doomed w (wr_ip r)) (w_whois w) = w_whois w" by (simp add: delete_rows_def)
  then show ?thesis using True by (simp add: purge_stale_ips_def Let_def count_rows_zero)
next
  case False
  have no: "delete_rows P t = t" if "table_ok t" "\<And>k r. get_row k t = Some r \<Longrightarrow> \<not> P k r" for P and t :: "'r table"
  proof -
    have "count_rows P t = 0"
    proof (rule ccontr)
      assume "count_rows P t \<noteq> 0"
      then obtain k r where "(k, r) \<in> set (select_rows P t)"
        by (cases "select_rows P t") (auto simp: count_rows_def)
      then show False using select_rowsD[OF that(1)] that(2) by blast
    qed
    then show ?thesis by (rule count_rows_zero)
  qed
  have "delete_rows (\<lambda>_ e. doomed w (ev_ip e)) (w_events w) = w_events w"
    by (rule no) (use ok doomed_free(1)[OF ok] in \<open>auto simp: tables_ok_def\<close>)
  moreover have "delete_rows (\<lambda>_ h. doomed w (ch_ip h)) (w_history w) = w_history w"
    by (rule no) (use ok doomed_free(2)[OF ok] in \<open>auto simp: tables_ok_def\<close>)
  ultimately show ?thesis using False by (simp add: purge_stale_ips_def Let_def delete_ips_doomed)
qed

lemma requests_frame: "snd (purge_old_request_events w) = w\<lparr>w_events := w_events (snd (purge_old_request_events w))\<rparr>"
  by (simp add: purge_old_request_events_def Let_def)

lemma responses_frame: "snd (purge_old_whois_records w) = w\<lparr>w_whois := w_whois (snd (purge_old_whois_records w))\<rparr>"
  by (simp add: purge_old_whois_records_def Let_def)

definition trimmed :: "world \<Rightarrow> world" where
  "trimmed w = w\<lparr>w_events := w_events (snd (purge_old_request_events w)), w_whois := w_whois (snd (purge_old_whois_records w))\<rparr>"

lemma purge_old_data_steps:
  "\<exists>s. purge_old_data w = (Inr s, snd (purge_stale_ips (trimmed w)))"
proof -
  obtain n w1 where n: "purge_old_request_events w = (Inr n, w1)" "w1 = w\<lparr>w_events := w_events w1\<rparr>"
    by (simp add: purge_old_request_events_def Let_def)
  obtain m w2 where m: "purge_old_whois_records w1 = (Inr m, w2)" "w2 = w1\<lparr>w_whois := w_whois w2\<rparr>"
    by (simp add: purge_old_whois_records_def Let_def)
  have "w_whois w1 = w_whois w" "whois_cutoff w1 = whois_cutoff w"
    by (subst n(2), simp add: whois_cutoff_def)+
  then have "w_whois w2 = w_whois (snd (purge_old_whois_records w))"
    using responses.deletes[of w1] responses.deletes[of w] m(1) by simp
  then have "w2 = trimmed w" using n(1) by (subst m(2), subst n(2)) (simp add: trimmed_def)
  moreover obtain i w3 where "purge_stale_ips w2 = (Inr i, w3)" by (simp add: purge_stale_ips_def Let_def)
  ultimately show ?thesis using n(1) m(1) by (simp add: purge_old_data_def bnd_def)
qed

lemma trimmed_ok:
  assumes "tables_ok w" shows "tables_ok (trimmed w)"
  using assms requests.table_ok_kept[of w] responses.table_ok_kept[of w] by (simp add: tables_ok_def trimmed_def)

lemma trimmed_rows:
  assumes "tables_ok w"
  shows "get_row k (w_events (trimmed w)) = Some e \<longleftrightarrow> get_row k (w_events w) = Some e \<and> request_cutoff w \<le> ev_timestamp e"
    and "get_row k (w_whois (trimmed w)) = Some r \<longleftrightarrow> get_row k (w_whois w) = Some r \<and> whois_cutoff w \<le> wr_queried_at r"
    and "w_ips (trimmed w) = w_ips w" "w_history (trimmed w) = w_history w" "ip_cutoff (trimmed w) = ip_cutoff w"
  using assms requests.kept[of w k e] responses.kept[of w k r]
  by (auto simp: tables_ok_def trimmed_def ip_cutoff_def)

definition protected :: "world \<Rightarrow> pk \<Rightarrow> ip_row \<Rightarrow> bool" where
  "protected w k r \<longleftrightarrow> ip_cutoff w \<le> ia_last_seen_at r \<or> ia_is_iran r
     \<or> (\<exists>j e. get_row j (w_events w) = Some e \<and> ev_ip e = k \<and> request_cutoff w \<le> ev_timestamp e)
     \<or> (\<exists>j h. get_row j (w_history w) = Some h \<and> ch_ip h = k)"

lemma eligible_trimmed:
  assumes "tables_ok w" shows "purge_eligible (trimmed w) k r \<longleftrightarrow> \<not> protected w k r"
proof -
  have t: "table_ok (w_events (trimmed w))" "table_ok (w_history (trimmed w))"
    using trimmed_ok[OF assms] by (simp_all add: tables_ok_def)
  show ?thesis
    unfolding purge_eligible_def protected_def row_values_iff[OF t(1)] row_values_iff[OF t(2)]
    unfolding trimmed_rows[OF assms] by auto
qed

lemma purge_result:
  assumes "tables_ok w" "purge_old_data w = (res, w')"
  shows "w' = (trimmed w)\<lparr>w_ips := delete_rows (\<lambda>k r. \<not> protected w k r) (w_ips w),
      w_whois := delete_rows (\<lambda>_ r. doomed (trimmed w) (wr_ip r)) (w_whois (trimmed w))\<rparr>"
proof -
  have "purge_eligible (trimmed w) = (\<lambda>k r. \<not> protected w k r)" using eligible_trimmed[OF assms(1)] by (simp add: fun_eq_iff)
  then show ?thesis
    using purge_old_data_steps[of w] assms(2) purge_stale_ips_tables[OF trimmed_ok[OF assms(1)]] trimmed_rows(3)[OF assms(1)] by auto
qed

text \<open>C5: The maintenance task deletes exactly what the retention rules allow: a request or response survives exactly
  while it is young enough (a response also only with its address), and an address exactly while it was seen recently,
  is Iranian, has a surviving request, or has any classification history; the history itself is untouched.\<close>

theorem purge_is_exact:
  assumes "tables_ok w" "purge_old_data w = (res, w')"
  shows "(get_row k (w_events w') = Some e \<longleftrightarrow> get_row k (w_events w) = Some e \<and> request_cutoff w \<le> ev_timestamp e)
    \<and> (get_row k (w_ips w') = Some r \<longleftrightarrow> get_row k (w_ips w) = Some r \<and> protected w k r)
    \<and> (get_row k (w_whois w') = Some x \<longleftrightarrow> get_row k (w_whois w) = Some x \<and> whois_cutoff w \<le> wr_queried_at x
         \<and> (\<forall>r. get_row (wr_ip x) (w_ips w) = Some r \<longrightarrow> protected w (wr_ip x) r))
    \<and> w_history w' = w_history w"
proof -
  have t: "table_ok (w_ips w)" "table_ok (w_whois (trimmed w))"
    using assms(1) trimmed_ok[OF assms(1)] by (simp_all add: tables_ok_def)
  have d: "doomed (trimmed w) j \<longleftrightarrow> (\<exists>r. get_row j (w_ips w) = Some r \<and> \<not> protected w j r)" for j
    by (simp add: doomed_def eligible_trimmed[OF assms(1)] trimmed_rows(3)[OF assms(1)])
  note w' = purge_result[OF assms]
  have "get_row k (w_events w') = Some e \<longleftrightarrow> get_row k (w_events w) = Some e \<and> request_cutoff w \<le> ev_timestamp e"
    unfolding w' using trimmed_rows(1)[OF assms(1)] by simp
  moreover have "get_row k (w_ips w') = Some r \<longleftrightarrow> get_row k (w_ips w) = Some r \<and> protected w k r"
    unfolding w' using get_delete_rows[OF t(1)] by (auto split: option.splits)
  moreover have "get_row k (w_whois w') = Some x \<longleftrightarrow> get_row k (w_whois (trimmed w)) = Some x \<and> \<not> doomed (trimmed w) (wr_ip x)"
    unfolding w' using get_delete_rows[OF t(2)] by (auto split: option.splits)
  moreover have "w_history w' = w_history w" unfolding w' using trimmed_rows(4)[OF assms(1)] by simp
  ultimately show ?thesis unfolding trimmed_rows(2)[OF assms(1)] d by blast
qed

section \<open>Examples\<close>

definition purge_world :: world where
  "purge_world = (empty_world default_settings (days 400))\<lparr>
     w_servers := add_row \<lparr>sv_name = ''a'', sv_hostname = ''a'', sv_ip_address = None, sv_ssh_port = 22, sv_ssh_username = ''u'',
       sv_ssh_auth_type = SSH_KEY, sv_ssh_private_key = [], sv_log_search_paths = [], sv_enabled = True,
       sv_last_connected_at = None, sv_last_error = [], sv_created_at = 0, sv_updated_at = 0\<rparr> empty_table,
     w_ips := add_rows [blank_ip ''5.1.2.3'' 4 100 100, blank_ip ''5.1.2.4'' 4 (days 399) 100] empty_table,
     w_whois := add_row \<lparr>wr_ip = 1, wr_queried_at = days 399, wr_whois_server = [], wr_raw_response = ''x'', wr_parsed_data = [],
       wr_response_hash = [], wr_created_at = 0\<rparr> empty_table\<rparr>"

lemma purge_world_ok: "db_ok purge_world"
  unfolding db_ok_check by code_simp

theorem purge_is_exact_witness:
  "w_history (snd (purge_old_data purge_world)) = w_history purge_world
   \<and> (\<forall>r. get_row 1 (w_ips (snd (purge_old_data purge_world))) = Some r \<longleftrightarrow>
        get_row 1 (w_ips purge_world) = Some r \<and> protected purge_world 1 r)"
  using purge_is_exact[OF _ surjective_pairing, of purge_world] purge_world_ok by (simp add: db_ok_def)

end
