(* ===== verification/Reporting.thy ===== *)
theory Reporting
  imports World Py_Datetime Py_Ipaddress "HOL-Library.Product_Lexorder" "HOL-Library.List_Lexorder" "HOL-Library.Multiset"
begin

text \<open>
  What the pages and downloads share: the order, grouping and counting of query sets, the printed form
  of an instant, and the \<open>csv\<close> module's writer with a reader of its own. Rows that compare equal under an
  ordering keep their insertion order (the database promises nothing about them).
\<close>

section \<open>Ordering and grouping\<close>

definition order_by :: "('r \<Rightarrow> 'k::linorder) \<Rightarrow> (pk \<times> 'r) list \<Rightarrow> (pk \<times> 'r) list" where
  "order_by key rows = sort_key (\<lambda>(_, r). key r) rows"

definition order_desc :: "('r \<Rightarrow> int) \<Rightarrow> (pk \<times> 'r) list \<Rightarrow> (pk \<times> 'r) list" where
  "order_desc key rows = sort_key (\<lambda>(_, r). - key r) rows"

text \<open>The order of an \<open>inet\<close> column: the address family, then the address.\<close>

definition inet_key :: "string \<Rightarrow> nat \<times> nat" where
  "inet_key s = (case ip_address s of None \<Rightarrow> (0, 0) | Some a \<Rightarrow> (ip_version a, ip_int a))"

text \<open>That order on the addresses themselves; two that differ in their scope only stay apart.\<close>

definition address_rank :: "ipaddr \<Rightarrow> nat \<times> nat \<times> string" where
  "address_rank a = (ip_version a, ip_int a, case a of V6 _ (Some scope) \<Rightarrow> CHR ''%'' # scope | _ \<Rightarrow> [])"

lemma address_rank_inject: "address_rank a = address_rank b \<Longrightarrow> a = b"
  by (cases a; cases b) (auto simp: address_rank_def split: option.splits)

instantiation ipaddr :: linorder
begin

definition less_eq_ipaddr :: "ipaddr \<Rightarrow> ipaddr \<Rightarrow> bool" where
  "less_eq_ipaddr a b \<longleftrightarrow> address_rank a \<le> address_rank b"

definition less_ipaddr :: "ipaddr \<Rightarrow> ipaddr \<Rightarrow> bool" where
  "less_ipaddr a b \<longleftrightarrow> address_rank a < address_rank b"

instance
  by standard (auto simp: less_eq_ipaddr_def less_ipaddr_def intro: address_rank_inject)

end

definition scopeless :: "ipaddr \<Rightarrow> bool" where
  "scopeless a \<longleftrightarrow> (case a of V6 _ (Some _) \<Rightarrow> False | _ \<Rightarrow> True)"

lemma inet_key_order:
  assumes "ip_address s = Some a" "ip_address t = Some b" "scopeless a" "scopeless b"
  shows "inet_key s \<le> inet_key t \<longleftrightarrow> a \<le> b"
  using assms by (cases a; cases b) (auto simp: inet_key_def less_eq_ipaddr_def address_rank_def scopeless_def split: option.splits)

lemma inet_sorted:
  assumes "list_all (\<lambda>s. \<exists>a. ip_address s = Some a \<and> scopeless a) ss" "sorted (map inet_key ss)"
  shows "sorted (map (\<lambda>s. the (ip_address s)) ss)"
  using assms
proof (induction ss)
  case (Cons s ss)
  have "the (ip_address s) \<le> the (ip_address t)" if t: "t \<in> set ss" for t
  proof -
    obtain a b where "ip_address s = Some a" "scopeless a" "ip_address t = Some b" "scopeless b"
      using Cons.prems(1) t by (auto simp: list_all_iff)
    moreover have "inet_key s \<le> inet_key t" using Cons.prems(2) t by auto
    ultimately show ?thesis using inet_key_order by simp
  qed
  then show ?case using Cons by simp
qed simp

text \<open>\<open>values(key).annotate(count=Count("id"))\<close>: each value with the number of its rows.\<close>

fun distinct_values :: "'k list \<Rightarrow> 'k list" where
  "distinct_values [] = []"
| "distinct_values (x # xs) = x # filter (\<lambda>y. y \<noteq> x) (distinct_values xs)"

definition tally :: "'k list \<Rightarrow> ('k \<times> nat) list" where
  "tally xs = map (\<lambda>k. (k, length (filter (\<lambda>x. x = k) xs))) (distinct_values xs)"

text \<open>\<open>order_by("-count")\<close> of a tally.\<close>

definition most_first :: "('k \<times> nat) list \<Rightarrow> ('k \<times> nat) list" where
  "most_first rows = sort_key (\<lambda>(_, n). - int n) rows"

lemma distinct_values_set [simp]: "set (distinct_values xs) = set xs"
  by (induction xs) auto

lemma distinct_values_distinct [simp]: "distinct (distinct_values xs)"
  by (induction xs) auto

lemma map_fst_tally: "map fst (tally xs) = distinct_values xs"
  by (simp add: tally_def comp_def)

lemma tally_in: "(k, n) \<in> set (tally xs) \<longleftrightarrow> k \<in> set xs \<and> n = length (filter (\<lambda>x. x = k) xs)"
  by (auto simp: tally_def)

lemma sum_tally: "sum_list (map snd (tally xs)) = length xs"
proof -
  have "sum_list (map snd (tally xs)) = (\<Sum>k\<in>set xs. count_list xs k)"
    by (simp add: tally_def comp_def sum_list_distinct_conv_sum_set count_list_eq_length_filter eq_commute)
  then show ?thesis by (simp add: sum_count_set)
qed

lemma sum_list_permuted: "mset xs = mset ys \<Longrightarrow> sum_list xs = (sum_list ys :: nat)"
  by (metis sum_mset_sum_list)

lemma order_by_set [simp]: "set (order_by key rows) = set rows"
  by (simp add: order_by_def)

lemma order_by_mset [simp]: "mset (order_by key rows) = mset rows"
  by (simp add: order_by_def)

lemma order_desc_mset [simp]: "mset (order_desc key rows) = mset rows"
  by (simp add: order_desc_def)

lemma order_desc_set [simp]: "set (order_desc key rows) = set rows"
  by (simp add: order_desc_def)

lemma order_by_sorted: "sorted (map (\<lambda>(_, r). key r) (order_by key rows))"
  by (simp add: order_by_def)

lemma most_first_mset [simp]: "mset (most_first rows) = mset rows"
  by (simp add: most_first_def)

lemma most_first_set [simp]: "set (most_first rows) = set rows"
  by (simp add: most_first_def)

lemma most_first_sorted: "sorted_wrt (\<ge>) (map snd (most_first rows))"
proof -
  have "sorted_wrt (\<lambda>x y. snd y \<le> snd x) (sort_key (\<lambda>(_, n). - int n) rows)"
    using sorted_sort_key[of "\<lambda>(_, n). - int n" rows]
    by (simp add: sorted_map case_prod_beta')
  then show ?thesis by (simp add: most_first_def sorted_wrt_map)
qed

section \<open>Instants in print\<close>

text \<open>CPython's \<open>_ord2ymd\<close>: year, month and day of an ordinal.\<close>

definition ord_ymd :: "nat \<Rightarrow> nat \<times> nat \<times> nat" where
  "ord_ymd ordinal =
     (let n = ordinal - 1; n400 = n div 146097; n = n mod 146097;
          n100 = n div 36524; n = n mod 36524; n4 = n div 1461; n = n mod 1461;
          n1 = n div 365; n = n mod 365;
          year = n400 * 400 + 1 + n100 * 100 + n4 * 4 + n1 in
      if n1 = 4 \<or> n100 = 4 then (year - 1, 12, 31)
      else
        (let month = (n + 50) div 32;
             month = (if days_before_month year month > n then month - 1 else month)
         in (year, month, n - days_before_month year month + 1)))"

definition padded :: "nat \<Rightarrow> nat \<Rightarrow> string" where
  "padded width n = (let s = nat_str n in replicate (width - length s) (CHR ''0'') @ s)"

text \<open>\<open>str(datetime)\<close> and, with a \<open>T\<close> between date and time, \<open>isoformat()\<close> of an aware UTC datetime.\<close>

definition datetime_print :: "string \<Rightarrow> time \<Rightarrow> string" where
  "datetime_print sep t =
     (let us = t mod 1000000; secs = t div 1000000; of_day = nat (secs mod 86400);
          (y, m, d) = ord_ymd (nat (secs div 86400 + 719163))
      in padded 4 y @ ''-'' @ padded 2 m @ ''-'' @ padded 2 d @ sep @
         padded 2 (of_day div 3600) @ '':'' @ padded 2 (of_day div 60 mod 60) @ '':'' @ padded 2 (of_day mod 60) @
         (if us = 0 then [] else ''.'' @ padded 6 (nat us)) @ ''+00:00'')"

definition datetime_str :: "time \<Rightarrow> string" where "datetime_str = datetime_print '' ''"
definition isoformat :: "time \<Rightarrow> string" where "isoformat = datetime_print ''T''"

lemma isoformat_example: "isoformat 1709210096000000 = ''2024-02-29T12:34:56+00:00''"
  by code_simp

section \<open>The \<open>csv\<close> module\<close>

text \<open>The writer of the default dialect: commas, CRLF, quotes only where needed.\<close>

definition csv_special :: "char \<Rightarrow> bool" where
  "csv_special c \<longleftrightarrow> c \<in> {CHR '','', CHR 0x22, CHR 0x0D, CHR 0x0A}"

fun double_quotes :: "string \<Rightarrow> string" where
  "double_quotes [] = []"
| "double_quotes (c # s) = (if c = CHR 0x22 then [c, c] else [c]) @ double_quotes s"

definition csv_field :: "string \<Rightarrow> string" where
  "csv_field s = (if list_ex csv_special s then [CHR 0x22] @ double_quotes s @ [CHR 0x22] else s)"

definition csv_row :: "string list \<Rightarrow> string" where
  "csv_row cells =
     (if cells = [[]] then [CHR 0x22, CHR 0x22] else join_with '','' (map csv_field cells)) @ [CHR 0x0D, CHR 0x0A]"

definition csv_text :: "string list list \<Rightarrow> string" where
  "csv_text rows = concat (map csv_row rows)"

text \<open>A reader of that format (RFC 4180): a field is plain text, or quoted text with doubled quotes.\<close>

datatype csv_state = At_field | In_plain | In_quotes | After_quote

fun csv_read :: "csv_state \<Rightarrow> string \<Rightarrow> string list \<Rightarrow> string \<Rightarrow> (string list list) option" where
  "csv_read st f row [] = (if st = At_field \<and> f = [] \<and> row = [] then Some [] else None)"
| "csv_read In_quotes f row (c # s) =
     (if c = CHR 0x22 then csv_read After_quote f row s else csv_read In_quotes (f @ [c]) row s)"
| "csv_read st f row (c # s) =
     (if c = CHR 0x22 \<and> st = At_field then csv_read In_quotes [] row s
      else if c = CHR 0x22 \<and> st = After_quote then csv_read In_quotes (f @ [c]) row s
      else if c = CHR '','' then csv_read At_field [] (row @ [f]) s
      else if c = CHR 0x0D then
        (case s of [] \<Rightarrow> None
         | d # s' \<Rightarrow> if d = CHR 0x0A then map_option ((#) (row @ [f])) (csv_read At_field [] [] s') else None)
      else if c = CHR 0x0A then None
      else if st = After_quote then None
      else csv_read In_plain (f @ [c]) row s)"

definition csv_parse :: "string \<Rightarrow> (string list list) option" where
  "csv_parse s = csv_read At_field [] [] s"

definition sep_next :: "string \<Rightarrow> bool" where
  "sep_next rest \<longleftrightarrow> (\<exists>s. rest = CHR '','' # s \<or> rest = CHR 0x0D # CHR 0x0A # s)"

definition field_done :: "string \<Rightarrow> string list \<Rightarrow> string \<Rightarrow> (string list list) option" where
  "field_done f row rest =
     (case rest of [] \<Rightarrow> None
      | c # s \<Rightarrow> if c = CHR '','' then csv_read At_field [] (row @ [f]) s
                else map_option ((#) (row @ [f])) (csv_read At_field [] [] (tl s)))"

lemma csv_plain:
  assumes "\<not> list_ex csv_special s" "sep_next rest" "st \<in> {At_field, In_plain}"
  shows "csv_read st f row (s @ rest) = field_done (f @ s) row rest"
  using assms
proof (induction s arbitrary: f st)
  case Nil
  then show ?case by (auto simp: sep_next_def field_done_def)
next
  case (Cons c s)
  have c: "c \<noteq> CHR 0x22" "c \<noteq> CHR '',''" "c \<noteq> CHR 0x0D" "c \<noteq> CHR 0x0A"
    using Cons.prems(1) by (auto simp: csv_special_def)
  have s: "\<not> list_ex csv_special s" using Cons.prems(1) by simp
  have "csv_read st f row ((c # s) @ rest) = csv_read In_plain (f @ [c]) row (s @ rest)"
    using c Cons.prems(3) by auto
  then show ?case using Cons.IH[OF s Cons.prems(2), of In_plain "f @ [c]"] by simp
qed

lemma csv_after_quote:
  assumes "sep_next rest" shows "csv_read After_quote f row rest = field_done f row rest"
  using assms by (auto simp: sep_next_def field_done_def)

lemma csv_quoted:
  assumes "sep_next rest"
  shows "csv_read In_quotes f row (double_quotes s @ CHR 0x22 # rest) = field_done (f @ s) row rest"
proof (induction s arbitrary: f)
  case Nil
  then show ?case using csv_after_quote[OF assms] by simp
next
  case (Cons c s)
  then show ?case using Cons.IH[of "f @ [c]"] by simp
qed

lemma csv_one_field:
  assumes "sep_next rest" shows "csv_read At_field [] row (csv_field s @ rest) = field_done s row rest"
  using csv_plain[OF _ assms, of s At_field "[]" row] csv_quoted[OF assms, of "[]" row s] by (simp add: csv_field_def)

lemma sep_next_simps: "sep_next (CHR '','' # s)" "sep_next (CHR 0x0D # CHR 0x0A # s)"
  by (auto simp: sep_next_def)

lemma csv_fields:
  "csv_read At_field [] row (join_with '','' (map csv_field (f # fs)) @ CHR 0x0D # CHR 0x0A # rest) =
   map_option ((#) (row @ f # fs)) (csv_read At_field [] [] rest)"
proof (induction fs arbitrary: f row)
  case Nil
  then show ?case using csv_one_field[of "CHR 0x0D # CHR 0x0A # rest" row f]
    by (simp add: sep_next_simps field_done_def)
next
  case (Cons g fs)
  have "csv_read At_field [] row (join_with '','' (map csv_field (f # g # fs)) @ CHR 0x0D # CHR 0x0A # rest) =
      csv_read At_field [] (row @ [f]) (join_with '','' (map csv_field (g # fs)) @ CHR 0x0D # CHR 0x0A # rest)"
    using csv_one_field[of "CHR '','' # join_with '','' (map csv_field (g # fs)) @ CHR 0x0D # CHR 0x0A # rest" row f]
    by (simp add: sep_next_simps field_done_def)
  then show ?case using Cons.IH[of "row @ [f]" g] by simp
qed

lemma csv_one_row:
  assumes "cells \<noteq> []"
  shows "csv_read At_field [] [] (csv_row cells @ rest) = map_option ((#) cells) (csv_read At_field [] [] rest)"
proof (cases "cells = [[]]")
  case False
  obtain f fs where "cells = f # fs" using assms by (cases cells) auto
  then show ?thesis using False csv_fields[of "[]" f fs rest] by (simp add: csv_row_def)
qed (simp add: csv_row_def)

lemma csv_parse_text: "\<forall>row\<in>set rows. row \<noteq> [] \<Longrightarrow> csv_parse (csv_text rows) = Some rows"
  by (induction rows) (auto simp: csv_parse_def csv_text_def csv_one_row)

end
