(* ===== verification/Analytics.thy ===== *)
theory Analytics
  imports Reporting Ssh_Service "HOL-Library.List_Lexorder"
begin

text \<open>
  \<open>apps/dashboard/analytics.py\<close> and \<open>apps/dashboard/map.py\<close>: the window a chart covers, the series of the
  dashboard, and the points of the world map. \<open>parse_datetime\<close> and \<open>make_aware\<close> of Django are parameters;
  buckets are those of the default time zone UTC; coordinates are exact rationals.
\<close>

section \<open>Windows\<close>

datatype parsed_datetime = Naive time | Aware time

record datetime_lib =
  dt_parse :: "string \<Rightarrow> parsed_datetime option res"
  dt_make_aware :: "time \<Rightarrow> time"

definition period_delta :: "string \<Rightarrow> int" where
  "period_delta period =
     (if period = ''1h'' then hours 1 else if period = ''6h'' then hours 6 else if period = ''24h'' then hours 24
      else if period = ''7d'' then days 7 else if period = ''30d'' then days 30 else hours 24)"

definition aware :: "datetime_lib \<Rightarrow> parsed_datetime \<Rightarrow> time" where
  "aware lib d = (case d of Naive t \<Rightarrow> dt_make_aware lib t | Aware t \<Rightarrow> t)"

definition resolve_period ::
  "datetime_lib \<Rightarrow> string \<Rightarrow> string option \<Rightarrow> string option \<Rightarrow> world \<Rightarrow> (time \<times> time) res" where
  "resolve_period lib period custom_start custom_end w =
     (let now = w_now w; standard = (now - period_delta period, now) in
      case (custom_start, custom_end) of
        (Some s, Some e) \<Rightarrow>
          if period = ''custom'' \<and> s \<noteq> [] \<and> e \<noteq> [] then
            res_bind (dt_parse lib s) (\<lambda>start. res_bind (dt_parse lib e) (\<lambda>end.
              Inr (case (start, end) of (Some a, Some b) \<Rightarrow> (aware lib a, aware lib b) | _ \<Rightarrow> standard)))
          else Inr standard
      | _ \<Rightarrow> Inr standard)"

datatype trunc = Trunc_minute | Trunc_hour | Trunc_day

definition bucket_trunc :: "time \<Rightarrow> time \<Rightarrow> trunc" where
  "bucket_trunc start end =
     (if end - start \<le> hours 2 then Trunc_minute else if end - start \<le> hours 48 then Trunc_hour else Trunc_day)"

definition trunc_span :: "trunc \<Rightarrow> int" where
  "trunc_span u = (case u of Trunc_minute \<Rightarrow> minutes 1 | Trunc_hour \<Rightarrow> hours 1 | Trunc_day \<Rightarrow> days 1)"

definition trunc_time :: "trunc \<Rightarrow> time \<Rightarrow> time" where
  "trunc_time u t = t - t mod trunc_span u"

section \<open>The dashboard series\<close>

record dashboard_series =
  ds_requests_over_time :: "(time \<times> nat) list"
  ds_unique_ips_over_time :: "(time \<times> nat) list"
  ds_countries :: "(string \<times> nat) list"
  ds_iran :: nat
  ds_other :: nat
  ds_unknown :: nat
  ds_top_iranian_ips :: "(string \<times> nat) list"
  ds_top_iranian_cidrs :: "(string \<times> nat) list"
  ds_top_countries :: "(string \<times> nat) list"

definition top_n :: nat where "top_n = 10"

definition events_between :: "time \<Rightarrow> time \<Rightarrow> world \<Rightarrow> event list" where
  "events_between start end w =
     map snd (select_rows (\<lambda>_ e. start \<le> ev_timestamp e \<and> ev_timestamp e \<le> end) (w_events w))"

definition ips_of_events :: "event list \<Rightarrow> world \<Rightarrow> ip_row list" where
  "ips_of_events es w = map snd (select_rows (\<lambda>k _. k \<in> set (map ev_ip es)) (w_ips w))"

text \<open>The join of events with their address, as the filters on \<open>ip__...\<close> see it.\<close>

definition iranian_hits :: "event list \<Rightarrow> world \<Rightarrow> ip_row list" where
  "iranian_hits es w = filter ia_is_iran (List.map_filter (\<lambda>e. get_row (ev_ip e) (w_ips w)) es)"

definition over_time :: "(event \<Rightarrow> time) \<Rightarrow> event list \<Rightarrow> (time \<times> nat) list" where
  "over_time bucket es = sort_key fst (tally (map bucket es))"

definition unique_over_time :: "(event \<Rightarrow> time) \<Rightarrow> event list \<Rightarrow> (time \<times> nat) list" where
  "unique_over_time bucket es =
     map (\<lambda>b. (b, length (distinct_values (map ev_ip (filter (\<lambda>e. bucket e = b) es))))) (sort (distinct_values (map bucket es)))"

definition dashboard_build :: "time \<Rightarrow> time \<Rightarrow> world \<Rightarrow> dashboard_series" where
  "dashboard_build start end w =
     (let es = events_between start end w;
          bucket = (\<lambda>e. trunc_time (bucket_trunc start end) (ev_timestamp e));
          ips = ips_of_events es w;
          countries = most_first (tally (filter (\<lambda>c. c \<noteq> []) (map ia_country_code ips)));
          hits = iranian_hits es w
      in \<lparr>ds_requests_over_time = over_time bucket es,
          ds_unique_ips_over_time = unique_over_time bucket es,
          ds_countries = countries,
          ds_iran = length (filter ia_is_iran ips),
          ds_other = length (filter (\<lambda>r. \<not> ia_is_iran r \<and> ia_iran_checked_at r \<noteq> None) ips),
          ds_unknown = length (filter (\<lambda>r. \<not> ia_is_iran r \<and> ia_iran_checked_at r = None) ips),
          ds_top_iranian_ips = take top_n (most_first (tally (map ia_address hits))),
          ds_top_iranian_cidrs = take top_n (most_first (tally (List.map_filter ia_iran_match_cidr hits))),
          ds_top_countries = take top_n countries\<rparr>)"

section \<open>The world map\<close>

definition high_zoom_threshold :: int where "high_zoom_threshold = 8"
definition max_individual_points :: nat where "max_individual_points = 2000"

definition map_filter_status :: "string \<Rightarrow> time \<Rightarrow> time \<Rightarrow> world \<Rightarrow> pk \<Rightarrow> ip_row \<Rightarrow> bool" where
  "map_filter_status status start end w k r =
     (if status = ''503'' then k \<in> set (map ev_ip (events_between start end w))
      else if status = ''iran'' then ia_is_iran r
      else if status = ''non_iran'' then \<not> ia_is_iran r \<and> ia_iran_checked_at r \<noteq> None
      else if status = ''unknown'' then ia_iran_checked_at r = None
      else True)"

definition filtered_queryset :: "string \<Rightarrow> time \<Rightarrow> time \<Rightarrow> world \<Rightarrow> (pk \<times> ip_row) list" where
  "filtered_queryset status start end w =
     order_desc ia_last_seen_at
       (select_rows (\<lambda>k r. ia_latitude r \<noteq> None \<and> ia_longitude r \<noteq> None \<and> map_filter_status status start end w k r) (w_ips w))"

record map_point =
  mp_lat :: rat
  mp_lon :: rat
  mp_count :: nat
  mp_iran_count :: nat
  mp_status :: string
  mp_ip :: "(pk \<times> ip_row \<times> nat) option"   \<comment> \<open>the address and its requests, on individual points\<close>

definition coords :: "ip_row \<Rightarrow> (rat \<times> rat)" where
  "coords r = (the (ia_latitude r), the (ia_longitude r))"

definition event_count :: "time \<Rightarrow> time \<Rightarrow> world \<Rightarrow> pk \<Rightarrow> nat" where
  "event_count start end w k = length (filter (\<lambda>e. ev_ip e = k) (events_between start end w))"

definition individual_points ::
  "(pk \<times> ip_row) list \<Rightarrow> string \<Rightarrow> time \<Rightarrow> time \<Rightarrow> world \<Rightarrow> map_point list" where
  "individual_points rows status start end w =
     map (\<lambda>(k, r). \<lparr>mp_lat = fst (coords r), mp_lon = snd (coords r), mp_count = 1, mp_iran_count = 0,
                     mp_status = status, mp_ip = Some (k, r, event_count start end w k)\<rparr>)
       (take max_individual_points rows)"

text \<open>Python's \<open>round\<close>: to the nearest integer, halves to the even one.\<close>

definition py_round :: "rat \<Rightarrow> int" where
  "py_round x =
     (let f = \<lfloor>x\<rfloor>; d = x - of_int f in
      if d < 1 / 2 then f else if d > 1 / 2 then f + 1 else if even f then f else f + 1)"

definition grid_size_for_zoom :: "int \<Rightarrow> rat" where
  "grid_size_for_zoom zoom = max (1 / 2) (40 / 2 ^ nat zoom)"

definition grid_key :: "rat \<Rightarrow> rat \<times> rat \<Rightarrow> rat \<times> rat" where
  "grid_key g p = (of_int (py_round (fst p / g)) * g, of_int (py_round (snd p / g)) * g)"

fun add_to_bucket :: "string \<Rightarrow> rat \<times> rat \<Rightarrow> bool \<Rightarrow> map_point list \<Rightarrow> map_point list" where
  "add_to_bucket status key is_iran [] =
     [\<lparr>mp_lat = fst key, mp_lon = snd key, mp_count = 1, mp_iran_count = (if is_iran then 1 else 0),
       mp_status = status, mp_ip = None\<rparr>]"
| "add_to_bucket status key is_iran (b # bs) =
     (if (mp_lat b, mp_lon b) = key
      then b\<lparr>mp_count := mp_count b + 1, mp_iran_count := mp_iran_count b + (if is_iran then 1 else 0)\<rparr> # bs
      else b # add_to_bucket status key is_iran bs)"

definition clustered_points :: "(pk \<times> ip_row) list \<Rightarrow> int \<Rightarrow> string \<Rightarrow> map_point list" where
  "clustered_points rows zoom status =
     (let g = grid_size_for_zoom zoom in
      foldl (\<lambda>bs (_, r). add_to_bucket status (grid_key g (coords r)) (ia_is_iran r) bs) [] rows)"

definition build_points ::
  "(pk \<times> ip_row) list \<Rightarrow> int \<Rightarrow> string \<Rightarrow> time \<Rightarrow> time \<Rightarrow> world \<Rightarrow> map_point list" where
  "build_points rows zoom status start end w =
     (if high_zoom_threshold \<le> zoom then individual_points rows status start end w
      else clustered_points rows zoom status)"

section \<open>Rounding to the grid\<close>

lemma round_off:
  fixes x :: rat
  assumes "of_int f \<le> x" "x < of_int f + 1"
  shows "\<bar>x - of_int (if x - of_int f < 1 / 2 then f else if x - of_int f > 1 / 2 then f + 1 else if even f then f else f + 1)\<bar> \<le> 1 / 2"
  using assms by (auto simp: abs_if)

lemma py_round_near: "\<bar>x - of_int (py_round x)\<bar> \<le> 1 / 2"
  unfolding py_round_def Let_def by (rule round_off) linarith+

lemma grid_size_pos: "0 < grid_size_for_zoom zoom"
  by (simp add: grid_size_for_zoom_def)

lemma grid_near: "0 < g \<Longrightarrow> \<bar>x - of_int (py_round (x / g)) * g\<bar> \<le> g / 2"
proof -
  assume g: "0 < g"
  have "x - of_int (py_round (x / g)) * g = (x / g - of_int (py_round (x / g))) * g"
    using g by (simp add: left_diff_distrib)
  then have "\<bar>x - of_int (py_round (x / g)) * g\<bar> = \<bar>x / g - of_int (py_round (x / g))\<bar> * g"
    using g by (simp add: abs_mult)
  also have "\<dots> \<le> 1 / 2 * g" using py_round_near[of "x / g"] g by (intro mult_right_mono) simp_all
  finally show ?thesis by simp
qed

section \<open>The buckets of a map\<close>

definition points_count :: "(map_point \<Rightarrow> nat) \<Rightarrow> map_point list \<Rightarrow> nat" where
  "points_count f bs = sum_list (map f bs)"

lemma add_to_bucket_sums:
  "points_count mp_count (add_to_bucket status key i bs) = Suc (points_count mp_count bs)"
  "points_count mp_iran_count (add_to_bucket status key i bs) = points_count mp_iran_count bs + (if i then 1 else 0)"
  by (induction bs) (auto simp: points_count_def)

lemma add_to_bucket_keys:
  "map (\<lambda>b. (mp_lat b, mp_lon b)) (add_to_bucket status key i bs) =
   (let ks = map (\<lambda>b. (mp_lat b, mp_lon b)) bs in if key \<in> set ks then ks else ks @ [key])"
  by (induction bs) (auto simp: Let_def prod_eq_iff)

lemma add_to_bucket_key_set:
  "set (map (\<lambda>b. (mp_lat b, mp_lon b)) (add_to_bucket status key i bs)) = insert key (set (map (\<lambda>b. (mp_lat b, mp_lon b)) bs))"
  unfolding add_to_bucket_keys Let_def by (simp add: insert_absorb del: set_map)

lemma add_to_bucket_all:
  assumes "\<forall>b\<in>set bs. mp_iran_count b \<le> mp_count b \<and> 0 < mp_count b"
  shows "\<forall>b\<in>set (add_to_bucket status key i bs). mp_iran_count b \<le> mp_count b \<and> 0 < mp_count b"
  using assms by (induction bs) auto

lemma clustered_points_rev:
  "clustered_points (rows @ [(k, r)]) zoom status =
     add_to_bucket status (grid_key (grid_size_for_zoom zoom) (coords r)) (ia_is_iran r) (clustered_points rows zoom status)"
  by (simp add: clustered_points_def Let_def)

abbreviation point_key :: "map_point \<Rightarrow> rat \<times> rat" where
  "point_key b \<equiv> (mp_lat b, mp_lon b)"

lemma clustered_points_inv:
  "points_count mp_count (clustered_points rows zoom status) = length rows"
  "points_count mp_iran_count (clustered_points rows zoom status) = length (filter (ia_is_iran \<circ> snd) rows)"
  "distinct (map point_key (clustered_points rows zoom status))"
  "set (map point_key (clustered_points rows zoom status)) = set (map (grid_key (grid_size_for_zoom zoom) \<circ> coords \<circ> snd) rows)"
  "\<forall>b\<in>set (clustered_points rows zoom status). mp_iran_count b \<le> mp_count b \<and> 0 < mp_count b"
proof (induction rows rule: rev_induct)
  case Nil
  { case 1 then show ?case by (simp add: clustered_points_def points_count_def) }
  { case 2 then show ?case by (simp add: clustered_points_def points_count_def) }
  { case 3 then show ?case by (simp add: clustered_points_def) }
  { case 4 then show ?case by (simp add: clustered_points_def) }
  { case 5 then show ?case by (simp add: clustered_points_def) }
next
  case (snoc x rows)
  obtain k r where x: "x = (k, r)" by (cases x)
  note step = clustered_points_rev[of rows k r zoom status, folded x]
  { case 1 show ?case unfolding step add_to_bucket_sums snoc.IH by simp }
  { case 2 show ?case unfolding step add_to_bucket_sums snoc.IH by (simp add: x comp_def) }
  { case 3 show ?case unfolding step add_to_bucket_keys Let_def using snoc.IH(3) by simp }
  { case 4 show ?case unfolding step add_to_bucket_key_set snoc.IH(4) by (simp add: x) }
  { case 5 show ?case unfolding step by (rule add_to_bucket_all[OF snoc.IH(5)]) }
qed


section \<open>The dashboard accounts for every request\<close>

lemma over_time_sum: "sum_list (map snd (over_time bucket es)) = length es"
proof -
  have "mset (map snd (over_time bucket es)) = mset (map snd (tally (map bucket es)))"
    unfolding over_time_def mset_map by simp
  then have "sum_list (map snd (over_time bucket es)) = sum_list (map snd (tally (map bucket es)))"
    by (metis sum_mset_sum_list)
  then show ?thesis by (simp add: sum_tally)
qed

lemma unique_over_time_member:
  "(b, n) \<in> set (unique_over_time bucket es) \<Longrightarrow>
   n = card (ev_ip ` {e \<in> set es. bucket e = b}) \<and> n \<le> length (filter (\<lambda>e. bucket e = b) es)"
proof -
  assume "(b, n) \<in> set (unique_over_time bucket es)"
  then have n: "n = length (distinct_values (map ev_ip (filter (\<lambda>e. bucket e = b) es)))" by (auto simp: unique_over_time_def)
  have "card (set (distinct_values (map ev_ip (filter (\<lambda>e. bucket e = b) es)))) = n"
    unfolding n by (rule distinct_card) simp
  then have "n = card (ev_ip ` {e \<in> set es. bucket e = b})" by simp
  moreover have "card (set (map ev_ip (filter (\<lambda>e. bucket e = b) es))) \<le> length (filter (\<lambda>e. bucket e = b) es)"
    using card_length[of "map ev_ip (filter (\<lambda>e. bucket e = b) es)"] by simp
  ultimately show ?thesis by simp
qed

lemma ips_of_events_count:
  assumes "db_ok w" "es = events_between start end w"
  shows "length (ips_of_events es w) = card (ev_ip ` set es)"
proof -
  have t: "table_ok (w_ips w)" "table_ok (w_events w)" and refs: "refs_ok w"
    using assms(1) by (simp_all add: db_ok_def tables_ok_def)
  let ?sel = "select_rows (\<lambda>k _. k \<in> set (map ev_ip es)) (w_ips w)"
  have d: "distinct (map fst ?sel)"
    unfolding select_rows_def using table_ok_distinct[OF t(1)] by (rule distinct_map_filter)
  have "fst ` set ?sel = ev_ip ` set es"
  proof (intro set_eqI iffI)
    fix k assume "k \<in> fst ` set ?sel"
    then obtain r where "(k, r) \<in> set ?sel" by auto
    from select_rowsD[OF t(1) this] show "k \<in> ev_ip ` set es" by simp
  next
    fix k assume "k \<in> ev_ip ` set es"
    then obtain e where e: "e \<in> set es" "k = ev_ip e" by auto
    then obtain j where j: "(j, e) \<in> set (select_rows (\<lambda>_ e. start \<le> ev_timestamp e \<and> ev_timestamp e \<le> end) (w_events w))"
      unfolding assms(2) events_between_def by auto
    have "get_row j (w_events w) = Some e" using select_rowsD[OF t(2) j] by simp
    then have "has_row (w_ips w) k" using refs e(2) by (auto simp: refs_ok_def dest: all_rowsD)
    then obtain r where "get_row k (w_ips w) = Some r" by (auto simp: has_row_def)
    then have "(k, r) \<in> set ?sel" unfolding select_rows_set[OF t(1)] using e by simp
    then show "k \<in> fst ` set ?sel" by force
  qed
  then have "card (ev_ip ` set es) = card (set (map fst ?sel))" by simp
  then show ?thesis using distinct_card[OF d] by (simp add: ips_of_events_def)
qed

lemma split_in_three:
  "length (filter P xs) + length (filter (\<lambda>x. \<not> P x \<and> Q x) xs) + length (filter (\<lambda>x. \<not> P x \<and> \<not> Q x) xs) = length xs"
  by (induction xs) auto

text \<open>C30: The dashboard loses nothing: its request series adds up to the requests of the window, a bucket has no more
  distinct addresses than requests, Iranian, foreign and unchecked addresses add up to the distinct addresses of
  those requests, and the ranked lists are in order and at most ten long.\<close>

theorem dashboard_accounts_for_requests:
  assumes "db_ok w" "ds = dashboard_build start end w"
  shows "sum_list (map snd (ds_requests_over_time ds)) = length (events_between start end w)
    \<and> ds_iran ds + ds_other ds + ds_unknown ds = card (ev_ip ` set (events_between start end w))
    \<and> ((b, n) \<in> set (ds_unique_ips_over_time ds) \<longrightarrow>
        (\<exists>m. (b, m) \<in> set (ds_requests_over_time ds) \<and> n \<le> m))
    \<and> sorted_wrt (\<ge>) (map snd (ds_top_iranian_ips ds)) \<and> length (ds_top_iranian_ips ds) \<le> 10
    \<and> ds_top_countries ds = take 10 (ds_countries ds)"
proof -
  let ?es = "events_between start end w"
  let ?bucket = "\<lambda>e. trunc_time (bucket_trunc start end) (ev_timestamp e)"
  have "ds_iran ds + ds_other ds + ds_unknown ds = length (ips_of_events ?es w)"
    using split_in_three[where P = ia_is_iran and Q = "\<lambda>r. ia_iran_checked_at r \<noteq> None" and xs = "ips_of_events ?es w"]
    by (simp add: assms(2) dashboard_build_def Let_def)
  moreover have "\<exists>m. (b, m) \<in> set (ds_requests_over_time ds) \<and> n \<le> m" if "(b, n) \<in> set (ds_unique_ips_over_time ds)"
  proof -
    have bn: "(b, n) \<in> set (unique_over_time ?bucket ?es)" using that by (simp add: assms(2) dashboard_build_def Let_def)
    then have "b \<in> set (map ?bucket ?es)" by (auto simp: unique_over_time_def)
    then have "(b, length (filter (\<lambda>x. x = b) (map ?bucket ?es))) \<in> set (over_time ?bucket ?es)"
      by (simp add: over_time_def tally_in)
    moreover have "length (filter (\<lambda>x. x = b) (map ?bucket ?es)) = length (filter (\<lambda>e. ?bucket e = b) ?es)"
      by (simp add: filter_map comp_def)
    ultimately show ?thesis using unique_over_time_member[OF bn] by (auto simp: assms(2) dashboard_build_def Let_def)
  qed
  moreover have "sorted_wrt (\<ge>) (map snd (take m (most_first rows)))" for m and rows :: "(string \<times> nat) list"
    using most_first_sorted[of rows] by (simp add: sorted_wrt_take take_map[symmetric])
  ultimately show ?thesis
    using ips_of_events_count[OF assms(1) refl, of start "end"] over_time_sum[of ?bucket ?es]
    by (simp add: assms(2) dashboard_build_def Let_def top_n_def)
qed

section \<open>Examples\<close>

definition site_event :: "pk \<Rightarrow> time \<Rightarrow> event" where
  "site_event k t =
     \<lparr>ev_server = 1, ev_log_source = 1, ev_ip = k, ev_timestamp = t, ev_host = ''example.ir'', ev_method = ''GET'',
      ev_uri = ''/'', ev_status = 503, ev_bytes = 10, ev_request_time = None, ev_user_agent = [], ev_referer = [],
      ev_raw_line = ''raw'', ev_created_at = t\<rparr>"

definition site_ip :: "string \<Rightarrow> bool \<Rightarrow> rat \<Rightarrow> ip_row" where
  "site_ip address is_iran lat =
     (blank_ip address 4 100 100)\<lparr>ia_is_iran := is_iran, ia_iran_checked_at := Some 100,
        ia_latitude := Some lat, ia_longitude := Some 50\<rparr>"

definition site_world :: world where
  "site_world = (empty_world default_settings (hours 2))
     \<lparr>w_servers := add_row example_server empty_table,
      w_sources := add_row (new_source 1 ''/var/log/nginx/access.log'' 0) empty_table,
      w_ips := add_rows [site_ip ''5.1.2.3'' True 35, site_ip ''9.9.9.9'' False 36] empty_table,
      w_events := add_rows [site_event 1 (hours 1), site_event 2 (hours 1), site_event 1 (hours 2)] empty_table\<rparr>"

lemma site_world_ok: "db_ok site_world"
  unfolding db_ok_check by code_simp


theorem dashboard_accounts_for_requests_witness:
  "sum_list (map snd (ds_requests_over_time (dashboard_build 0 (hours 3) site_world))) = length (events_between 0 (hours 3) site_world)
    \<and> length (events_between 0 (hours 3) site_world) = 3"
proof -
  have "length (events_between 0 (hours 3) site_world) = 3" by code_simp
  then show ?thesis using dashboard_accounts_for_requests[OF site_world_ok refl, of 0 "hours 3"] by simp
qed

end
