(* ===== verification/Iran_Cidr.thy ===== *)
theory Iran_Cidr
  imports World Py_Ipaddress
begin

text \<open>
  \<open>apps/iran\<close> (models, providers, services, tasks) and the CIDR field of \<open>apps/common/fields.py\<close>: the
  country network table, its providers, longest-prefix matching, classification with its history,
  and the monthly validation run. What the network fetch of the RIPE provider returns is a parameter.
\<close>

section \<open>The CIDR field\<close>

definition cidr_prep :: "string \<Rightarrow> string option res" where
  "cidr_prep v =
     (if v = [] then Inr None
      else (case ip_network v of
              Some net \<Rightarrow> Inr (Some (net_str net))
            | None \<Rightarrow> Inl (ValidationError (py_repr v @ '' is not a valid CIDR network.''))))"

text \<open>The other methods of the field: the column type, the field it is introspected as, and the values read back.\<close>

definition cidr_db_type :: string where "cidr_db_type = ''cidr''"

definition cidr_internal_type :: string where "cidr_internal_type = ''CharField''"

definition cidr_from_db :: "string option \<Rightarrow> string option" where "cidr_from_db v = v"

definition cidr_to_python :: "string option \<Rightarrow> string option" where
  "cidr_to_python v = (if v = None \<or> v = Some [] then None else v)"

definition prefix_length_of :: "string \<Rightarrow> int res" where
  "prefix_length_of cidr =
     (case rsplit1 (CHR ''/'') cidr of
        [_, p] \<Rightarrow> (case py_int p of Some n \<Rightarrow> Inr n | None \<Rightarrow> Inl ValueError)
      | _ \<Rightarrow> Inl IndexError)"

text \<open>\<open>CountryNetwork.save()\<close> of a new row: the prefix length comes from the text given, the column
  from the field; a null column is refused by the database.\<close>

definition save_new_network :: "country_network \<Rightarrow> pk eff" where
  "save_new_network r w =
     (if cn_cidr r = [] then (Inl (RuntimeError ''IntegrityError''), w)
      else
        (case prefix_length_of (cn_cidr r) of
           Inl e \<Rightarrow> (Inl e, w)
         | Inr n \<Rightarrow>
             (case cidr_prep (cn_cidr r) of
                Inl e \<Rightarrow> (Inl e, w)
              | Inr None \<Rightarrow> (Inl (RuntimeError ''IntegrityError''), w)
              | Inr (Some c) \<Rightarrow>
                  if \<exists>s\<in>set (row_values (w_cidrs w)). cn_country_code s = cn_country_code r \<and> cn_cidr s = c
                  then (Inl (RuntimeError ''IntegrityError''), w)
                  else
                    (let (k, t) = insert_row (r\<lparr>cn_cidr := c, cn_prefix_length := nat n,
                                     cn_created_at := w_now w, cn_updated_at := w_now w\<rparr>) (w_cidrs w)
                     in (Inr k, w\<lparr>w_cidrs := t\<rparr>)))))"

section \<open>Providers\<close>

record cidr_entry =
  ce_cidr :: string
  ce_country_code :: string
  ce_network :: string

definition iran_country_code :: string where "iran_country_code = ''IR''"

definition iran_entry :: "string \<Rightarrow> cidr_entry" where
  "iran_entry cidr = \<lparr>ce_cidr = cidr, ce_country_code = iran_country_code, ce_network = []\<rparr>"

datatype provider = Static | Ripencc

fun provider_source :: "provider \<Rightarrow> string" where
  "provider_source Static = ''manual''"
| "provider_source Ripencc = ''ripencc''"

definition get_provider :: "string \<Rightarrow> provider res" where
  "get_provider key =
     (if key = ''static'' then Inr Static
      else if key = ''ripencc'' then Inr Ripencc
      else Inl (ImproperlyConfigured (''Unknown IRAN_CIDR_SOURCE: '' @ py_repr key @ ''. Available: ['' @ py_repr ''ripencc''
        @ '', '' @ py_repr ''static'' @ '']'')))"

definition static_fetch :: "world \<Rightarrow> cidr_entry list" where
  "static_fetch w =
     map (\<lambda>(_, r). \<lparr>ce_cidr = cn_cidr r, ce_country_code = cn_country_code r, ce_network = cn_network r\<rparr>)
       (select_rows (\<lambda>_ r. cn_country_code r = iran_country_code \<and> cn_source r = ''manual'') (w_cidrs w))"

definition ripe_ipv4 :: "string \<Rightarrow> string \<Rightarrow> cidr_entry list option" where
  "ripe_ipv4 start value =
     (case (py_int value, ipv4_of_string start) of
        (Some count, Some a) \<Rightarrow>
          (let end_ip = int a + count - 1 in
           if end_ip < 0 \<or> 2 ^ 32 \<le> end_ip then None
           else (case summarize_address_range (V4 a) (V4 (nat end_ip)) of
                   Inl _ \<Rightarrow> None
                 | Inr nets \<Rightarrow> Some (map (\<lambda>n. iran_entry (net_str n)) nets)))
      | _ \<Rightarrow> None)"

definition ripe_ipv6 :: "string \<Rightarrow> string \<Rightarrow> cidr_entry list option" where
  "ripe_ipv6 start value =
     (case py_int value of
        None \<Rightarrow> None
      | Some p \<Rightarrow> map_option (\<lambda>n. [iran_entry (net_str n)]) (ipv6_network (start @ ''/'' @ int_str p)))"

definition ripe_record :: "string \<Rightarrow> string \<Rightarrow> string \<Rightarrow> string \<Rightarrow> string \<Rightarrow> cidr_entry list" where
  "ripe_record cc rtype start value status =
     (if cc \<noteq> iran_country_code \<or> rtype \<notin> {''ipv4'', ''ipv6''} then []
      else if status \<notin> {''allocated'', ''assigned''} then []
      else (case (if rtype = ''ipv4'' then ripe_ipv4 start value else ripe_ipv6 start value) of
              None \<Rightarrow> [] | Some es \<Rightarrow> es))"

definition ripe_line :: "string \<Rightarrow> cidr_entry list" where
  "ripe_line raw =
     (let line = py_strip raw in
      if line = [] \<or> starts_with ''#'' line then []
      else
        (case split_on (CHR ''|'') line of
           registry # cc # rtype # start # value # date # status # _ \<Rightarrow> ripe_record cc rtype start value status
         | _ \<Rightarrow> []))"

definition ripe_parse :: "string \<Rightarrow> cidr_entry list" where
  "ripe_parse body = concat (map ripe_line (splitlines body))"

definition provider_fetch :: "string res \<Rightarrow> provider \<Rightarrow> world \<Rightarrow> (cidr_entry list) res" where
  "provider_fetch response p w =
     (case p of Static \<Rightarrow> Inr (static_fetch w) | Ripencc \<Rightarrow> res_bind response (\<lambda>body. Inr (ripe_parse body)))"

section \<open>Matching\<close>

definition cidr_contains :: "string \<Rightarrow> ipnet \<Rightarrow> bool" where
  "cidr_contains cidr net = (case ip_network cidr of None \<Rightarrow> False | Some outer \<Rightarrow> net_contains outer net)"

fun longest_prefix :: "(pk \<times> country_network) list \<Rightarrow> (pk \<times> country_network) option" where
  "longest_prefix [] = None"
| "longest_prefix (x # xs) =
     (case longest_prefix xs of
        None \<Rightarrow> Some x
      | Some y \<Rightarrow> if cn_prefix_length (snd y) > cn_prefix_length (snd x) then Some y else Some x)"

definition candidates :: "ipnet \<Rightarrow> world \<Rightarrow> (pk \<times> country_network) list" where
  "candidates net w =
     select_rows (\<lambda>_ r. cn_country_code r = iran_country_code \<and> cn_enabled r \<and> cidr_contains (cn_cidr r) net) (w_cidrs w)"

definition find_matching_cidr :: "string \<Rightarrow> world \<Rightarrow> (pk \<times> country_network) option res" where
  "find_matching_cidr address w =
     (case ip_network address of
        None \<Rightarrow> Inl (ValidationError (py_repr address @ '' is not a valid CIDR network.''))
      | Some net \<Rightarrow> Inr (longest_prefix (candidates net w)))"

section \<open>Classification\<close>

record verdict =
  vd_is_iran :: bool
  vd_cidr :: "string option"
  vd_source :: string
  vd_confidence :: rat

definition verdict_of :: "(pk \<times> country_network) option \<Rightarrow> string \<Rightarrow> verdict" where
  "verdict_of matched whois_country =
     (case matched of
        Some (_, r) \<Rightarrow> \<lparr>vd_is_iran = True, vd_cidr = Some (cn_cidr r), vd_source = cn_source r, vd_confidence = 1\<rparr>
      | None \<Rightarrow>
          if whois_country = iran_country_code
          then \<lparr>vd_is_iran = True, vd_cidr = None, vd_source = ''whois'', vd_confidence = 1 / 2\<rparr>
          else \<lparr>vd_is_iran = False, vd_cidr = None, vd_source = [], vd_confidence = 1\<rparr>)"

definition close_open_periods :: "pk \<Rightarrow> time \<Rightarrow> country_history table \<Rightarrow> country_history table" where
  "close_open_periods ip now t =
     update_rows (\<lambda>_ h. ch_ip h = ip \<and> ch_valid_until h = None) (\<lambda>h. h\<lparr>ch_valid_until := Some now\<rparr>) t"

definition open_period :: "pk \<Rightarrow> verdict \<Rightarrow> time \<Rightarrow> country_history" where
  "open_period ip v now =
     \<lparr>ch_ip = ip, ch_country_code = iran_country_code, ch_source = vd_source v, ch_cidr = vd_cidr v,
      ch_valid_from = now, ch_valid_until = None, ch_confidence = vd_confidence v, ch_created_at = now\<rparr>"

definition record_change :: "pk \<Rightarrow> verdict \<Rightarrow> time \<Rightarrow> country_history table \<Rightarrow> country_history table" where
  "record_change ip v now t =
     (let t1 = close_open_periods ip now t in
      if vd_is_iran v then add_row (open_period ip v now) t1 else t1)"

definition apply_verdict :: "verdict \<Rightarrow> time \<Rightarrow> ip_row \<Rightarrow> ip_row" where
  "apply_verdict v now r =
     r\<lparr>ia_is_iran := vd_is_iran v, ia_iran_match_cidr := vd_cidr v, ia_iran_checked_at := Some now\<rparr>"

definition classify :: "pk \<Rightarrow> ip_row \<Rightarrow> ip_row eff" where
  "classify k ip w =
     (case find_matching_cidr (ia_address ip) w of
        Inl e \<Rightarrow> (Inl e, w)
      | Inr matched \<Rightarrow>
          (let now = w_now w;
               v = verdict_of matched (ia_whois_country ip);
               changed = (vd_is_iran v \<noteq> ia_is_iran ip \<or> vd_cidr v \<noteq> ia_iran_match_cidr ip);
               h = (if changed then record_change k v now (w_history w) else w_history w)
           in (Inr (apply_verdict v now ip),
               w\<lparr>w_history := h,
                 w_ips := update_row k (\<lambda>r. (apply_verdict v now r)\<lparr>ia_updated_at := now\<rparr>) (w_ips w)\<rparr>)))"

section \<open>The validation run\<close>

record validation_summary =
  vs_fetched :: nat
  vs_created :: nat
  vs_disabled :: nat
  vs_reevaluated :: nat

definition upsert_network :: "string \<Rightarrow> cidr_entry \<Rightarrow> bool eff" where
  "upsert_network source en w =
     (case cidr_prep (ce_cidr en) of
        Inl e \<Rightarrow> (Inl e, w)
      | Inr None \<Rightarrow> (Inl (RuntimeError ''IntegrityError''), w)
      | Inr (Some c) \<Rightarrow>
          (case select_rows (\<lambda>_ r. cn_country_code r = ce_country_code en \<and> cn_cidr r = c) (w_cidrs w) of
             (k, _) # _ \<Rightarrow>
               (Inr False,
                w\<lparr>w_cidrs := update_row k (\<lambda>r. r\<lparr>cn_network := ce_network en, cn_source := source,
                     cn_enabled := True, cn_last_verified_at := Some (w_now w), cn_updated_at := w_now w\<rparr>) (w_cidrs w)\<rparr>)
           | [] \<Rightarrow>
               (case save_new_network
                       \<lparr>cn_country_code = ce_country_code en, cn_cidr = ce_cidr en, cn_network = ce_network en,
                        cn_prefix_length = 0, cn_source = source, cn_valid_from = None, cn_valid_until = None,
                        cn_last_verified_at = Some (w_now w), cn_enabled = True, cn_created_at = w_now w,
                        cn_updated_at = w_now w\<rparr> w of
                  (Inl e, w') \<Rightarrow> (Inl e, w')
                | (Inr _, w') \<Rightarrow> (Inr True, w'))))"

fun upsert_all :: "string \<Rightarrow> cidr_entry list \<Rightarrow> nat eff" where
  "upsert_all source [] w = (Inr 0, w)"
| "upsert_all source (en # ens) w =
     (case upsert_network source en w of
        (Inl e, w') \<Rightarrow> (Inl e, w')
      | (Inr created, w') \<Rightarrow>
          (case upsert_all source ens w' of
             (Inl e, w2) \<Rightarrow> (Inl e, w2)
           | (Inr n, w2) \<Rightarrow> (Inr (if created then Suc n else n), w2)))"

definition prepared :: "string \<Rightarrow> string option" where
  "prepared cidr = (case cidr_prep cidr of Inr c \<Rightarrow> c | Inl _ \<Rightarrow> None)"

definition removed :: "string \<Rightarrow> cidr_entry list \<Rightarrow> country_network \<Rightarrow> bool" where
  "removed source entries r \<longleftrightarrow>
     cn_country_code r = iran_country_code \<and> cn_source r = source \<and> cn_enabled r \<and>
     Some (cn_cidr r) \<notin> set (map (\<lambda>en. prepared (ce_cidr en)) entries)"

fun classify_all :: "(pk \<times> ip_row) list \<Rightarrow> nat eff" where
  "classify_all [] w = (Inr 0, w)"
| "classify_all ((k, ip) # rest) w =
     (case classify k ip w of
        (Inl e, w') \<Rightarrow> (Inl e, w')
      | (Inr _, w') \<Rightarrow>
          (case classify_all rest w' of
             (Inl e, w2) \<Rightarrow> (Inl e, w2)
           | (Inr n, w2) \<Rightarrow> (Inr (Suc n), w2)))"

definition gone :: "string \<Rightarrow> cidr_entry list \<Rightarrow> pk \<Rightarrow> country_network \<Rightarrow> bool" where
  "gone source entries = (\<lambda>_ r. removed source entries r)"

definition disable_network :: "time \<Rightarrow> country_network \<Rightarrow> country_network" where
  "disable_network now r = r\<lparr>cn_enabled := False, cn_last_verified_at := Some now\<rparr>"

text \<open>\<open>IranCIDRValidationService.run(provider)\<close>: a provider is its \<open>fetch\<close> and its \<open>SOURCE\<close>.\<close>

definition validate_with :: "(world \<Rightarrow> (cidr_entry list) res) \<Rightarrow> string \<Rightarrow> validation_summary eff" where
  "validate_with fetch source w =
     (case fetch w of
        Inl e \<Rightarrow> (Inl e, w)
      | Inr entries \<Rightarrow>
          (case upsert_all source entries w of
             (Inl e, w1) \<Rightarrow> (Inl e, w1)
           | (Inr created, w1) \<Rightarrow>
               (let disabled = count_rows (gone source entries) (w_cidrs w1);
                    w2 = w1\<lparr>w_cidrs := update_rows (gone source entries) (disable_network (w_now w1)) (w_cidrs w1)\<rparr>
                in if created \<noteq> 0 \<or> disabled \<noteq> 0 then
                     (case classify_all (select_rows (\<lambda>_ r. ia_is_iran r) (w_ips w2)) w2 of
                        (Inl e, w3) \<Rightarrow> (Inl e, w3)
                      | (Inr n, w3) \<Rightarrow>
                          (Inr \<lparr>vs_fetched = length entries, vs_created = created, vs_disabled = disabled,
                                vs_reevaluated = n\<rparr>, w3))
                   else
                     (Inr \<lparr>vs_fetched = length entries, vs_created = created, vs_disabled = disabled,
                           vs_reevaluated = 0\<rparr>, w2))))"

definition validation_run :: "string res \<Rightarrow> provider \<Rightarrow> validation_summary eff" where
  "validation_run response p = validate_with (provider_fetch response p) (provider_source p)"

section \<open>Tasks\<close>

definition classify_ip :: "pk \<Rightarrow> unit eff" where
  "classify_ip k w =
     (case get_row k (w_ips w) of
        None \<Rightarrow> (Inr (), w)
      | Some ip \<Rightarrow>
          skip_if_held (redis_lock (lock_key ''iran:'' (ia_address ip)) (seconds 60)
            (\<lambda>w. case classify k ip w of (Inl e, w') \<Rightarrow> (Inl e, w') | (Inr _, w') \<Rightarrow> (Inr (), w'))) w)"

definition run_monthly_iran_validation :: "string res \<Rightarrow> unit eff" where
  "run_monthly_iran_validation response w =
     (if count_rows (\<lambda>_ r. cn_country_code r = iran_country_code) (w_cidrs w) = 0 then (Inr (), w)
      else (case get_provider (st_iran_cidr_source (w_settings w)) of
              Inl e \<Rightarrow> (Inl e, w)
            | Inr p \<Rightarrow> (case validation_run response p w of
                         (Inl e, w') \<Rightarrow> (Inl e, w') | (Inr _, w') \<Rightarrow> (Inr (), w'))))"

section \<open>Stored networks\<close>

text \<open>A stored network is in canonical text and its prefix length is that of the text.\<close>

definition network_ok :: "country_network \<Rightarrow> bool" where
  "network_ok r =
     (case ip_network (cn_cidr r) of
        None \<Rightarrow> False
      | Some net \<Rightarrow> net_str net = cn_cidr r \<and> net_len net = cn_prefix_length r)"

definition nets_ok :: "world \<Rightarrow> bool" where
  "nets_ok w \<longleftrightarrow> table_ok (w_cidrs w) \<and> all_rows (\<lambda>_. network_ok) (w_cidrs w)"

lemma network_okD:
  assumes "network_ok r"
  obtains net where "ip_network (cn_cidr r) = Some net" "cn_cidr r = net_str net"
    "net_len net = cn_prefix_length r" "net_valid net"
proof -
  obtain net where net: "ip_network (cn_cidr r) = Some net" "net_str net = cn_cidr r" "net_len net = cn_prefix_length r"
    using assms by (auto simp: network_ok_def split: option.splits)
  show ?thesis by (rule that[OF net(1) net(2)[symmetric] net(3) ip_network_valid[OF net(1)]])
qed

lemma rsplit1_split: "split_on c s = [a, b] \<Longrightarrow> rsplit1 c s = [a, b]"
proof -
  assume sp: "split_on c s = [a, b]"
  have "s = a @ c # b" using join_split_on[of c s] sp by simp
  moreover have "c \<notin> set a" "c \<notin> set b" using split_on_pieces[of _ c s] sp by auto
  moreover have "takeWhile (\<lambda>x. x \<noteq> c) (rev b @ c # rev a) = rev b" "dropWhile (\<lambda>x. x \<noteq> c) (rev b @ c # rev a) = c # rev a"
    using \<open>c \<notin> set b\<close> by (induction b rule: rev_induct) auto
  ultimately show ?thesis by (simp add: rsplit1_def)
qed

lemma rsplit1_no_sep: "split_on c s = [a] \<Longrightarrow> rsplit1 c s = [a]"
  using join_split_on[of c s] split_on_pieces[of _ c s] by (simp add: rsplit1_def)

lemma net_len_mask_addr [simp]: "net_len (mask_addr a p) = p"
  by (simp add: mask_addr_def Let_def split: ipaddr.splits)

lemma underscored_chars: "underscored s \<Longrightarrow> c \<in> set s \<Longrightarrow> ascii_digit c \<or> c = CHR ''_''"
  by (induction s rule: underscored.induct) (auto split: if_splits)

lemma py_int_dotted:
  assumes "CHR ''.'' \<in> set s" shows "py_int s = None"
proof -
  have "CHR ''.'' \<in> set (py_strip s)"
    using assms by (rule py_strip_keeps) (simp add: py_ws_def cp_def)
  then obtain c cs where s: "py_strip s = c # cs" by (cases "py_strip s") auto
  let ?b = "if c = CHR ''-'' \<or> c = CHR ''+'' then cs else py_strip s"
  have "CHR ''.'' \<in> set ?b" using \<open>CHR ''.'' \<in> set (py_strip s)\<close> s by auto
  then have "\<not> underscored ?b" using underscored_chars[of ?b "CHR ''.''"] by (auto simp: ascii_digit_def cp_def)
  then show ?thesis using s unfolding py_int_def Let_def by (simp only: list.case) (simp split del: if_split)
qed

lemma prefix_of_digits_py_int: "prefix_of_digits bits m = Some p \<Longrightarrow> py_int m = Some (int p)"
  by (auto simp: prefix_of_digits_def py_int_digits split: if_splits)

lemma mask_string_dotted: "prefix_of_mask_string m = Some p \<Longrightarrow> CHR ''.'' \<in> set m"
proof -
  assume "prefix_of_mask_string m = Some p"
  then obtain n where "ipv4_of_string m = Some n" by (auto simp: prefix_of_mask_string_def split: option.splits)
  then have "length (split_on (CHR ''.'') m) = 4"
    by (auto simp: ipv4_of_string_def split: list.splits option.splits)
  then show ?thesis using split_on_no_sep[of "CHR ''.''" m] by (cases "CHR ''.'' \<in> set m") auto
qed

text \<open>The prefix length \<open>save()\<close> reads off the text is the one of the network the column stores.\<close>

lemma prefix_length_agrees:
  assumes "ip_network s = Some net" "prefix_length_of s = Inr n"
  shows "n = int (net_len net)"
proof -
  obtain a m where sp: "split_on (CHR ''/'') s = [a, m]"
  proof -
    have "length (split_on (CHR ''/'') s) \<noteq> 1"
    proof
      assume "length (split_on (CHR ''/'') s) = 1"
      then obtain a where "split_on (CHR ''/'') s = [a]" by (cases "split_on (CHR ''/'') s") auto
      then have "rsplit1 (CHR ''/'') s = [a]" by (rule rsplit1_no_sep)
      then show False using assms(2) by (simp add: prefix_length_of_def)
    qed
    moreover have "length (split_on (CHR ''/'') s) \<in> {1, 2}"
      using assms(1) by (auto simp: ip_network_def ipv4_network_def ipv6_network_def split: list.splits option.splits)
    ultimately have "length (split_on (CHR ''/'') s) = 2" by auto
    then show ?thesis using that
      by (cases "split_on (CHR ''/'') s"; cases "tl (split_on (CHR ''/'') s)") auto
  qed
  have pi: "py_int m = Some n"
    using assms(2) rsplit1_split[OF sp] by (auto simp: prefix_length_of_def split: option.splits)
  consider p bits where "prefix_of_digits bits m = Some p" "net_len net = p" | p where "prefix_of_mask_string m = Some p"
    using assms(1) sp by (auto simp: ip_network_def ipv4_network_def ipv6_network_def split: option.splits)
  then show ?thesis
    by cases (use pi prefix_of_digits_py_int mask_string_dotted py_int_dotted in fastforce)+
qed

lemma cidr_prep_canonical:
  assumes "cidr_prep v = Inr (Some c)"
  obtains net where "ip_network v = Some net" "c = net_str net" "ip_network c = Some net" "net_valid net"
  using assms net.parse_valid net.parse_show by (auto simp: cidr_prep_def split: if_splits option.splits)

text \<open>What was written is read back, and writing it again changes nothing.\<close>

lemma cidr_field_stable:
  assumes "cidr_prep v = Inr (Some c)"
  shows "cidr_to_python (cidr_from_db (Some c)) = Some c" "cidr_prep c = Inr (Some c)"
proof -
  obtain net where n: "c = net_str net" "ip_network c = Some net" using cidr_prep_canonical[OF assms] by blast
  then have "c \<noteq> []" by (auto simp: net_str_def)
  then show "cidr_to_python (cidr_from_db (Some c)) = Some c" "cidr_prep c = Inr (Some c)"
    using n by (simp_all add: cidr_to_python_def cidr_from_db_def cidr_prep_def)
qed

lemma save_new_network_ok:
  assumes "save_new_network r w = (Inr k, w')"
  obtains c n where "cidr_prep (cn_cidr r) = Inr (Some c)" "prefix_length_of (cn_cidr r) = Inr n"
    "w' = w\<lparr>w_cidrs := add_row (r\<lparr>cn_cidr := c, cn_prefix_length := nat n,
                                     cn_created_at := w_now w, cn_updated_at := w_now w\<rparr>) (w_cidrs w)\<rparr>"
    "k = Suc (tb_seq (w_cidrs w))"
    "network_ok (r\<lparr>cn_cidr := c, cn_prefix_length := nat n, cn_created_at := w_now w, cn_updated_at := w_now w\<rparr>)"
    "\<forall>s\<in>set (row_values (w_cidrs w)). (cn_country_code s, cn_cidr s) \<noteq> (cn_country_code r, c)"
proof -
  obtain c n where cn: "cidr_prep (cn_cidr r) = Inr (Some c)" "prefix_length_of (cn_cidr r) = Inr n"
    "\<not> (\<exists>s\<in>set (row_values (w_cidrs w)). cn_country_code s = cn_country_code r \<and> cn_cidr s = c)"
    using assms by (auto simp: save_new_network_def split: if_splits sum.splits option.splits)
  have ne: "cn_cidr r \<noteq> []" using cn(1) by (auto simp: cidr_prep_def)
  obtain net where net: "ip_network (cn_cidr r) = Some net" "c = net_str net" "ip_network c = Some net"
    by (rule cidr_prep_canonical[OF cn(1)])
  show ?thesis
  proof (rule that[OF cn(1,2)])
    show "w' = w\<lparr>w_cidrs := add_row (r\<lparr>cn_cidr := c, cn_prefix_length := nat n,
                                     cn_created_at := w_now w, cn_updated_at := w_now w\<rparr>) (w_cidrs w)\<rparr>"
      "k = Suc (tb_seq (w_cidrs w))"
      using assms cn ne by (auto simp: save_new_network_def add_row_def insert_row_def)
    show "network_ok (r\<lparr>cn_cidr := c, cn_prefix_length := nat n, cn_created_at := w_now w, cn_updated_at := w_now w\<rparr>)"
      using net prefix_length_agrees[OF net(1) cn(2)] by (simp add: network_ok_def)
    show "\<forall>s\<in>set (row_values (w_cidrs w)). (cn_country_code s, cn_cidr s) \<noteq> (cn_country_code r, c)"
      using cn(3) by auto
  qed
qed

section \<open>Nested networks\<close>

lemma net_range_nested:
  assumes "net_valid n1" "net_valid n2" "ip_version (net_addr n1) = ip_version (net_addr n2)"
    and "i \<in> net_range n1" "i \<in> net_range n2" "net_len n1 \<le> net_len n2"
  shows "net_range n2 \<subseteq> net_range n1"
proof -
  obtain a p where o: "n1 = Net a p" by (cases n1)
  obtain b q where b: "n2 = Net b q" by (cases n2)
  have m: "max_prefixlen a = max_prefixlen b" using assms(3) o b by (cases a; cases b) auto
  define h where "h = max_prefixlen b - p" define g where "g = max_prefixlen b - q"
  have "g \<le> h" using assms(6) o b by (simp add: h_def g_def)
  have d: "2 ^ h dvd ip_int a" "2 ^ g dvd ip_int b" using assms(1,2) m o b by (simp_all add: h_def g_def)
  have i: "ip_int a \<le> i" "i < ip_int a + 2 ^ h" "ip_int b \<le> i" "i < ip_int b + 2 ^ g"
    using assms(4,5) m o b by (auto simp: net_range_def host_bits_def h_def g_def)
  have q: "i div 2 ^ h = ip_int a div 2 ^ h" "i div 2 ^ g = ip_int b div 2 ^ g"
    using i d by (auto elim!: dvdE intro!: div_nat_eqI simp: algebra_simps)
  have "ip_int b div 2 ^ h = i div 2 ^ h"
    using q(2) \<open>g \<le> h\<close> by (metis div_mult2_eq le_Suc_ex power_add)
  then have "ip_int a div 2 ^ h = ip_int b div 2 ^ h" using q by simp
  then have "{ip_int b ..< ip_int b + 2 ^ g} \<subseteq> {ip_int a ..< ip_int a + 2 ^ h}"
    using aligned_interval_subset[OF d] \<open>g \<le> h\<close> by blast
  then show ?thesis using m o b by (simp add: net_range_def host_bits_def h_def g_def)
qed

lemma longest_prefix_None [simp]: "longest_prefix xs = None \<longleftrightarrow> xs = []"
  by (cases xs) (auto split: option.splits)

lemma longest_prefix_spec:
  "longest_prefix xs = Some x \<Longrightarrow> x \<in> set xs \<and> (\<forall>y\<in>set xs. cn_prefix_length (snd y) \<le> cn_prefix_length (snd x))"
proof (induction xs arbitrary: x)
  case (Cons a xs)
  show ?case
  proof (cases "longest_prefix xs")
    case None
    then have "xs = []" by simp
    then show ?thesis using Cons.prems by simp
  next
    case (Some y)
    then show ?thesis using Cons.prems Cons.IH[OF Some] by (fastforce split: if_splits)
  qed
qed simp

section \<open>Registry records\<close>

definition v4_nets :: "nat \<Rightarrow> nat \<Rightarrow> ipnet list" where
  "v4_nets a b = map (\<lambda>(n, p). Net (V4 n) p) (summarize_ints 32 a b)"

lemma v4_nets_facts:
  assumes "b < 2 ^ 32"
  shows "(\<Union>n\<in>set (v4_nets a b). net_range n) = {a..b}"
    and "\<forall>n\<in>set (v4_nets a b). net_valid n"
    and "sorted_wrt (\<lambda>m n. net_range m \<inter> net_range n = {}) (v4_nets a b)"
proof -
  have r: "net_range (case x of (n, p) \<Rightarrow> Net (V4 n) p) = block_range 32 x" for x
    by (cases x) (simp add: net_range_def host_bits_def block_range_def)
  show "(\<Union>n\<in>set (v4_nets a b). net_range n) = {a..b}"
    using summarize_ints_cover[OF assms, of a] by (simp add: v4_nets_def r)
  show "\<forall>n\<in>set (v4_nets a b). net_valid n"
  proof
    fix n assume "n \<in> set (v4_nets a b)"
    then obtain m p where mp: "(m, p) \<in> set (summarize_ints 32 a b)" "n = Net (V4 m) p"
      by (auto simp: v4_nets_def)
    then have "block_ok 32 (m, p)" using summarize_ints_ok[OF assms, of a] by (auto simp: list_all_iff)
    then have "p \<le> 32" "2 ^ (32 - p) dvd m" "m + 2 ^ (32 - p) \<le> 2 ^ 32" by (simp_all add: block_ok_def)
    moreover have "(0::nat) < 2 ^ (32 - p)" by simp
    ultimately have "m < 2 ^ 32" by linarith
    then show "net_valid n" using mp(2) \<open>p \<le> 32\<close> \<open>2 ^ (32 - p) dvd m\<close> by simp
  qed
  show "sorted_wrt (\<lambda>m n. net_range m \<inter> net_range n = {}) (v4_nets a b)"
    unfolding v4_nets_def sorted_wrt_map r
    by (rule sorted_wrt_mono_rel[OF _ summarize_ints_sorted[OF assms]]) fastforce
qed

lemma ripe_ipv4_nets:
  assumes "py_int value = Some count" "ipv4_of_string start = Some a"
  shows "ripe_ipv4 start value =
    (if 0 < count \<and> int a + count \<le> 2 ^ 32
     then Some (map (\<lambda>n. iran_entry (net_str n)) (v4_nets a (a + nat count - 1))) else None)"
proof (cases "0 < count \<and> int a + count \<le> 2 ^ 32")
  case True
  then have e: "nat (int a + count - 1) = a + nat count - 1" by linarith
  have "a \<le> a + nat count - 1" using True by linarith
  moreover have "\<not> (int a + count - 1 < 0 \<or> 2 ^ 32 \<le> int a + count - 1)" using True by linarith
  ultimately show ?thesis
    using assms True
    by (simp add: ripe_ipv4_def Let_def e summarize_address_range_def v4_nets_def case_prod_beta' comp_def not_less
        del: map_map) 
next
  case False
  then show ?thesis using assms
    by (auto simp: ripe_ipv4_def Let_def summarize_address_range_def not_less)
qed

lemma ripe_line_ipv4:
  assumes "split_on (CHR ''|'') (py_strip raw) = registry # iran_country_code # ''ipv4'' # start # value # date # status # rest"
    and "\<not> starts_with ''#'' (py_strip raw)"
  shows "ripe_line raw = (if status \<in> {''allocated'', ''assigned''}
      then case ripe_ipv4 start value of None \<Rightarrow> [] | Some es \<Rightarrow> es else [])"
proof -
  have "py_strip raw \<noteq> []" using assms(1) by auto
  then have "ripe_line raw = ripe_record iran_country_code ''ipv4'' start value status"
    using assms by (simp add: ripe_line_def Let_def)
  then show ?thesis by (simp add: ripe_record_def)
qed

lemma ripe_entries_canonical:
  assumes "en \<in> set (ripe_parse body)"
  obtains net where "net_valid net" "en = iran_entry (net_str net)"
proof -
  obtain raw where raw: "en \<in> set (ripe_line raw)" using assms by (auto simp: ripe_parse_def)
  have "\<exists>cc rtype start value status. en \<in> set (ripe_record cc rtype start value status)"
  proof (rule ccontr)
    assume no: "\<nexists>cc rtype start value status. en \<in> set (ripe_record cc rtype start value status)"
    have "en \<notin> set (ripe_line raw)"
      unfolding ripe_line_def Let_def using no by (simp split: list.split)
    then show False using raw by blast
  qed
  then obtain cc rtype start "value" status where "en \<in> set (ripe_record cc rtype start value status)" by blast
  then consider es where "ripe_ipv4 start value = Some es" "en \<in> set es"
    | es where "ripe_ipv6 start value = Some es" "en \<in> set es"
    unfolding ripe_record_def by (cases "ripe_ipv4 start value"; cases "ripe_ipv6 start value") (auto split: if_split_asm)
  then show ?thesis
  proof cases
    case 1
    then obtain count a where ca: "py_int value = Some count" "ipv4_of_string start = Some a"
      by (auto simp: ripe_ipv4_def split: option.splits)
    have b: "0 < count" "int a + count \<le> 2 ^ 32" and es: "es = map (\<lambda>n. iran_entry (net_str n)) (v4_nets a (a + nat count - 1))"
      using 1(1) ripe_ipv4_nets[OF ca] by (auto split: if_splits)
    have "int (a + nat count - 1) < 2 ^ 32" using b by linarith
    then have "a + nat count - 1 < 2 ^ 32" by simp
    then show ?thesis using that v4_nets_facts(2) es 1(2) by fastforce
  next
    case 2
    then obtain x net where "ipv6_network x = Some net" "en = iran_entry (net_str net)"
      by (auto simp: ripe_ipv6_def split: option.splits)
    then show ?thesis using that ipv6_network_valid by blast
  qed
qed

section \<open>What a provider promises\<close>

text \<open>
  The validation run takes the text of every entry as it comes and hands it to the column; it relies
  on the provider for entries the column accepts and for the country it is about.
\<close>

definition entry_ok :: "cidr_entry \<Rightarrow> bool" where
  "entry_ok en \<longleftrightarrow> ce_country_code en = iran_country_code
     \<and> (case ip_network (ce_cidr en) of None \<Rightarrow> False | Some net \<Rightarrow> net_str net = ce_cidr en)"

lemma entry_ok_net: "net_valid net \<Longrightarrow> entry_ok (iran_entry (net_str net))"
  by (simp add: entry_ok_def iran_entry_def ip_network_str)

lemma net_str_nonempty [simp]: "net_str net \<noteq> []"
  by (simp add: net_str_def)

lemma prefix_length_of_net_str: "net_valid net \<Longrightarrow> prefix_length_of (net_str net) = Inr (int (net_len net))"
proof (cases net)
  case (Net a p)
  assume v: "net_valid net"
  have "p \<le> 128" using v Net by (cases a) auto
  then have "length (nat_str p) \<le> 3" using length_nat_str_le[of p 2] by simp
  moreover have "rsplit1 (CHR ''/'') (net_str net) = [ip_str a, nat_str p]"
    using v Net split_net_str[of a p] by (intro rsplit1_split) (simp add: net_str_def)
  ultimately show ?thesis using Net by (simp add: prefix_length_of_def py_int_nat_str)
qed

lemma entry_okD:
  assumes "entry_ok en"
  obtains net where "ip_network (ce_cidr en) = Some net" "net_valid net" "ce_cidr en = net_str net"
    "ce_country_code en = iran_country_code" "cidr_prep (ce_cidr en) = Inr (Some (ce_cidr en))"
    "prefix_length_of (ce_cidr en) = Inr (int (net_len net))" "prepared (ce_cidr en) = Some (ce_cidr en)"
proof -
  obtain net where n0: "ip_network (ce_cidr en) = Some net" "net_str net = ce_cidr en" "ce_country_code en = iran_country_code"
    using assms by (auto simp: entry_ok_def split: option.splits)
  note n = n0(1) n0(2)[symmetric] n0(3)
  have v: "net_valid net" by (rule ip_network_valid[OF n(1)])
  have p: "cidr_prep (ce_cidr en) = Inr (Some (ce_cidr en))" using n v by (simp add: cidr_prep_def ip_network_str)
  then show ?thesis using that[OF n(1) v n(2,3)] prefix_length_of_net_str[OF v] n by (simp add: prepared_def)
qed

definition written :: "string \<Rightarrow> string set \<Rightarrow> country_network \<Rightarrow> bool" where
  "written src cs r \<longleftrightarrow>
     cn_country_code r = iran_country_code \<and> cn_cidr r \<in> cs \<and> cn_source r = src \<and> cn_enabled r"

definition same_network :: "country_network \<Rightarrow> country_network \<Rightarrow> bool" where
  "same_network r r' \<longleftrightarrow> cn_country_code r' = cn_country_code r \<and> cn_cidr r' = cn_cidr r"

text \<open>What upserting the networks \<open>cs\<close> does: rows keep their network, and a row is either as it was or
  now the provider's and enabled; new rows are the provider's.\<close>

definition upserted :: "string \<Rightarrow> string set \<Rightarrow> country_network table \<Rightarrow> country_network table \<Rightarrow> bool" where
  "upserted src cs t t' \<longleftrightarrow>
     (\<forall>k r. get_row k t = Some r \<longrightarrow>
        (\<exists>r'. get_row k t' = Some r' \<and> same_network r r' \<and> (r' = r \<or> written src cs r')))
     \<and> (\<forall>k r. get_row k t' = Some r \<longrightarrow> get_row k t = None \<longrightarrow> written src cs r)"

definition present :: "country_network table \<Rightarrow> string \<Rightarrow> bool" where
  "present t c \<longleftrightarrow> (\<exists>k r. get_row k t = Some r \<and> cn_country_code r = iran_country_code \<and> cn_cidr r = c)"

definition supplied :: "string \<Rightarrow> country_network table \<Rightarrow> string \<Rightarrow> bool" where
  "supplied src t c \<longleftrightarrow> (\<exists>k r. get_row k t = Some r \<and> written src {c} r)"

lemma written_mono: "written src A r \<Longrightarrow> A \<subseteq> B \<Longrightarrow> written src B r"
  by (auto simp: written_def)

lemma same_network_trans: "same_network a b \<Longrightarrow> same_network b c \<Longrightarrow> same_network a c"
  by (simp add: same_network_def)

lemma upserted_refl: "upserted src {} t t"
  by (simp add: upserted_def same_network_def)

lemma upserted_trans:
  assumes "upserted src A t t1" "upserted src B t1 t2" shows "upserted src (A \<union> B) t t2"
  unfolding upserted_def
proof (intro conjI allI impI)
  fix k r assume "get_row k t = Some r"
  then obtain r1 where r1: "get_row k t1 = Some r1" "same_network r r1" "r1 = r \<or> written src A r1"
    using assms(1) unfolding upserted_def by blast
  then obtain r2 where r2: "get_row k t2 = Some r2" "same_network r1 r2" "r2 = r1 \<or> written src B r2"
    using assms(2) unfolding upserted_def by blast
  have "r2 = r \<or> written src (A \<union> B) r2"
    using r1(3) r2(3) written_mono[of src A r2 "A \<union> B"] written_mono[of src B r2 "A \<union> B"] by blast
  then show "\<exists>r'. get_row k t2 = Some r' \<and> same_network r r' \<and> (r' = r \<or> written src (A \<union> B) r')"
    using r2(1) same_network_trans[OF r1(2) r2(2)] by blast
next
  fix k r assume r: "get_row k t2 = Some r" "get_row k t = None"
  show "written src (A \<union> B) r"
  proof (cases "get_row k t1")
    case None
    then have "written src B r" using r assms(2) unfolding upserted_def by blast
    then show ?thesis by (rule written_mono) simp
  next
    case (Some r1)
    then have "written src A r1" using r assms(1) unfolding upserted_def by blast
    moreover have "r = r1 \<or> written src B r" using Some r assms(2) unfolding upserted_def by fastforce
    ultimately show ?thesis using written_mono[of src A r "A \<union> B"] written_mono[of src B r "A \<union> B"] by blast
  qed
qed

lemma upserted_oldE:
  assumes "upserted src cs t t'" "get_row k t = Some r"
  obtains r' where "get_row k t' = Some r'" "same_network r r'" "r' = r \<or> written src cs r'"
  using assms unfolding upserted_def by blast

lemma upserted_newE:
  assumes "upserted src cs t t'" "get_row k t' = Some r"
  obtains "written src cs r" | "get_row k t = Some r"
proof (cases "get_row k t")
  case None
  then show ?thesis using that assms unfolding upserted_def by blast
next
  case (Some r0)
  then show ?thesis using that assms upserted_oldE[OF assms(1) Some] by (metis option.inject)
qed

lemma upserted_supplied:
  assumes "upserted src cs t t'" "supplied src t c" shows "supplied src t' c"
proof -
  obtain k r where kr: "get_row k t = Some r" "written src {c} r" using assms(2) by (auto simp: supplied_def)
  obtain r' where r': "get_row k t' = Some r'" "same_network r r'" "r' = r \<or> written src cs r'"
    by (rule upserted_oldE[OF assms(1) kr(1)])
  then have "written src {c} r'" using kr(2) by (auto simp: written_def same_network_def)
  then show ?thesis using r'(1) by (auto simp: supplied_def)
qed

lemma upserted_present_old:
  assumes "upserted src cs t t'" "present t c" shows "present t' c"
proof -
  obtain k r where kr: "get_row k t = Some r" "cn_country_code r = iran_country_code" "cn_cidr r = c"
    using assms(2) by (auto simp: present_def)
  obtain r' where "get_row k t' = Some r'" "same_network r r'" by (rule upserted_oldE[OF assms(1) kr(1)])
  then show ?thesis using kr by (auto simp: present_def same_network_def)
qed

lemma upserted_present_new:
  assumes "upserted src cs t t'" "present t' c" shows "present t c \<or> c \<in> cs"
proof -
  obtain k r where kr: "get_row k t' = Some r" "cn_country_code r = iran_country_code" "cn_cidr r = c"
    using assms(2) by (auto simp: present_def)
  show ?thesis by (rule upserted_newE[OF assms(1) kr(1)]) (use kr in \<open>auto simp: written_def present_def\<close>)
qed

lemma supplied_present: "supplied src t c \<Longrightarrow> present t c"
  by (auto simp: supplied_def present_def written_def)

text \<open>The upsert of one acceptable entry.\<close>

definition refreshed :: "cidr_entry \<Rightarrow> string \<Rightarrow> time \<Rightarrow> country_network \<Rightarrow> country_network" where
  "refreshed en src now r =
     r\<lparr>cn_network := ce_network en, cn_source := src, cn_enabled := True, cn_last_verified_at := Some now,
       cn_updated_at := now\<rparr>"

definition fresh_network :: "cidr_entry \<Rightarrow> string \<Rightarrow> time \<Rightarrow> nat \<Rightarrow> country_network" where
  "fresh_network en src now n =
     \<lparr>cn_country_code = ce_country_code en, cn_cidr = ce_cidr en, cn_network = ce_network en,
      cn_prefix_length = n, cn_source = src, cn_valid_from = None, cn_valid_until = None,
      cn_last_verified_at = Some now, cn_enabled = True, cn_created_at = now, cn_updated_at = now\<rparr>"

lemma refreshed_facts:
  "cn_country_code r = iran_country_code \<Longrightarrow> cn_cidr r = ce_cidr en \<Longrightarrow> written src {ce_cidr en} (refreshed en src now r)"
  "same_network r (refreshed en src now r)" "network_ok (refreshed en src now r) = network_ok r"
  by (simp_all add: refreshed_def network_ok_def written_def same_network_def split: option.split)

lemma upsert_network_old:
  assumes tok: "table_ok (w_cidrs w)" and en: "entry_ok en"
    and kr: "get_row k (w_cidrs w) = Some r" "cn_country_code r = iran_country_code" "cn_cidr r = ce_cidr en"
    and u: "cidrs_unique w"
  shows "upsert_network src en w = (Inr False, w\<lparr>w_cidrs := update_row k (refreshed en src (w_now w)) (w_cidrs w)\<rparr>)"
proof -
  obtain net where n: "ce_country_code en = iran_country_code" "cidr_prep (ce_cidr en) = Inr (Some (ce_cidr en))"
    by (rule entry_okD[OF en])
  let ?sel = "select_rows (\<lambda>_ r. cn_country_code r = ce_country_code en \<and> cn_cidr r = ce_cidr en) (w_cidrs w)"
  have mem: "(k, r) \<in> set ?sel" unfolding select_rows_set[OF tok] using kr n(1) by simp
  then obtain k0 r0 xs where sel: "?sel = (k0, r0) # xs" by (cases ?sel) auto
  have "(k0, r0) \<in> set ?sel" unfolding sel by simp
  then have "get_row k0 (w_cidrs w) = Some r0" "cn_country_code r0 = iran_country_code" "cn_cidr r0 = ce_cidr en"
    unfolding select_rows_set[OF tok] n(1) by blast+
  then have "k0 = k"
    using kr by (intro unique_onD[OF u[unfolded cidrs_unique_def], of k0 r0 k r]) simp_all
  then show ?thesis using sel n(2) by (simp add: upsert_network_def refreshed_def[abs_def])
qed

lemma upsert_network_new:
  assumes tok: "table_ok (w_cidrs w)" and en: "entry_ok en" and none: "\<not> present (w_cidrs w) (ce_cidr en)"
  obtains r where "upsert_network src en w = (Inr True, w\<lparr>w_cidrs := add_row r (w_cidrs w)\<rparr>)"
    "written src {ce_cidr en} r" "network_ok r"
proof -
  obtain net where n: "net_valid net" "ce_cidr en = net_str net"
    "ce_country_code en = iran_country_code" "cidr_prep (ce_cidr en) = Inr (Some (ce_cidr en))"
    "prefix_length_of (ce_cidr en) = Inr (int (net_len net))" by (rule entry_okD[OF en])
  let ?sel = "select_rows (\<lambda>_ r. cn_country_code r = ce_country_code en \<and> cn_cidr r = ce_cidr en) (w_cidrs w)"
  have sel: "?sel = []"
  proof (rule ccontr)
    assume "?sel \<noteq> []"
    then obtain k r where "(k, r) \<in> set ?sel" by (cases ?sel) auto
    then show False using none unfolding select_rows_set[OF tok] n(3) present_def by blast
  qed
  have "\<not> (\<exists>s\<in>set (row_values (w_cidrs w)). cn_country_code s = ce_country_code en \<and> cn_cidr s = ce_cidr en)"
    using sel unfolding select_rows_def row_values_def by (auto simp: filter_empty_conv)
  then have "upsert_network src en w =
      (Inr True, w\<lparr>w_cidrs := add_row (fresh_network en src (w_now w) (net_len net)) (w_cidrs w)\<rparr>)"
    using sel n(2,4,5) by (simp add: upsert_network_def save_new_network_def fresh_network_def add_row_def insert_row_def)
  then show ?thesis
    by (rule that) (use n in \<open>simp_all add: fresh_network_def written_def network_ok_def ip_network_str\<close>)
qed

definition cidrs_ok :: "world \<Rightarrow> bool" where
  "cidrs_ok w \<longleftrightarrow> nets_ok w \<and> cidrs_unique w"

lemma upsert_network_spec:
  assumes ok: "cidrs_ok w" and en: "entry_ok en"
  shows "\<exists>created t. upsert_network src en w = (Inr created, w\<lparr>w_cidrs := t\<rparr>) \<and> cidrs_ok (w\<lparr>w_cidrs := t\<rparr>)
    \<and> upserted src {ce_cidr en} (w_cidrs w) t \<and> supplied src t (ce_cidr en)
    \<and> (created \<longleftrightarrow> \<not> present (w_cidrs w) (ce_cidr en))"
proof -
  have tok: "table_ok (w_cidrs w)" and rok: "all_rows (\<lambda>_. network_ok) (w_cidrs w)" and u: "cidrs_unique w"
    using ok by (auto simp: nets_ok_def cidrs_ok_def)
  show ?thesis
  proof (cases "present (w_cidrs w) (ce_cidr en)")
    case True
    then obtain k r where kr: "get_row k (w_cidrs w) = Some r" "cn_country_code r = iran_country_code" "cn_cidr r = ce_cidr en"
      by (auto simp: present_def)
    let ?f = "refreshed en src (w_now w)" let ?t = "update_row k ?f (w_cidrs w)"
    have g: "get_row j ?t = (if j = k then Some (?f r) else get_row j (w_cidrs w))" for j
      using kr(1) by (simp add: get_update_row)
    have "cidrs_ok (w\<lparr>w_cidrs := ?t\<rparr>)"
      using tok rok u tbl.unique_upd[OF tok u[unfolded cidrs_unique_def], of ?f]
        tbl.hold_upd[OF tok rok, of _ "\<lambda>_. network_ok" ?f]
      by (simp add: cidrs_ok_def nets_ok_def cidrs_unique_def update_row_def refreshed_facts) (simp add: refreshed_def)
    moreover have "upserted src {ce_cidr en} (w_cidrs w) ?t"
      unfolding upserted_def g using refreshed_facts(1)[OF kr(2,3)] refreshed_facts(2)[of r] kr by (auto simp: same_network_def)
    moreover have "supplied src ?t (ce_cidr en)"
      unfolding supplied_def g using refreshed_facts(1)[OF kr(2,3)] by auto
    ultimately show ?thesis using upsert_network_old[OF tok en kr u] True
      by (intro exI[of _ False] exI[of _ ?t]) simp
  next
    case False
    obtain r where r: "upsert_network src en w = (Inr True, w\<lparr>w_cidrs := add_row r (w_cidrs w)\<rparr>)"
      "written src {ce_cidr en} r" "network_ok r" by (rule upsert_network_new[OF tok en False])
    let ?t = "add_row r (w_cidrs w)"
    have g: "get_row j ?t = (if j = Suc (tb_seq (w_cidrs w)) then Some r else get_row j (w_cidrs w))" for j
      using tok by (rule get_add_row)
    have fresh: "get_row j (w_cidrs w) = Some s \<Longrightarrow> j \<noteq> Suc (tb_seq (w_cidrs w))" for j s
      using get_row_seq[OF tok, of j s] by auto
    have ins: "insert_row r (w_cidrs w) = (Suc (tb_seq (w_cidrs w)), ?t)" by (simp add: insert_row_def add_row_def)
    have "rows_unique get_row (\<lambda>r. (cn_country_code r, cn_cidr r)) ?t"
      by (rule tbl.unique_add[OF tok u[unfolded cidrs_unique_def] ins])
        (use False r(2) in \<open>auto simp: present_def written_def\<close>)
    then have "cidrs_ok (w\<lparr>w_cidrs := ?t\<rparr>)"
      using tok tbl.hold_add[OF tok rok ins r(3)] by (simp add: cidrs_ok_def nets_ok_def cidrs_unique_def)
    moreover have "upserted src {ce_cidr en} (w_cidrs w) ?t"
      unfolding upserted_def g using r(2) fresh by (auto simp: same_network_def)
    moreover have "supplied src ?t (ce_cidr en)" unfolding supplied_def g using r(2) by auto
    ultimately show ?thesis using r(1) False by (intro exI[of _ True] exI[of _ ?t]) simp
  qed
qed

lemma upsert_all_spec:
  assumes "cidrs_ok w" "\<forall>en\<in>set ens. entry_ok en"
  shows "\<exists>n t. upsert_all src ens w = (Inr n, w\<lparr>w_cidrs := t\<rparr>) \<and> cidrs_ok (w\<lparr>w_cidrs := t\<rparr>)
    \<and> upserted src (ce_cidr ` set ens) (w_cidrs w) t \<and> (\<forall>en\<in>set ens. supplied src t (ce_cidr en))
    \<and> (n = 0 \<longleftrightarrow> (\<forall>en\<in>set ens. present (w_cidrs w) (ce_cidr en)))"
  using assms
proof (induction ens arbitrary: w)
  case Nil
  then show ?case by (intro exI[of _ 0] exI[of _ "w_cidrs w"]) (simp add: upserted_refl)
next
  case (Cons en ens)
  obtain c t where 1: "upsert_network src en w = (Inr c, w\<lparr>w_cidrs := t\<rparr>)" "cidrs_ok (w\<lparr>w_cidrs := t\<rparr>)"
    "upserted src {ce_cidr en} (w_cidrs w) t" "supplied src t (ce_cidr en)"
    "c \<longleftrightarrow> \<not> present (w_cidrs w) (ce_cidr en)"
    using upsert_network_spec[of w en src] Cons.prems by (metis list.set_intros(1))
  obtain n t2 where 2: "upsert_all src ens (w\<lparr>w_cidrs := t\<rparr>) = (Inr n, (w\<lparr>w_cidrs := t\<rparr>)\<lparr>w_cidrs := t2\<rparr>)"
    "cidrs_ok ((w\<lparr>w_cidrs := t\<rparr>)\<lparr>w_cidrs := t2\<rparr>)"
    "upserted src (ce_cidr ` set ens) t t2" "\<forall>en\<in>set ens. supplied src t2 (ce_cidr en)"
    "n = 0 \<longleftrightarrow> (\<forall>en\<in>set ens. present t (ce_cidr en))"
    using Cons.IH[OF 1(2)] Cons.prems(2) by auto
  have u: "upserted src (ce_cidr ` set (en # ens)) (w_cidrs w) t2"
    using upserted_trans[OF 1(3) 2(3)] by simp
  have s: "\<forall>e\<in>set (en # ens). supplied src t2 (ce_cidr e)"
    using 2(4) upserted_supplied[OF 2(3) 1(4)] by simp
  have p: "\<not> c \<Longrightarrow> present t x \<longleftrightarrow> present (w_cidrs w) x" for x
    using 1(5) upserted_present_old[OF 1(3), of x] upserted_present_new[OF 1(3), of x] by auto
  have "(if c then Suc n else n) = 0 \<longleftrightarrow> (\<forall>e\<in>set (en # ens). present (w_cidrs w) (ce_cidr e))"
    using 1(5) 2(5) p by auto
  then show ?case using 1(1) 2(1,2) u s
    by (intro exI[of _ "if c then Suc n else n"] exI[of _ t2]) simp
qed

section \<open>Matching is most specific\<close>

definition covers :: "country_network \<Rightarrow> ipaddr \<Rightarrow> bool" where
  "covers r a =
     (case ip_network (cn_cidr r) of
        None \<Rightarrow> False
      | Some net \<Rightarrow> ip_version (net_addr net) = ip_version a \<and> ip_int a \<in> net_range net)"

definition covered_range :: "country_network \<Rightarrow> nat set" where
  "covered_range r = (case ip_network (cn_cidr r) of None \<Rightarrow> {} | Some net \<Rightarrow> net_range net)"

definition active :: "country_network \<Rightarrow> bool" where
  "active r \<longleftrightarrow> cn_country_code r = iran_country_code \<and> cn_enabled r"

definition address_ok :: "ip_row \<Rightarrow> bool" where
  "address_ok r = (case ip_address (ia_address r) of None \<Rightarrow> False | Some a \<Rightarrow> ip_str a = ia_address r)"

lemma host_net_range: "net_range (Net a (max_prefixlen a)) = {ip_int a}"
  by (simp add: net_range_def host_bits_def atLeastLessThan_singleton)

lemma cidr_contains_covers:
  assumes "ip_valid a" shows "cidr_contains (cn_cidr r) (Net a (max_prefixlen a)) = covers r a"
proof (cases "ip_network (cn_cidr r)")
  case (Some net)
  have "net_valid (Net a (max_prefixlen a))" using assms by simp
  then show ?thesis
    using Some ip_network_valid[OF Some] net_contains_range[of net "Net a (max_prefixlen a)"]
    by (cases "ip_version (net_addr net) = ip_version a")
      (simp_all add: cidr_contains_def covers_def host_net_range net_contains_def)
qed (simp add: cidr_contains_def covers_def)

lemma candidates_set:
  assumes "ip_valid a" "table_ok (w_cidrs w)"
  shows "(k, r) \<in> set (candidates (Net a (max_prefixlen a)) w) \<longleftrightarrow>
    get_row k (w_cidrs w) = Some r \<and> active r \<and> covers r a"
  unfolding candidates_def select_rows_set[OF assms(2)] cidr_contains_covers[OF assms(1)] active_def by blast

lemma covers_nested:
  assumes "network_ok r" "network_ok s" "covers r a" "covers s a" "cn_prefix_length s \<le> cn_prefix_length r"
  shows "covered_range r \<subseteq> covered_range s"
proof -
  obtain m where m: "ip_network (cn_cidr r) = Some m" "net_len m = cn_prefix_length r" "net_valid m"
    by (rule network_okD[OF assms(1)])
  obtain n where n: "ip_network (cn_cidr s) = Some n" "net_len n = cn_prefix_length s" "net_valid n"
    by (rule network_okD[OF assms(2)])
  have v: "ip_version (net_addr n) = ip_version (net_addr m)" and i: "ip_int a \<in> net_range n" "ip_int a \<in> net_range m"
    using assms(3,4) m(1) n(1) by (simp_all add: covers_def)
  have "net_len n \<le> net_len m" using assms(5) m(2) n(2) by simp
  then have "net_range m \<subseteq> net_range n" by (rule net_range_nested[OF n(3) m(3) v i])
  then show ?thesis using m(1) n(1) by (simp add: covered_range_def)
qed

lemma find_matching_spec:
  assumes ok: "nets_ok w" and a: "ip_valid a"
  shows "\<exists>m. find_matching_cidr (ip_str a) w = Inr m
    \<and> (m = None \<longleftrightarrow> (\<forall>k r. get_row k (w_cidrs w) = Some r \<longrightarrow> active r \<longrightarrow> \<not> covers r a))
    \<and> (\<forall>k r. m = Some (k, r) \<longrightarrow> get_row k (w_cidrs w) = Some r \<and> active r \<and> covers r a
          \<and> (\<forall>j s. get_row j (w_cidrs w) = Some s \<longrightarrow> active s \<longrightarrow> covers s a \<longrightarrow> covered_range r \<subseteq> covered_range s))"
proof -
  have tok: "table_ok (w_cidrs w)" and rok: "get_row k (w_cidrs w) = Some r \<Longrightarrow> network_ok r" for k r
    using ok by (auto simp: nets_ok_def rows_hold_def)
  let ?c = "candidates (Net a (max_prefixlen a)) w"
  note mem = candidates_set[OF a tok]
  have none: "?c = [] \<longleftrightarrow> (\<forall>k r. get_row k (w_cidrs w) = Some r \<longrightarrow> active r \<longrightarrow> \<not> covers r a)"
    using mem by (metis (no_types, lifting) list.set_intros(1) list.set(1) empty_iff neq_Nil_conv surj_pair)
  have some: "get_row k (w_cidrs w) = Some r \<and> active r \<and> covers r a
     \<and> (\<forall>j s. get_row j (w_cidrs w) = Some s \<longrightarrow> active s \<longrightarrow> covers s a \<longrightarrow> covered_range r \<subseteq> covered_range s)"
    if "longest_prefix ?c = Some (k, r)" for k r
  proof -
    have lp: "(k, r) \<in> set ?c" "\<forall>y\<in>set ?c. cn_prefix_length (snd y) \<le> cn_prefix_length r"
      using longest_prefix_spec[OF that] by auto
    then have kr: "get_row k (w_cidrs w) = Some r" "active r" "covers r a" unfolding mem by blast+
    have "covered_range r \<subseteq> covered_range s" if s: "get_row j (w_cidrs w) = Some s" "active s" "covers s a" for j s
    proof -
      have "(j, s) \<in> set ?c" unfolding mem using s by blast
      then have "cn_prefix_length s \<le> cn_prefix_length r" using lp(2) by fastforce
      then show ?thesis by (rule covers_nested[OF rok[OF kr(1)] rok[OF s(1)] kr(3) s(3)])
    qed
    then show ?thesis using kr by blast
  qed
  show ?thesis
    using none some by (intro exI[of _ "longest_prefix ?c"]) (simp add: find_matching_cidr_def host_network[OF a])
qed

text \<open>C3: The network a lookup returns is an enabled Iranian one that contains the address and lies inside every
  other enabled Iranian network that contains it; nothing is returned exactly when no such network exists.\<close>

theorem matching_is_most_specific:
  assumes "nets_ok w" "ip_valid a"
  shows "case find_matching_cidr (ip_str a) w of
      Inl e \<Rightarrow> False
    | Inr None \<Rightarrow> \<forall>k r. get_row k (w_cidrs w) = Some r \<longrightarrow> active r \<longrightarrow> \<not> covers r a
    | Inr (Some (k, r)) \<Rightarrow> get_row k (w_cidrs w) = Some r \<and> active r \<and> covers r a
        \<and> (\<forall>j s. get_row j (w_cidrs w) = Some s \<longrightarrow> active s \<longrightarrow> covers s a \<longrightarrow> covered_range r \<subseteq> covered_range s)"
proof -
  obtain m where m: "find_matching_cidr (ip_str a) w = Inr m"
    "m = None \<longleftrightarrow> (\<forall>k r. get_row k (w_cidrs w) = Some r \<longrightarrow> active r \<longrightarrow> \<not> covers r a)"
    "\<forall>k r. m = Some (k, r) \<longrightarrow> get_row k (w_cidrs w) = Some r \<and> active r \<and> covers r a
          \<and> (\<forall>j s. get_row j (w_cidrs w) = Some s \<longrightarrow> active s \<longrightarrow> covers s a \<longrightarrow> covered_range r \<subseteq> covered_range s)"
    using find_matching_spec[OF assms] by blast
  show ?thesis
  proof (cases m)
    case None
    then show ?thesis using m(1,2) by simp
  next
    case (Some x)
    then show ?thesis using m(1,3) by (cases x) simp
  qed
qed

section \<open>Periods and the timeline of an address\<close>

definition periods_of :: "pk \<Rightarrow> country_history table \<Rightarrow> country_history list" where
  "periods_of k t = map snd (select_rows (\<lambda>_ p. ch_ip p = k) t)"

definition holds_at :: "time \<Rightarrow> country_history \<Rightarrow> bool" where
  "holds_at t p \<longleftrightarrow> ch_valid_from p \<le> t \<and> (case ch_valid_until p of None \<Rightarrow> True | Some u \<Rightarrow> t < u)"

definition timeline :: "pk \<Rightarrow> country_history table \<Rightarrow> time \<Rightarrow> bool" where
  "timeline k h t \<longleftrightarrow> (\<exists>p\<in>set (periods_of k h). holds_at t p)"

definition period_ok :: "time \<Rightarrow> country_history \<Rightarrow> bool" where
  "period_ok now p \<longleftrightarrow> ch_valid_from p \<le> now \<and>
     (case ch_valid_until p of None \<Rightarrow> True | Some u \<Rightarrow> ch_valid_from p \<le> u \<and> u \<le> now)"

definition precedes :: "country_history \<Rightarrow> country_history \<Rightarrow> bool" where
  "precedes p q \<longleftrightarrow> (case ch_valid_until p of None \<Rightarrow> False | Some u \<Rightarrow> u \<le> ch_valid_from q)"

definition periods_ok :: "time \<Rightarrow> ip_row \<Rightarrow> country_history list \<Rightarrow> bool" where
  "periods_ok now r ps \<longleftrightarrow> list_all (period_ok now) ps \<and> sorted_wrt precedes ps
     \<and> (ia_is_iran r \<longleftrightarrow> list_ex (\<lambda>p. ch_valid_until p = None) ps)
     \<and> list_all (\<lambda>p. ch_valid_until p = None \<longrightarrow> ch_cidr p = ia_iran_match_cidr r) ps"

definition histories_ok :: "world \<Rightarrow> bool" where
  "histories_ok w \<longleftrightarrow> table_ok (w_ips w) \<and>
     all_rows (\<lambda>k r. address_ok r \<and> periods_ok (w_now w) r (periods_of k (w_history w))) (w_ips w)"

definition end_at :: "time \<Rightarrow> country_history \<Rightarrow> country_history" where
  "end_at now p = (if ch_valid_until p = None then p\<lparr>ch_valid_until := Some now\<rparr> else p)"

lemma end_at_simps [simp]:
  "ch_valid_from (end_at now p) = ch_valid_from p" "ch_ip (end_at now p) = ch_ip p"
  "ch_valid_until (end_at now p) = Some (case ch_valid_until p of None \<Rightarrow> now | Some u \<Rightarrow> u)"
  by (auto simp: end_at_def split: option.splits)

lemma periods_of_close:
  "periods_of j (close_open_periods k now t) = (if j = k then map (end_at now) (periods_of j t) else periods_of j t)"
proof -
  let ?f = "\<lambda>(i, h). (i, if ch_ip h = k \<and> ch_valid_until h = None then h\<lparr>ch_valid_until := Some now\<rparr> else h)"
  have "map snd (filter (\<lambda>(_, p). ch_ip p = j) (map ?f xs)) =
    (if j = k then map (end_at now) (map snd (filter (\<lambda>(_, p). ch_ip p = j) xs)) else map snd (filter (\<lambda>(_, p). ch_ip p = j) xs))"
    for xs :: "(pk \<times> country_history) list"
    by (induction xs) (auto simp: end_at_def)
  then show ?thesis by (simp add: periods_of_def select_rows_def close_open_periods_def update_rows_def)
qed

lemma periods_of_add: "periods_of j (add_row p t) = periods_of j t @ (if ch_ip p = j then [p] else [])"
  by (simp add: periods_of_def select_rows_def tb_rows_add_row)

lemma periods_of_record:
  "periods_of j (record_change k v now t) =
     (if j = k then map (end_at now) (periods_of k t) @ (if vd_is_iran v then [open_period k v now] else [])
      else periods_of j t)"
  by (simp add: record_change_def Let_def periods_of_add periods_of_close open_period_def)

lemma closed_periods_ok:
  assumes "list_all (period_ok now) ps" "sorted_wrt precedes ps"
  shows "list_all (period_ok now) (map (end_at now) ps)" "sorted_wrt precedes (map (end_at now) ps)"
    "list_all (\<lambda>p. ch_valid_until p \<noteq> None) (map (end_at now) ps)"
proof -
  show "list_all (period_ok now) (map (end_at now) ps)"
    using assms(1) by (auto simp: list_all_iff period_ok_def split: option.splits)
  show "sorted_wrt precedes (map (end_at now) ps)"
    unfolding sorted_wrt_map
    by (rule sorted_wrt_mono_rel[OF _ assms(2)]) (auto simp: precedes_def split: option.splits)
  show "list_all (\<lambda>p. ch_valid_until p \<noteq> None) (map (end_at now) ps)" by (simp add: list_all_iff)
qed

lemma periods_ok_recorded:
  assumes ok: "periods_ok now r ps"
  shows "periods_ok now (apply_verdict v now r)
    (map (end_at now) ps @ (if vd_is_iran v then [open_period k v now] else []))"
proof -
  have c: "list_all (period_ok now) (map (end_at now) ps)" "sorted_wrt precedes (map (end_at now) ps)"
    "list_all (\<lambda>p. ch_valid_until p \<noteq> None) (map (end_at now) ps)"
    using closed_periods_ok ok by (auto simp: periods_ok_def)
  have "\<forall>p\<in>set (map (end_at now) ps). precedes p (open_period k v now)"
    using c(1) by (auto simp: list_all_iff precedes_def period_ok_def open_period_def split: option.splits)
  moreover have "period_ok now (open_period k v now)" "ch_valid_until (open_period k v now) = None"
    "ch_cidr (open_period k v now) = vd_cidr v"
    by (simp_all add: period_ok_def open_period_def)
  ultimately show ?thesis using c
    by (auto simp: periods_ok_def sorted_wrt_append apply_verdict_def list_all_iff list_ex_iff)
qed

lemma holds_at_end_at:
  assumes "period_ok now p" shows "holds_at t (end_at now p) \<longleftrightarrow> holds_at t p \<and> t < now"
  using assms by (auto simp: holds_at_def period_ok_def split: option.splits)

lemma open_from_now:
  assumes "periods_ok now r ps" "now \<le> t" shows "(\<exists>p\<in>set ps. holds_at t p) \<longleftrightarrow> ia_is_iran r"
proof
  assume "\<exists>p\<in>set ps. holds_at t p"
  then show "ia_is_iran r" using assms
    by (fastforce simp: periods_ok_def holds_at_def period_ok_def list_all_iff list_ex_iff split: option.splits)
next
  assume "ia_is_iran r"
  then obtain p where p: "p \<in> set ps" "ch_valid_until p = None" using assms(1) by (auto simp: periods_ok_def list_ex_iff)
  then have "ch_valid_from p \<le> now" using assms(1) by (auto simp: periods_ok_def list_all_iff period_ok_def)
  then show "\<exists>p\<in>set ps. holds_at t p" using p assms(2) by (intro bexI[OF _ p(1)]) (simp add: holds_at_def)
qed


lemma timeline_recorded:
  assumes "periods_ok now r ps"
  shows "(\<exists>p\<in>set (map (end_at now) ps @ (if vd_is_iran v then [open_period k v now] else [])). holds_at t p) \<longleftrightarrow>
    (if t < now then \<exists>p\<in>set ps. holds_at t p else vd_is_iran v)"
proof -
  have "\<forall>p\<in>set ps. period_ok now p" using assms by (simp add: periods_ok_def list_all_iff)
  then have "(\<exists>p\<in>set (map (end_at now) ps). holds_at t p) \<longleftrightarrow> t < now \<and> (\<exists>p\<in>set ps. holds_at t p)"
    by (auto simp: holds_at_end_at)
  moreover have "holds_at t (open_period k v now) \<longleftrightarrow> now \<le> t" by (simp add: holds_at_def open_period_def)
  ultimately show ?thesis by (auto simp: not_less)
qed

section \<open>Classification\<close>

definition classified :: "verdict \<Rightarrow> ip_row \<Rightarrow> bool" where
  "classified v r \<longleftrightarrow> ia_is_iran r = vd_is_iran v \<and> ia_iran_match_cidr r = vd_cidr v"

text \<open>The verdict on an address under the networks of a state.\<close>

definition verdict_now :: "world \<Rightarrow> ip_row \<Rightarrow> verdict" where
  "verdict_now w r =
     (case find_matching_cidr (ia_address r) w of
        Inl e \<Rightarrow> verdict_of None [] | Inr m \<Rightarrow> verdict_of m (ia_whois_country r))"

definition same_identity :: "ip_row \<Rightarrow> ip_row \<Rightarrow> bool" where
  "same_identity r r' \<longleftrightarrow> ia_address r' = ia_address r \<and> ia_whois_country r' = ia_whois_country r"

lemma address_ok_str: "address_ok r \<Longrightarrow> \<exists>a. ip_valid a \<and> ia_address r = ip_str a"
  using ip_address_valid by (fastforce simp: address_ok_def split: option.splits)

lemma classify_spec:
  assumes k: "get_row k (w_ips w) = Some ip" and ok: "histories_ok w"
  shows "\<exists>ips h. classify k ip w = (Inr (apply_verdict (verdict_now w ip) (w_now w) ip), w\<lparr>w_history := h, w_ips := ips\<rparr>)
    \<and> histories_ok (w\<lparr>w_history := h, w_ips := ips\<rparr>)
    \<and> (\<forall>j. get_row j ips = (if j = k then Some ((apply_verdict (verdict_now w ip) (w_now w) ip)\<lparr>ia_updated_at := w_now w\<rparr>)
             else get_row j (w_ips w)))
    \<and> (\<forall>t. timeline k h t = (if t < w_now w then timeline k (w_history w) t else vd_is_iran (verdict_now w ip)))
    \<and> (\<forall>j. j \<noteq> k \<longrightarrow> periods_of j h = periods_of j (w_history w))"
proof -
  define now where "now = w_now w"
  have tok: "table_ok (w_ips w)" and rows: "all_rows (\<lambda>k r. address_ok r \<and> periods_ok now r (periods_of k (w_history w))) (w_ips w)"
    using ok by (simp_all add: histories_ok_def now_def)
  have ao: "address_ok ip" and po: "periods_ok now ip (periods_of k (w_history w))"
    using all_rowsD[OF rows k] by simp_all
  obtain a where a: "ip_valid a" "ia_address ip = ip_str a" using address_ok_str[OF ao] by blast
  define m where "m = longest_prefix (candidates (Net a (max_prefixlen a)) w)"
  have fm: "find_matching_cidr (ia_address ip) w = Inr m"
    using a by (simp add: find_matching_cidr_def host_network m_def)
  define v where "v = verdict_now w ip"
  have v: "v = verdict_of m (ia_whois_country ip)" by (simp add: v_def verdict_now_def fm)
  define changed where "changed = (vd_is_iran v \<noteq> ia_is_iran ip \<or> vd_cidr v \<noteq> ia_iran_match_cidr ip)"
  define h where "h = (if changed then record_change k v now (w_history w) else w_history w)"
  define f where "f = (\<lambda>r. (apply_verdict v now r)\<lparr>ia_updated_at := now\<rparr>)"
  let ?ips = "update_row k f (w_ips w)"
  have cl: "classify k ip w = (Inr (apply_verdict v now ip), w\<lparr>w_history := h, w_ips := ?ips\<rparr>)"
    by (simp add: classify_def fm Let_def v[symmetric] changed_def h_def f_def now_def)
  have g: "get_row j ?ips = (if j = k then Some (f ip) else get_row j (w_ips w))" for j
    using k by (simp add: get_update_row)
  have others: "j \<noteq> k \<Longrightarrow> periods_of j h = periods_of j (w_history w)" for j
    by (simp add: h_def periods_of_record)
  have same: "ia_is_iran (f ip) = vd_is_iran v" "ia_iran_match_cidr (f ip) = vd_cidr v" "ia_address (f ip) = ia_address ip"
    by (simp_all add: f_def apply_verdict_def)
  have pk: "periods_ok now (f ip) (periods_of k h)"
  proof (cases changed)
    case True
    then show ?thesis using periods_ok_recorded[OF po, of v k]
      by (simp add: h_def periods_of_record periods_ok_def f_def)
  next
    case False
    then show ?thesis using po same by (simp add: h_def changed_def periods_ok_def)
  qed
  have tl: "timeline k h t = (if t < now then timeline k (w_history w) t else vd_is_iran v)" for t
  proof (cases changed)
    case True
    then show ?thesis using timeline_recorded[OF po, of v k t]
      by (simp add: timeline_def h_def periods_of_record del: set_append)
  next
    case False
    then show ?thesis using open_from_now[OF po, of t] by (simp add: timeline_def h_def changed_def not_less)
  qed
  have "histories_ok (w\<lparr>w_history := h, w_ips := ?ips\<rparr>)"
    unfolding histories_ok_def rows_hold_def
  proof (intro conjI allI impI)
    show "table_ok (w_ips (w\<lparr>w_history := h, w_ips := ?ips\<rparr>))" using tok by simp
    fix j r assume "get_row j (w_ips (w\<lparr>w_history := h, w_ips := ?ips\<rparr>)) = Some r"
    then have r: "(if j = k then Some (f ip) else get_row j (w_ips w)) = Some r" by (simp add: g)
    have "address_ok (f ip)" using ao same(3) unfolding address_ok_def by (simp split: option.splits)
    then show "address_ok r" using r all_rowsD[OF rows, of j r] by (cases "j = k") simp_all
    show "periods_ok (w_now (w\<lparr>w_history := h, w_ips := ?ips\<rparr>)) r (periods_of j (w_history (w\<lparr>w_history := h, w_ips := ?ips\<rparr>)))"
      using r pk others[of j] all_rowsD[OF rows, of j r] by (cases "j = k") (simp_all add: now_def)
  qed
  then show ?thesis using cl g tl others
    by (intro exI[of _ ?ips] exI[of _ h]) (simp add: v_def now_def f_def)
qed

lemma find_matching_frame: "w_cidrs w' = w_cidrs w \<Longrightarrow> find_matching_cidr x w' = find_matching_cidr x w"
  by (simp add: find_matching_cidr_def candidates_def split: option.split)

lemma verdict_now_frame: "w_cidrs w' = w_cidrs w \<Longrightarrow> verdict_now w' r = verdict_now w r"
  unfolding verdict_now_def by (subst find_matching_frame) simp_all

lemma classify_all_spec:
  assumes "\<forall>(k, ip)\<in>set xs. get_row k (w_ips w) = Some ip" "distinct (map fst xs)" "histories_ok w"
  shows "\<exists>ips h. classify_all xs w = (Inr (length xs), w\<lparr>w_history := h, w_ips := ips\<rparr>)
    \<and> histories_ok (w\<lparr>w_history := h, w_ips := ips\<rparr>)
    \<and> (\<forall>k. k \<notin> fst ` set xs \<longrightarrow> get_row k ips = get_row k (w_ips w))
    \<and> (\<forall>(k, ip)\<in>set xs. get_row k ips = Some ((apply_verdict (verdict_now w ip) (w_now w) ip)\<lparr>ia_updated_at := w_now w\<rparr>))"
  using assms
proof (induction xs arbitrary: w)
  case Nil
  then show ?case by (intro exI[of _ "w_ips w"] exI[of _ "w_history w"]) simp
next
  case (Cons x xs)
  obtain k ip where x: "x = (k, ip)" by (cases x)
  obtain ips h where 1: "classify k ip w = (Inr (apply_verdict (verdict_now w ip) (w_now w) ip), w\<lparr>w_history := h, w_ips := ips\<rparr>)"
    "histories_ok (w\<lparr>w_history := h, w_ips := ips\<rparr>)"
    "\<forall>j. get_row j ips = (if j = k then Some ((apply_verdict (verdict_now w ip) (w_now w) ip)\<lparr>ia_updated_at := w_now w\<rparr>)
             else get_row j (w_ips w))"
    using classify_spec[of k w ip] Cons.prems x by auto
  let ?w = "w\<lparr>w_history := h, w_ips := ips\<rparr>"
  have k: "k \<notin> fst ` set xs" using Cons.prems(2) x by simp
  have "\<forall>(j, r)\<in>set xs. get_row j (w_ips ?w) = Some r"
  proof (clarsimp)
    fix j r assume jr: "(j, r) \<in> set xs"
    then have "j \<noteq> k" using k by force
    then show "get_row j ips = Some r" using 1(3) Cons.prems(1) jr by auto
  qed
  then obtain ips2 h2 where 2: "classify_all xs ?w = (Inr (length xs), ?w\<lparr>w_history := h2, w_ips := ips2\<rparr>)"
    "histories_ok (?w\<lparr>w_history := h2, w_ips := ips2\<rparr>)"
    "\<forall>k. k \<notin> fst ` set xs \<longrightarrow> get_row k ips2 = get_row k ips"
    "\<forall>(k, ip)\<in>set xs. get_row k ips2 = Some ((apply_verdict (verdict_now ?w ip) (w_now w) ip)\<lparr>ia_updated_at := w_now w\<rparr>)"
    using Cons.IH[of ?w] Cons.prems(2) 1(2) by auto
  have v: "verdict_now ?w r = verdict_now w r" for r by (rule verdict_now_frame) simp
  show ?case
  proof (intro exI[of _ ips2] exI[of _ h2] conjI)
    show "classify_all (x # xs) w = (Inr (length (x # xs)), w\<lparr>w_history := h2, w_ips := ips2\<rparr>)"
      using 1(1) 2(1) x by simp
    show "histories_ok (w\<lparr>w_history := h2, w_ips := ips2\<rparr>)" using 2(2) by simp
    show "\<forall>k. k \<notin> fst ` set (x # xs) \<longrightarrow> get_row k ips2 = get_row k (w_ips w)" using 1(3) 2(3) x by simp
    show "\<forall>(k, ip)\<in>set (x # xs). get_row k ips2 = Some ((apply_verdict (verdict_now w ip) (w_now w) ip)\<lparr>ia_updated_at := w_now w\<rparr>)"
      using 1(3) 2(3,4) k x unfolding v by auto
  qed
qed

end
