(* ===== verification/Iran_Validation.thy ===== *)
theory Iran_Validation
  imports Iran_Cidr
begin

text \<open>
  The monthly validation run: what it needs from a provider (a locale, interpreted on the static and
  on the RIPE provider), and what it does to networks, addresses and their history.
\<close>

section \<open>The contract of a provider\<close>

locale cidr_provider =
  fixes fetch :: "world \<Rightarrow> (cidr_entry list) res" and src :: string
  assumes fetch_ok: "cidrs_ok w \<Longrightarrow> fetch w = Inr ens \<Longrightarrow> en \<in> set ens \<Longrightarrow> entry_ok en"
begin

lemma run_upserts:
  assumes "cidrs_ok w" "fetch w = Inr ens"
  shows "\<exists>n t. upsert_all src ens w = (Inr n, w\<lparr>w_cidrs := t\<rparr>) \<and> cidrs_ok (w\<lparr>w_cidrs := t\<rparr>)
    \<and> upserted src (ce_cidr ` set ens) (w_cidrs w) t \<and> (\<forall>en\<in>set ens. supplied src t (ce_cidr en))
    \<and> (n = 0 \<longleftrightarrow> (\<forall>en\<in>set ens. present (w_cidrs w) (ce_cidr en)))"
  using upsert_all_spec[OF assms(1), of ens src] fetch_ok[OF assms] by blast

lemma removed_iff:
  assumes "cidrs_ok w" "fetch w = Inr ens"
  shows "removed src ens r \<longleftrightarrow>
    cn_country_code r = iran_country_code \<and> cn_source r = src \<and> cn_enabled r \<and> cn_cidr r \<notin> ce_cidr ` set ens"
proof -
  have "prepared (ce_cidr en) = Some (ce_cidr en)" if "en \<in> set ens" for en
    using entry_okD[OF fetch_ok[OF assms that]] by blast
  then have "map (\<lambda>en. prepared (ce_cidr en)) ens = map (\<lambda>en. Some (ce_cidr en)) ens" by simp
  then show ?thesis by (auto simp: removed_def image_iff)
qed

lemma disable_cidrs_ok:
  assumes "cidrs_ok (w\<lparr>w_cidrs := t\<rparr>)"
  shows "cidrs_ok (w\<lparr>w_cidrs := update_rows P (disable_network now) t\<rparr>)"
proof -
  have t: "table_ok t" "all_rows (\<lambda>_. network_ok) t" "unique_on (\<lambda>r. (cn_country_code r, cn_cidr r)) t"
    using assms by (simp_all add: cidrs_ok_def nets_ok_def cidrs_unique_def)
  have d: "network_ok (disable_network now r) = network_ok r" for r
    unfolding network_ok_def by (simp add: disable_network_def split: option.split)
  have "all_rows (\<lambda>_. network_ok) (update_rows P (disable_network now) t)"
    by (rule tbl.hold_upd[OF t(1,2)]) (simp_all add: d)
  then show ?thesis using t tbl.unique_upd[OF t(1,3), of "disable_network now" P]
    by (simp add: cidrs_ok_def nets_ok_def cidrs_unique_def disable_network_def)
qed

text \<open>Examining every flagged address again changes the flagged ones to their verdict and no others.\<close>

lemma reclassify_flagged:
  assumes h: "histories_ok v"
  shows "\<exists>ips h. classify_all (select_rows (\<lambda>_ r. ia_is_iran r) (w_ips v)) v =
        (Inr (length (select_rows (\<lambda>_ r. ia_is_iran r) (w_ips v))), v\<lparr>w_history := h, w_ips := ips\<rparr>)
    \<and> histories_ok (v\<lparr>w_history := h, w_ips := ips\<rparr>)
    \<and> (\<forall>k r. get_row k (w_ips v) = Some r \<longrightarrow> get_row k ips = Some (if ia_is_iran r
         then (apply_verdict (verdict_now v r) (w_now v) r)\<lparr>ia_updated_at := w_now v\<rparr> else r))"
proof -
  let ?xs = "select_rows (\<lambda>_ r. ia_is_iran r) (w_ips v)"
  have tok: "table_ok (w_ips v)" using h by (simp add: histories_ok_def)
  have mem: "(k, r) \<in> set ?xs \<longleftrightarrow> get_row k (w_ips v) = Some r \<and> ia_is_iran r" for k r
    by (rule select_rows_set[OF tok])
  have dx: "distinct (map fst ?xs)"
    unfolding select_rows_def by (rule distinct_map_filter[OF table_ok_distinct[OF tok]])
  obtain ips h where c: "classify_all ?xs v = (Inr (length ?xs), v\<lparr>w_history := h, w_ips := ips\<rparr>)"
    "histories_ok (v\<lparr>w_history := h, w_ips := ips\<rparr>)"
    "\<forall>k. k \<notin> fst ` set ?xs \<longrightarrow> get_row k ips = get_row k (w_ips v)"
    "\<forall>(k, ip)\<in>set ?xs. get_row k ips = Some ((apply_verdict (verdict_now v ip) (w_now v) ip)\<lparr>ia_updated_at := w_now v\<rparr>)"
    using classify_all_spec[OF _ dx h] mem by blast
  have "get_row k ips = Some (if ia_is_iran r then (apply_verdict (verdict_now v r) (w_now v) r)\<lparr>ia_updated_at := w_now v\<rparr> else r)"
    if kr: "get_row k (w_ips v) = Some r" for k r
  proof (cases "ia_is_iran r")
    case True
    then have "(k, r) \<in> set ?xs" using mem kr by blast
    then show ?thesis using c(4) True by auto
  next
    case False
    then have "k \<notin> fst ` set ?xs" using mem kr by auto
    then show ?thesis using c(3) kr False by simp
  qed
  then show ?thesis using c(1,2) by blast
qed

lemma run_spec:
  assumes ok: "cidrs_ok w" "histories_ok w" and f: "fetch w = Inr ens"
  shows "\<exists>n d m t ips h w'. validate_with fetch src w =
       (Inr \<lparr>vs_fetched = length ens, vs_created = n, vs_disabled = d, vs_reevaluated = m\<rparr>, w')
    \<and> w' = w\<lparr>w_cidrs := update_rows (gone src ens) (disable_network (w_now w)) t, w_history := h, w_ips := ips\<rparr>
    \<and> cidrs_ok w' \<and> histories_ok w' \<and> cidrs_ok (w\<lparr>w_cidrs := t\<rparr>)
    \<and> upserted src (ce_cidr ` set ens) (w_cidrs w) t \<and> (\<forall>en\<in>set ens. supplied src t (ce_cidr en))
    \<and> (n = 0 \<longleftrightarrow> (\<forall>en\<in>set ens. present (w_cidrs w) (ce_cidr en)))
    \<and> d = count_rows (gone src ens) t
    \<and> (if n \<noteq> 0 \<or> d \<noteq> 0 then \<forall>k r. get_row k (w_ips w) = Some r \<longrightarrow>
         get_row k ips = Some (if ia_is_iran r then (apply_verdict (verdict_now w' r) (w_now w) r)\<lparr>ia_updated_at := w_now w\<rparr> else r)
       else m = 0 \<and> ips = w_ips w \<and> h = w_history w)"
proof -
  obtain n t where u: "upsert_all src ens w = (Inr n, w\<lparr>w_cidrs := t\<rparr>)" "cidrs_ok (w\<lparr>w_cidrs := t\<rparr>)"
    "upserted src (ce_cidr ` set ens) (w_cidrs w) t" "\<forall>en\<in>set ens. supplied src t (ce_cidr en)"
    "n = 0 \<longleftrightarrow> (\<forall>en\<in>set ens. present (w_cidrs w) (ce_cidr en))"
    using run_upserts[OF ok(1) f] by blast
  define d where "d = count_rows (gone src ens) t"
  define t2 where "t2 = update_rows (gone src ens) (disable_network (w_now w)) t"
  define w2 where "w2 = w\<lparr>w_cidrs := t2\<rparr>"
  have c2: "cidrs_ok w2" using disable_cidrs_ok[OF u(2)] by (simp add: w2_def t2_def)
  have h2: "histories_ok w2" using ok(2) by (simp add: w2_def histories_ok_def)
  have tok: "table_ok (w_ips w2)" using h2 by (simp add: histories_ok_def)
  show ?thesis
  proof (cases "n \<noteq> 0 \<or> d \<noteq> 0")
    case False
    then have "validate_with fetch src w =
      (Inr \<lparr>vs_fetched = length ens, vs_created = n, vs_disabled = d, vs_reevaluated = 0\<rparr>, w2)"
      using f u(1) by (simp add: validate_with_def d_def w2_def t2_def)
    then show ?thesis using False c2 h2 u(2-5)
      by (intro exI[of _ n] exI[of _ d] exI[of _ 0] exI[of _ t] exI[of _ "w_ips w"] exI[of _ "w_history w"] exI[of _ w2])
        (simp add: d_def w2_def t2_def)
  next
    case True
    let ?xs = "select_rows (\<lambda>_ r. ia_is_iran r) (w_ips w2)"
    obtain ips h where c: "classify_all ?xs w2 = (Inr (length ?xs), w2\<lparr>w_history := h, w_ips := ips\<rparr>)"
      "histories_ok (w2\<lparr>w_history := h, w_ips := ips\<rparr>)"
      "\<forall>k r. get_row k (w_ips w2) = Some r \<longrightarrow> get_row k ips = Some (if ia_is_iran r
         then (apply_verdict (verdict_now w2 r) (w_now w2) r)\<lparr>ia_updated_at := w_now w2\<rparr> else r)"
      using reclassify_flagged[OF h2] by blast
    define w' where "w' = w2\<lparr>w_history := h, w_ips := ips\<rparr>"
    have vn: "verdict_now w2 r = verdict_now w' r" for r by (rule verdict_now_frame) (simp add: w'_def)
    have "validate_with fetch src w =
      (Inr \<lparr>vs_fetched = length ens, vs_created = n, vs_disabled = d, vs_reevaluated = length ?xs\<rparr>, w')"
      using f u(1) True c(1) by (simp add: validate_with_def d_def[symmetric] w2_def[symmetric] t2_def[symmetric] w'_def)
    moreover have "get_row k ips = Some (if ia_is_iran r
        then (apply_verdict (verdict_now w' r) (w_now w) r)\<lparr>ia_updated_at := w_now w\<rparr> else r)"
      if kr: "get_row k (w_ips w) = Some r" for k r
      using c(3) kr vn by (simp add: w2_def)
    moreover have "cidrs_ok w'" using c2 by (simp add: w'_def cidrs_ok_def nets_ok_def cidrs_unique_def)
    moreover have "histories_ok w'" using c(2) by (simp add: w'_def)
    moreover have "w' = w\<lparr>w_cidrs := update_rows (gone src ens) (disable_network (w_now w)) t, w_history := h, w_ips := ips\<rparr>"
      by (simp add: w'_def w2_def t2_def)
    ultimately show ?thesis using True u(2-5)
      by (intro exI[of _ n] exI[of _ d] exI[of _ "length ?xs"] exI[of _ t] exI[of _ ips] exI[of _ h] exI[of _ w'])
        (simp add: d_def)
  qed
qed

end

section \<open>The two providers\<close>

lemma network_ok_entry:
  assumes "network_ok r" "cn_country_code r = iran_country_code"
  shows "entry_ok \<lparr>ce_cidr = cn_cidr r, ce_country_code = cn_country_code r, ce_network = x\<rparr>"
  by (rule network_okD[OF assms(1)]) (simp add: entry_ok_def assms(2))

interpretation static_list: cidr_provider "provider_fetch response Static" "provider_source Static" for response
proof
  fix w ens en assume ok: "cidrs_ok w" and "provider_fetch response Static w = Inr ens" "en \<in> set ens"
  then obtain k r where "(k, r) \<in> set (select_rows (\<lambda>_ r. cn_country_code r = iran_country_code \<and> cn_source r = ''manual'') (w_cidrs w))"
    "en = \<lparr>ce_cidr = cn_cidr r, ce_country_code = cn_country_code r, ce_network = cn_network r\<rparr>"
    by (auto simp: provider_fetch_def static_fetch_def)
  moreover from this have "get_row k (w_cidrs w) = Some r \<and> cn_country_code r = iran_country_code \<and> cn_source r = ''manual''"
    using ok by (intro select_rowsD) (simp_all add: cidrs_ok_def nets_ok_def)
  ultimately show "entry_ok en"
    using ok network_ok_entry by (auto simp: cidrs_ok_def nets_ok_def dest: all_rowsD)
qed

interpretation ripe_feed: cidr_provider "provider_fetch response Ripencc" "provider_source Ripencc" for response
proof
  fix w ens en assume "provider_fetch response Ripencc w = Inr ens" "en \<in> set ens"
  then obtain body where "en \<in> set (ripe_parse body)"
    by (auto simp: provider_fetch_def res_bind_def split: sum.splits)
  then show "entry_ok en" by (rule ripe_entries_canonical) (simp add: entry_ok_net)
qed

lemma any_provider: "cidr_provider (provider_fetch response p)"
  by (cases p) (simp_all add: static_list.cidr_provider_axioms ripe_feed.cidr_provider_axioms)

lemmas provider_run_spec = cidr_provider.run_spec[OF any_provider, of w response p src ens for w response p src ens]
lemmas provider_removed_iff = cidr_provider.removed_iff[OF any_provider, of w response p ens for w response p ens]

lemma validation_run_spec:
  assumes "cidrs_ok w" "histories_ok w" "provider_fetch response p w = Inr ens"
  obtains n d m t ips h w' where
    "validation_run response p w = (Inr \<lparr>vs_fetched = length ens, vs_created = n, vs_disabled = d, vs_reevaluated = m\<rparr>, w')"
    "w' = w\<lparr>w_cidrs := update_rows (gone (provider_source p) ens) (disable_network (w_now w)) t, w_history := h, w_ips := ips\<rparr>"
    "cidrs_ok w'" "histories_ok w'" "cidrs_ok (w\<lparr>w_cidrs := t\<rparr>)"
    "upserted (provider_source p) (ce_cidr ` set ens) (w_cidrs w) t" "\<forall>en\<in>set ens. supplied (provider_source p) t (ce_cidr en)"
    "n = 0 \<longleftrightarrow> (\<forall>en\<in>set ens. present (w_cidrs w) (ce_cidr en))"
    "d = count_rows (gone (provider_source p) ens) t"
    "if n \<noteq> 0 \<or> d \<noteq> 0 then \<forall>k r. get_row k (w_ips w) = Some r \<longrightarrow>
         get_row k ips = Some (if ia_is_iran r then (apply_verdict (verdict_now w' r) (w_now w) r)\<lparr>ia_updated_at := w_now w\<rparr> else r)
       else m = 0 \<and> ips = w_ips w \<and> h = w_history w"
  using provider_run_spec[OF assms, of "provider_source p"] unfolding validation_run_def by blast

section \<open>Registry records cover their range\<close>

text \<open>An IPv4 record of the registry for Iran becomes networks that are pairwise disjoint, cover exactly the
  addresses the record counts, and read back from their text; a record whose count is not positive or
  leaves the address space becomes nothing.\<close>

lemma ripe_record_covers:
  assumes "split_on (CHR ''|'') (py_strip raw) = registry # iran_country_code # ''ipv4'' # start # value # date # status # rest"
    and "\<not> starts_with ''#'' (py_strip raw)" and "status \<in> {''allocated'', ''assigned''}"
    and "py_int value = Some count" and "ipv4_of_string start = Some a"
  shows "if 0 < count \<and> int a + count \<le> 2 ^ 32
    then \<exists>nets. map (\<lambda>en. ip_network (ce_cidr en)) (ripe_line raw) = map Some nets
        \<and> (\<Union>n\<in>set nets. net_range n) = {a ..< a + nat count}
        \<and> sorted_wrt (\<lambda>m n. net_range m \<inter> net_range n = {}) nets
    else ripe_line raw = []"
proof (cases "0 < count \<and> int a + count \<le> 2 ^ 32")
  case True
  define b where "b = a + nat count - 1"
  have "int b < 2 ^ 32" "a \<le> b" "{a..b} = {a ..< a + nat count}" using True by (auto simp: b_def)
  then have b: "b < 2 ^ 32" "{a..b} = {a ..< a + nat count}" by simp_all
  have l: "ripe_line raw = map (\<lambda>n. iran_entry (net_str n)) (v4_nets a b)"
    using ripe_line_ipv4[OF assms(1,2)] ripe_ipv4_nets[OF assms(4,5)] assms(3) True by (simp add: b_def)
  have "map (\<lambda>en. ip_network (ce_cidr en)) (ripe_line raw) = map Some (v4_nets a b)"
    using v4_nets_facts(2)[OF b(1), of a] by (simp add: l iran_entry_def ip_network_str)
  then show ?thesis
    using v4_nets_facts(1,3)[OF b(1), of a] True b(2) by (auto intro!: exI[of _ "v4_nets a b"])
next
  case False
  then show ?thesis
    using ripe_line_ipv4[OF assms(1,2)] ripe_ipv4_nets[OF assms(4,5)] assms(3) by auto
qed

section \<open>The run\<close>

text \<open>A validation run never disables, deletes or moves a network of another source: such a row keeps its
  network and is either untouched or, when the feed reports the same network, taken over as an enabled row of
  the provider.\<close>

lemma validation_scoped:
  assumes "cidrs_ok w" "histories_ok w" "validation_run response p w = (res, w')"
    and "get_row k (w_cidrs w) = Some r" "cn_source r \<noteq> provider_source p"
  shows "\<exists>r'. get_row k (w_cidrs w') = Some r' \<and> same_network r r'
    \<and> (r' = r \<or> cn_source r' = provider_source p \<and> cn_enabled r')"
proof (cases "provider_fetch response p w")
  case (Inl e)
  then have "w' = w" using assms(3) by (simp add: validation_run_def validate_with_def)
  then show ?thesis using assms(4) by (simp add: same_network_def)
next
  case (Inr ens)
  obtain t ips h where w': "w' = w\<lparr>w_cidrs := update_rows (gone (provider_source p) ens) (disable_network (w_now w)) t, w_history := h, w_ips := ips\<rparr>"
    and u: "upserted (provider_source p) (ce_cidr ` set ens) (w_cidrs w) t"
    by (rule validation_run_spec[OF assms(1,2) Inr]) (use assms(3) in auto)
  obtain r1 where r1: "get_row k t = Some r1" "same_network r r1" "r1 = r \<or> written (provider_source p) (ce_cidr ` set ens) r1"
    by (rule upserted_oldE[OF u assms(4)])
  then have "\<not> gone (provider_source p) ens k r1"
    using provider_removed_iff[OF assms(1) Inr, of "provider_source p" r1] assms(5) by (auto simp: gone_def written_def)
  then have "get_row k (w_cidrs w') = Some r1" using r1(1) by (simp add: w' get_update_rows)
  then show ?thesis using r1 by (auto simp: written_def)
qed

text \<open>A row with a network that was fed is the one the run wrote.\<close>

lemma supplied_row:
  assumes sup: "\<forall>en\<in>set ens. supplied src t (ce_cidr en)" and u: "unique_on (\<lambda>r. (cn_country_code r, cn_cidr r)) t"
    and r: "get_row k t = Some r" "cn_country_code r = iran_country_code" "cn_cidr r \<in> ce_cidr ` set ens"
  shows "written src {cn_cidr r} r"
proof -
  obtain j s where s: "get_row j t = Some s" "written src {cn_cidr r} s" using sup r(3) by (auto simp: supplied_def)
  then have "j = k" using r by (intro unique_onD[OF u s(1) r(1)]) (simp add: written_def)
  then show ?thesis using s r(1) by simp
qed

lemma static_fetch_cidrs:
  assumes "table_ok (w_cidrs w)"
  shows "c \<in> ce_cidr ` set (static_fetch w) \<longleftrightarrow>
    (\<exists>k r. get_row k (w_cidrs w) = Some r \<and> cn_country_code r = iran_country_code \<and> cn_source r = ''manual'' \<and> cn_cidr r = c)"
proof -
  let ?P = "\<lambda>_ r. cn_country_code r = iran_country_code \<and> cn_source r = ''manual''"
  have "c \<in> ce_cidr ` set (static_fetch w) \<longleftrightarrow> (\<exists>k r. (k, r) \<in> set (select_rows ?P (w_cidrs w)) \<and> cn_cidr r = c)"
    unfolding static_fetch_def by force
  then show ?thesis unfolding select_rows_set[OF assms] by blast
qed

text \<open>C24: After a run over a fetched list, every listed network is an enabled row of the provider, and among the
  provider's Iranian rows exactly the listed ones are enabled.\<close>

theorem validation_mirrors_feed:
  assumes "cidrs_ok w" "histories_ok w" "provider_fetch response p w = Inr ens"
  shows "\<exists>s w'. validation_run response p w = (Inr s, w') \<and> vs_fetched s = length ens
    \<and> (\<forall>c\<in>ce_cidr ` set ens. \<exists>k r. get_row k (w_cidrs w') = Some r \<and> active r \<and> cn_source r = provider_source p \<and> cn_cidr r = c)
    \<and> (\<forall>k r. get_row k (w_cidrs w') = Some r \<longrightarrow> cn_country_code r = iran_country_code \<longrightarrow> cn_source r = provider_source p
         \<longrightarrow> (cn_enabled r \<longleftrightarrow> cn_cidr r \<in> ce_cidr ` set ens))"
proof -
  obtain n d m t ips h w' where run: "validation_run response p w = (Inr \<lparr>vs_fetched = length ens, vs_created = n, vs_disabled = d, vs_reevaluated = m\<rparr>, w')"
    and w': "w' = w\<lparr>w_cidrs := update_rows (gone (provider_source p) ens) (disable_network (w_now w)) t, w_history := h, w_ips := ips\<rparr>"
    and ok': "cidrs_ok (w\<lparr>w_cidrs := t\<rparr>)"
    and u: "upserted (provider_source p) (ce_cidr ` set ens) (w_cidrs w) t" "\<forall>en\<in>set ens. supplied (provider_source p) t (ce_cidr en)"
    by (rule validation_run_spec[OF assms])
  have uniq: "unique_on (\<lambda>r. (cn_country_code r, cn_cidr r)) t" using ok' by (simp add: cidrs_ok_def cidrs_unique_def)
  have g: "get_row k (w_cidrs w') = map_option (\<lambda>r. if gone (provider_source p) ens k r then disable_network (w_now w) r else r) (get_row k t)" for k
    by (simp add: w' get_update_rows)
  have removed: "gone (provider_source p) ens k r \<longleftrightarrow> cn_country_code r = iran_country_code \<and> cn_source r = provider_source p
      \<and> cn_enabled r \<and> cn_cidr r \<notin> ce_cidr ` set ens" for k r
    using provider_removed_iff[OF assms(1,3)] by (simp add: gone_def)
  have "\<exists>k r. get_row k (w_cidrs w') = Some r \<and> active r \<and> cn_source r = provider_source p \<and> cn_cidr r = ce_cidr en"
    if "en \<in> set ens" for en
  proof -
    obtain k r where "get_row k t = Some r" "written (provider_source p) {ce_cidr en} r"
      using u(2) \<open>en \<in> set ens\<close> by (auto simp: supplied_def)
    then show ?thesis using \<open>en \<in> set ens\<close>
      by (intro exI[of _ k] exI[of _ r]) (auto simp: g removed written_def active_def)
  qed
  moreover have "cn_enabled r \<longleftrightarrow> cn_cidr r \<in> ce_cidr ` set ens"
    if r: "get_row k (w_cidrs w') = Some r" "cn_country_code r = iran_country_code" "cn_source r = provider_source p" for k r
  proof -
    obtain r1 where r1: "get_row k t = Some r1" "r = (if gone (provider_source p) ens k r1 then disable_network (w_now w) r1 else r1)"
      using r(1) by (auto simp: g)
    show ?thesis
    proof (cases "gone (provider_source p) ens k r1")
      case True
      then show ?thesis using r1(2) by (simp add: removed disable_network_def)
    next
      case False
      then have e: "r = r1" using r1(2) by simp
      have "cn_enabled r" if "cn_cidr r \<in> ce_cidr ` set ens"
        using supplied_row[OF u(2) uniq r1(1)] that e r(2) by (simp add: written_def)
      then show ?thesis using False e r(2,3) by (auto simp: removed)
    qed
  qed
  ultimately show ?thesis using run by (intro exI[of _ "\<lparr>vs_fetched = length ens, vs_created = n, vs_disabled = d, vs_reevaluated = m\<rparr>"] exI[of _ w']) auto
qed

text \<open>A run that changed the networks re-examines every address flagged Iranian against the new networks; one
  that changed none touches no address. Either way the networks, their uniqueness and every address history
  stay well formed.\<close>

lemma validation_reevaluates:
  assumes "cidrs_ok w" "histories_ok w" "validation_run response p w = (Inr s, w')"
  shows "cidrs_ok w' \<and> histories_ok w' \<and>
    (\<forall>k r. get_row k (w_ips w) = Some r \<longrightarrow> (\<exists>r'. get_row k (w_ips w') = Some r' \<and> same_identity r r' \<and>
      (if ia_is_iran r \<and> (vs_created s \<noteq> 0 \<or> vs_disabled s \<noteq> 0) then classified (verdict_now w' r) r' else r' = r)))"
proof (cases "provider_fetch response p w")
  case (Inl e)
  then show ?thesis using assms(3) by (simp add: validation_run_def validate_with_def)
next
  case (Inr ens)
  obtain n d m t ips h w2 where run: "validation_run response p w = (Inr \<lparr>vs_fetched = length ens, vs_created = n, vs_disabled = d, vs_reevaluated = m\<rparr>, w2)"
    and w2: "w2 = w\<lparr>w_cidrs := update_rows (gone (provider_source p) ens) (disable_network (w_now w)) t, w_history := h, w_ips := ips\<rparr>"
    and ok: "cidrs_ok w2" "histories_ok w2"
    and ips: "if n \<noteq> 0 \<or> d \<noteq> 0 then \<forall>k r. get_row k (w_ips w) = Some r \<longrightarrow>
         get_row k ips = Some (if ia_is_iran r then (apply_verdict (verdict_now w2 r) (w_now w) r)\<lparr>ia_updated_at := w_now w\<rparr> else r)
       else m = 0 \<and> ips = w_ips w \<and> h = w_history w"
    by (rule validation_run_spec[OF assms(1,2) Inr])
  have s: "s = \<lparr>vs_fetched = length ens, vs_created = n, vs_disabled = d, vs_reevaluated = m\<rparr>" "w' = w2"
    using run assms(3) by simp_all
  have "w_ips w2 = ips" by (simp add: w2)
  then show ?thesis using ok ips s
    by (auto simp: same_identity_def classified_def apply_verdict_def split: if_splits)
qed

text \<open>On well-formed data the run raises exactly when the provider's fetch raises, with its error and nothing
  written.\<close>

lemma validation_raises_with_fetch:
  assumes "cidrs_ok w" "histories_ok w"
  shows "case provider_fetch response p w of
      Inl e \<Rightarrow> validation_run response p w = (Inl e, w)
    | Inr ens \<Rightarrow> \<exists>s w'. validation_run response p w = (Inr s, w')"
proof (cases "provider_fetch response p w")
  case (Inr ens)
  then show ?thesis by (rule validation_run_spec[OF assms]) (simp add: Inr)
qed (simp add: validation_run_def validate_with_def)

text \<open>A run over the operator's own list switches every network the operator disabled back on, reports that
  nothing was created or disabled, and re-examines no address.\<close>

lemma static_run_reenables:
  assumes "cidrs_ok w" "histories_ok w"
  shows "\<exists>n w'. validation_run response Static w =
        (Inr \<lparr>vs_fetched = n, vs_created = 0, vs_disabled = 0, vs_reevaluated = 0\<rparr>, w')
    \<and> w_ips w' = w_ips w
    \<and> (\<forall>k r. get_row k (w_cidrs w) = Some r \<longrightarrow> cn_country_code r = iran_country_code \<longrightarrow> cn_source r = ''manual''
         \<longrightarrow> (\<exists>r'. get_row k (w_cidrs w') = Some r' \<and> same_network r r' \<and> cn_enabled r'))"
proof -
  let ?ens = "static_fetch w" let ?P = "\<lambda>_ r. cn_country_code r = iran_country_code \<and> cn_source r = ''manual''"
  have f: "provider_fetch response Static w = Inr ?ens" by (simp add: provider_fetch_def)
  have tok: "table_ok (w_cidrs w)" using assms(1) by (simp add: cidrs_ok_def nets_ok_def)
  have listed: "cn_cidr r \<in> ce_cidr ` set ?ens" if "get_row k (w_cidrs w) = Some r" "?P k r" for k r
    using that by (auto simp: static_fetch_cidrs[OF tok])
  have pres: "present (w_cidrs w) (ce_cidr en)" if "en \<in> set ?ens" for en
    using that static_fetch_cidrs[OF tok, of "ce_cidr en"] by (auto simp: present_def)
  obtain n d m t ips h w' where run: "validation_run response Static w = (Inr \<lparr>vs_fetched = length ?ens, vs_created = n, vs_disabled = d, vs_reevaluated = m\<rparr>, w')"
    and w': "w' = w\<lparr>w_cidrs := update_rows (gone (provider_source Static) ?ens) (disable_network (w_now w)) t, w_history := h, w_ips := ips\<rparr>"
    and u: "upserted (provider_source Static) (ce_cidr ` set ?ens) (w_cidrs w) t"
      "\<forall>en\<in>set ?ens. supplied (provider_source Static) t (ce_cidr en)"
    and n: "n = 0 \<longleftrightarrow> (\<forall>en\<in>set ?ens. present (w_cidrs w) (ce_cidr en))"
    and d: "d = count_rows (gone (provider_source Static) ?ens) t"
    and ips: "if n \<noteq> 0 \<or> d \<noteq> 0 then \<forall>k r. get_row k (w_ips w) = Some r \<longrightarrow>
         get_row k ips = Some (if ia_is_iran r then (apply_verdict (verdict_now w' r) (w_now w) r)\<lparr>ia_updated_at := w_now w\<rparr> else r)
       else m = 0 \<and> ips = w_ips w \<and> h = w_history w"
    and ok': "cidrs_ok (w\<lparr>w_cidrs := t\<rparr>)"
    by (rule validation_run_spec[OF assms f])
  have t: "table_ok t" "unique_on (\<lambda>r. (cn_country_code r, cn_cidr r)) t"
    using ok' by (simp_all add: cidrs_ok_def nets_ok_def cidrs_unique_def)
  have on: "cn_enabled r" if "get_row k t = Some r" "cn_cidr r \<in> ce_cidr ` set ?ens" "cn_country_code r = iran_country_code" for k r
    using supplied_row[OF u(2) t(2) that(1,3,2)] by (simp add: written_def)
  have manual: "cn_cidr r \<in> ce_cidr ` set ?ens" if r: "get_row k t = Some r" "?P k r" for k r
    by (rule upserted_newE[OF u(1) r(1)]) (use listed r(2) in \<open>auto simp: written_def\<close>)
  have nogone: "\<not> gone (provider_source Static) ?ens k r" if "get_row k t = Some r" for k r
    using manual[OF that] provider_removed_iff[OF assms(1) f, of "provider_source Static" r] by (auto simp: gone_def)
  have "select_rows (gone (provider_source Static) ?ens) t = []"
  proof (rule ccontr)
    assume "select_rows (gone (provider_source Static) ?ens) t \<noteq> []"
    then obtain k r where "(k, r) \<in> set (select_rows (gone (provider_source Static) ?ens) t)"
      by (cases "select_rows (gone (provider_source Static) ?ens) t") auto
    then show False using select_rowsD[OF t(1)] nogone by blast
  qed
  then have d0: "d = 0" using d by (simp add: count_rows_def)
  have n0: "n = 0" using n pres by blast
  have g: "get_row k (w_cidrs w') = get_row k t" for k
    using nogone by (cases "get_row k t") (simp_all add: w' get_update_rows)
  have "\<exists>r'. get_row k (w_cidrs w') = Some r' \<and> same_network r r' \<and> cn_enabled r'"
    if r: "get_row k (w_cidrs w) = Some r" "?P k r" for k r
  proof -
    obtain r' where r': "get_row k t = Some r'" "same_network r r'" by (rule upserted_oldE[OF u(1) r(1)])
    then have "cn_enabled r'" using on[OF r'(1)] listed[OF r] r(2) by (auto simp: same_network_def)
    then show ?thesis using r' g[of k] by auto
  qed
  moreover have "w_ips w' = w_ips w" "m = 0" using ips n0 d0 by (simp_all add: w')
  ultimately show ?thesis using run n0 d0 by (intro exI[of _ "length ?ens"] exI[of _ w']) blast
qed

section \<open>The history of an address\<close>

text \<open>C7: Classification refines a timeline: what the history answered for any earlier time stays as it was, and from
  now on it answers the new verdict; no other address's periods change.\<close>

theorem classify_extends_timeline:
  assumes "histories_ok w" "get_row k (w_ips w) = Some ip" "classify k ip w = (Inr ip', w')"
  shows "timeline k (w_history w') = (\<lambda>t. if t < w_now w then timeline k (w_history w) t else vd_is_iran (verdict_now w ip))
    \<and> (\<forall>j. j \<noteq> k \<longrightarrow> timeline j (w_history w') = timeline j (w_history w)) \<and> histories_ok w'"
proof -
  obtain ips h where "classify k ip w = (Inr (apply_verdict (verdict_now w ip) (w_now w) ip), w\<lparr>w_history := h, w_ips := ips\<rparr>)"
    "histories_ok (w\<lparr>w_history := h, w_ips := ips\<rparr>)"
    "\<forall>t. timeline k h t = (if t < w_now w then timeline k (w_history w) t else vd_is_iran (verdict_now w ip))"
    "\<forall>j. j \<noteq> k \<longrightarrow> periods_of j h = periods_of j (w_history w)"
    using classify_spec[OF assms(2,1)] by blast
  then show ?thesis using assms(3) by (auto simp: timeline_def fun_eq_iff)
qed

text \<open>C25: On well-formed data classification returns, and flags the address exactly when an enabled Iranian network
  contains it or its WHOIS country says so; every other address is left alone.\<close>

theorem classify_flags_iranian:
  assumes "histories_ok w" "nets_ok w" "get_row k (w_ips w) = Some ip" "ia_address ip = ip_str a" "ip_valid a"
  shows "\<exists>ip' w' r. classify k ip w = (Inr ip', w') \<and> get_row k (w_ips w') = Some r \<and> same_identity ip r
    \<and> (ia_is_iran r \<longleftrightarrow> (\<exists>j n. get_row j (w_cidrs w) = Some n \<and> active n \<and> covers n a) \<or> ia_whois_country ip = iran_country_code)
    \<and> (\<forall>j. j \<noteq> k \<longrightarrow> get_row j (w_ips w') = get_row j (w_ips w))"
proof -
  obtain ips h where c: "classify k ip w = (Inr (apply_verdict (verdict_now w ip) (w_now w) ip), w\<lparr>w_history := h, w_ips := ips\<rparr>)"
    "\<forall>j. get_row j ips = (if j = k then Some ((apply_verdict (verdict_now w ip) (w_now w) ip)\<lparr>ia_updated_at := w_now w\<rparr>)
             else get_row j (w_ips w))"
    using classify_spec[OF assms(3,1)] by blast
  obtain m where m: "find_matching_cidr (ip_str a) w = Inr m"
    "m = None \<longleftrightarrow> (\<forall>k r. get_row k (w_cidrs w) = Some r \<longrightarrow> active r \<longrightarrow> \<not> covers r a)"
    using find_matching_spec[OF assms(2,5)] by blast
  have "vd_is_iran (verdict_now w ip) \<longleftrightarrow> m \<noteq> None \<or> ia_whois_country ip = iran_country_code"
    by (simp add: verdict_now_def assms(4) m(1) verdict_of_def split: option.split)
  then have "vd_is_iran (verdict_now w ip) \<longleftrightarrow>
      (\<exists>j n. get_row j (w_cidrs w) = Some n \<and> active n \<and> covers n a) \<or> ia_whois_country ip = iran_country_code"
    using m(2) by blast
  then show ?thesis using c by (auto simp: apply_verdict_def same_identity_def)
qed

text \<open>Saving a network given as a bare address, which the CIDR column itself would accept, raises IndexError and
  stores nothing.\<close>

lemma bare_address_network_crashes:
  assumes "ip_valid a"
  shows "save_new_network (r\<lparr>cn_cidr := ip_str a\<rparr>) w = (Inl IndexError, w)
    \<and> cidr_prep (ip_str a) = Inr (Some (net_str (Net a (max_prefixlen a))))"
proof -
  have s: "ip_str a \<noteq> []" using ip_address_str[OF assms] by (auto simp: ip_address_def ipv4_of_string_def ipv6_address_def
      split_scope_id_def py_partition_def ipv6_of_string_def split: option.splits)
  have "rsplit1 (CHR ''/'') (ip_str a) = [ip_str a]"
    using ip_str_no_slash[OF assms] by (simp add: rsplit1_def)
  then show ?thesis using s host_network[OF assms]
    by (simp add: save_new_network_def prefix_length_of_def cidr_prep_def)
qed


section \<open>Examples\<close>

lemma cidrs_ok_check: "cidrs_ok w \<longleftrightarrow> table_ok (w_cidrs w) \<and> list_all (\<lambda>(_, r). network_ok r) (tb_rows (w_cidrs w))
    \<and> distinct (map (\<lambda>r. (cn_country_code r, cn_cidr r)) (row_values (w_cidrs w)))"
  by (auto simp: cidrs_ok_def nets_ok_def cidrs_unique_def all_rows_list unique_on_list)

lemma histories_ok_check: "histories_ok w \<longleftrightarrow> table_ok (w_ips w) \<and>
    list_all (\<lambda>(k, r). address_ok r \<and> periods_ok (w_now w) r (periods_of k (w_history w))) (tb_rows (w_ips w))"
  by (auto simp: histories_ok_def all_rows_list)

definition example_network :: "string \<Rightarrow> nat \<Rightarrow> string \<Rightarrow> bool \<Rightarrow> country_network" where
  "example_network c n src on =
     \<lparr>cn_country_code = iran_country_code, cn_cidr = c, cn_network = [], cn_prefix_length = n, cn_source = src,
      cn_valid_from = None, cn_valid_until = None, cn_last_verified_at = None, cn_enabled = on,
      cn_created_at = 0, cn_updated_at = 0\<rparr>"

definition iran_ip :: ip_row where
  "iran_ip = (blank_ip ''5.1.2.3'' 4 100 100)\<lparr>ia_is_iran := True, ia_iran_match_cidr := Some ''5.1.0.0/16''\<rparr>"

definition iran_world :: world where
  "iran_world = (empty_world default_settings 500)\<lparr>
     w_cidrs := add_rows [example_network ''5.1.0.0/16'' 16 ''manual'' True, example_network ''5.0.0.0/8'' 8 ''ripencc'' True] empty_table,
     w_ips := add_row iran_ip empty_table,
     w_history := add_row (open_period 1 (verdict_of (Some (1, example_network ''5.1.0.0/16'' 16 ''manual'' True)) []) 100) empty_table\<rparr>"

definition ripe_example :: string where
  "ripe_example = ''ripencc|IR|ipv4|10.0.0.0|768|20200101|allocated''"

lemma iran_world_cidrs_ok: "cidrs_ok iran_world"
  unfolding cidrs_ok_check table_ok_list by code_simp

lemma iran_world_histories_ok: "histories_ok iran_world"
  unfolding histories_ok_check table_ok_list by code_simp

lemma iran_world_nets_ok: "nets_ok iran_world"
  using iran_world_cidrs_ok by (simp add: cidrs_ok_def)

lemma iran_world_rows:
  "get_row 2 (w_cidrs iran_world) = Some (example_network ''5.0.0.0/8'' 8 ''ripencc'' True)"
  "get_row 1 (w_ips iran_world) = Some iran_ip"
  "ip_address ''5.1.2.3'' = Some (V4 83952131)" "ip_str (V4 83952131) = ''5.1.2.3''"
  by code_simp+

lemma ripe_example_facts:
  "split_on (CHR ''|'') (py_strip ripe_example) = ''ripencc'' # iran_country_code # ''ipv4'' # ''10.0.0.0'' # ''768'' # ''20200101'' # ''allocated'' # []"
  "\<not> starts_with ''#'' (py_strip ripe_example)" "py_int ''768'' = Some 768" "ipv4_of_string ''10.0.0.0'' = Some 167772160"
  by code_simp+

theorem matching_is_most_specific_witness:
  "nets_ok iran_world \<and> ip_valid (V4 83952131) \<and>
   (case find_matching_cidr (ip_str (V4 83952131)) iran_world of
      Inl e \<Rightarrow> False
    | Inr None \<Rightarrow> \<forall>k r. get_row k (w_cidrs iran_world) = Some r \<longrightarrow> active r \<longrightarrow> \<not> covers r (V4 83952131)
    | Inr (Some (k, r)) \<Rightarrow> get_row k (w_cidrs iran_world) = Some r \<and> active r \<and> covers r (V4 83952131)
        \<and> (\<forall>j s. get_row j (w_cidrs iran_world) = Some s \<longrightarrow> active s \<longrightarrow> covers s (V4 83952131) \<longrightarrow> covered_range r \<subseteq> covered_range s))"
proof -
  have v: "ip_valid (V4 83952131)" by simp
  show ?thesis using matching_is_most_specific[OF iran_world_nets_ok v] iran_world_nets_ok v by blast
qed

lemma ripe_record_covers_example:
  "if 0 < (768::int) \<and> int 167772160 + 768 \<le> 2 ^ 32
    then \<exists>nets. map (\<lambda>en. ip_network (ce_cidr en)) (ripe_line ripe_example) = map Some nets
        \<and> (\<Union>n\<in>set nets. net_range n) = {167772160 ..< 167772160 + nat 768}
        \<and> sorted_wrt (\<lambda>m n. net_range m \<inter> net_range n = {}) nets
    else ripe_line ripe_example = []"
  by (rule ripe_record_covers[OF ripe_example_facts(1,2) _ ripe_example_facts(3,4)]) simp

lemma validation_scoped_example:
  "\<exists>r'. get_row 2 (w_cidrs (snd (validation_run (Inl ValueError) Static iran_world))) = Some r'
    \<and> same_network (example_network ''5.0.0.0/8'' 8 ''ripencc'' True) r'
    \<and> (r' = example_network ''5.0.0.0/8'' 8 ''ripencc'' True \<or> cn_source r' = provider_source Static \<and> cn_enabled r')"
  by (rule validation_scoped[OF iran_world_cidrs_ok iran_world_histories_ok surjective_pairing iran_world_rows(1)])
    (simp add: example_network_def)

theorem validation_mirrors_feed_witness:
  "\<exists>s w'. validation_run (Inr ripe_example) Ripencc iran_world = (Inr s, w') \<and> vs_fetched s = length (ripe_parse ripe_example)
    \<and> (\<forall>c\<in>ce_cidr ` set (ripe_parse ripe_example). \<exists>k r. get_row k (w_cidrs w') = Some r \<and> active r
         \<and> cn_source r = provider_source Ripencc \<and> cn_cidr r = c)
    \<and> (\<forall>k r. get_row k (w_cidrs w') = Some r \<longrightarrow> cn_country_code r = iran_country_code \<longrightarrow> cn_source r = provider_source Ripencc
         \<longrightarrow> (cn_enabled r \<longleftrightarrow> cn_cidr r \<in> ce_cidr ` set (ripe_parse ripe_example)))"
  by (rule validation_mirrors_feed[OF iran_world_cidrs_ok iran_world_histories_ok])
    (simp add: provider_fetch_def res_bind_def)

lemma validation_reevaluates_example:
  "\<exists>s w'. validation_run (Inr ripe_example) Ripencc iran_world = (Inr s, w') \<and> cidrs_ok w' \<and> histories_ok w' \<and>
    (\<forall>k r. get_row k (w_ips iran_world) = Some r \<longrightarrow> (\<exists>r'. get_row k (w_ips w') = Some r' \<and> same_identity r r' \<and>
      (if ia_is_iran r \<and> (vs_created s \<noteq> 0 \<or> vs_disabled s \<noteq> 0) then classified (verdict_now w' r) r' else r' = r)))"
proof -
  have f: "provider_fetch (Inr ripe_example) Ripencc iran_world = Inr (ripe_parse ripe_example)"
    by (simp add: provider_fetch_def res_bind_def)
  obtain s w' where run: "validation_run (Inr ripe_example) Ripencc iran_world = (Inr s, w')"
    by (rule validation_run_spec[OF iran_world_cidrs_ok iran_world_histories_ok f])
  then show ?thesis using validation_reevaluates[OF iran_world_cidrs_ok iran_world_histories_ok run] by blast
qed

lemma validation_raises_with_fetch_example:
  "cidrs_ok iran_world \<and> validation_run (Inl ValueError) Ripencc iran_world = (Inl ValueError, iran_world)"
proof -
  have "provider_fetch (Inl ValueError) Ripencc iran_world = Inl ValueError" by (simp add: provider_fetch_def res_bind_def)
  then show ?thesis
    using validation_raises_with_fetch[OF iran_world_cidrs_ok iran_world_histories_ok, of "Inl ValueError" Ripencc] iran_world_cidrs_ok by simp
qed

lemma static_run_reenables_example:
  "\<exists>n w'. validation_run (Inl ValueError) Static iran_world =
        (Inr \<lparr>vs_fetched = n, vs_created = 0, vs_disabled = 0, vs_reevaluated = 0\<rparr>, w')
    \<and> w_ips w' = w_ips iran_world
    \<and> (\<forall>k r. get_row k (w_cidrs iran_world) = Some r \<longrightarrow> cn_country_code r = iran_country_code \<longrightarrow> cn_source r = ''manual''
         \<longrightarrow> (\<exists>r'. get_row k (w_cidrs w') = Some r' \<and> same_network r r' \<and> cn_enabled r'))"
  by (rule static_run_reenables[OF iran_world_cidrs_ok iran_world_histories_ok])

theorem classify_extends_timeline_witness:
  "\<exists>ip' w'. classify 1 iran_ip iran_world = (Inr ip', w') \<and>
    timeline 1 (w_history w') = (\<lambda>t. if t < 500 then timeline 1 (w_history iran_world) t else vd_is_iran (verdict_now iran_world iran_ip))
    \<and> (\<forall>j. j \<noteq> 1 \<longrightarrow> timeline j (w_history w') = timeline j (w_history iran_world)) \<and> histories_ok w'"
proof -
  obtain ips h where c: "classify 1 iran_ip iran_world =
     (Inr (apply_verdict (verdict_now iran_world iran_ip) (w_now iran_world) iran_ip), iran_world\<lparr>w_history := h, w_ips := ips\<rparr>)"
    using classify_spec[OF iran_world_rows(2) iran_world_histories_ok] by blast
  moreover have "w_now iran_world = 500" by (simp add: iran_world_def empty_world_def)
  ultimately show ?thesis
    using classify_extends_timeline[OF iran_world_histories_ok iran_world_rows(2) c] by auto
qed

theorem classify_flags_iranian_witness:
  "\<exists>ip' w' r. classify 1 iran_ip iran_world = (Inr ip', w') \<and> get_row 1 (w_ips w') = Some r \<and> same_identity iran_ip r
    \<and> (ia_is_iran r \<longleftrightarrow> (\<exists>j n. get_row j (w_cidrs iran_world) = Some n \<and> active n \<and> covers n (V4 83952131))
         \<or> ia_whois_country iran_ip = iran_country_code)
    \<and> (\<forall>j. j \<noteq> 1 \<longrightarrow> get_row j (w_ips w') = get_row j (w_ips iran_world))"
proof -
  have "ia_address iran_ip = ip_str (V4 83952131)" using iran_world_rows(4) by (simp add: iran_ip_def blank_ip_def)
  then show ?thesis
    by (rule classify_flags_iranian[OF iran_world_histories_ok iran_world_nets_ok iran_world_rows(2)]) simp
qed

lemma bare_address_network_crashes_example:
  "save_new_network ((example_network [] 0 ''manual'' True)\<lparr>cn_cidr := ip_str (V4 83952131)\<rparr>) iran_world = (Inl IndexError, iran_world)
    \<and> cidr_prep (ip_str (V4 83952131)) = Inr (Some (net_str (Net (V4 83952131) (max_prefixlen (V4 83952131)))))"
  by (rule bare_address_network_crashes) simp

end
