(* ===== verification/Iran_Export.thy ===== *)
theory Iran_Export
  imports Reporting Iran_Validation
begin

text \<open>
  \<open>apps/iran/export.py\<close> and the downloads of \<open>apps/iran/views.py\<close>: the filters read from a query string, the
  addresses they select, and the three file formats. The parameter \<open>cidr_in\<close> is the database's own
  conversion of text to \<open>cidr\<close>, None where PostgreSQL refuses the text (a \<open>DataError\<close>).
\<close>

section \<open>Filters\<close>

definition period_since :: "string \<Rightarrow> world \<Rightarrow> time option" where
  "period_since period w =
     (if period = ''24h'' then Some (w_now w - hours 24)
      else if period = ''7d'' then Some (w_now w - days 7)
      else if period = ''30d'' then Some (w_now w - days 30)
      else None)"

record export_filters =
  ef_period :: string
  ef_server_id :: "int option"
  ef_cidr :: string
  ef_status_503_only :: bool
  ef_iran_status :: string

definition default_filters :: export_filters where
  "default_filters =
     \<lparr>ef_period = ''all'', ef_server_id = None, ef_cidr = [], ef_status_503_only = True, ef_iran_status = ''current''\<rparr>"

type_synonym querydict = "(string \<times> string) list"

definition param :: "querydict \<Rightarrow> string \<Rightarrow> string \<Rightarrow> string" where
  "param ps name dflt = (case map_of ps name of Some v \<Rightarrow> v | None \<Rightarrow> dflt)"

definition server_param :: "querydict \<Rightarrow> int option res" where
  "server_param ps =
     (let server_id = param ps ''server'' [] in
      if py_isdigit server_id then (case py_int server_id of Some n \<Rightarrow> Inr (Some n) | None \<Rightarrow> Inl ValueError)
      else Inr None)"

definition from_querydict :: "querydict \<Rightarrow> export_filters res" where
  "from_querydict ps =
     res_bind (server_param ps) (\<lambda>server.
       Inr \<lparr>ef_period = param ps ''period'' ''all'', ef_server_id = server,
            ef_cidr = py_strip (param ps ''cidr'' []),
            ef_status_503_only = (param ps ''status_503_only'' ''true'' \<noteq> ''false''),
            ef_iran_status = param ps ''iran_status'' ''current''\<rparr>)"

section \<open>The selection\<close>

text \<open>An id of 0 is false like None.\<close>

definition server_chosen :: "export_filters \<Rightarrow> int option" where
  "server_chosen f = (if ef_server_id f = Some 0 then None else ef_server_id f)"

definition wants_events :: "export_filters \<Rightarrow> bool" where
  "wants_events f \<longleftrightarrow> ef_status_503_only f \<or> server_chosen f \<noteq> None \<or> ef_period f \<noteq> ''all''"

definition event_selected :: "export_filters \<Rightarrow> world \<Rightarrow> event \<Rightarrow> bool" where
  "event_selected f w e \<longleftrightarrow>
     (case server_chosen f of None \<Rightarrow> True | Some s \<Rightarrow> int (ev_server e) = s) \<and>
     (case period_since (ef_period f) w of None \<Rightarrow> True | Some since \<Rightarrow> since \<le> ev_timestamp e)"

text \<open>The \<open>is_contained_by\<close> lookup: the address lies inside the network.\<close>

definition is_contained_by :: "ipnet \<Rightarrow> string \<Rightarrow> bool" where
  "is_contained_by net address =
     (case ip_network address of None \<Rightarrow> False | Some host \<Rightarrow> net_contains net host)"

definition previously_iran :: "world \<Rightarrow> pk list" where
  "previously_iran w =
     map (ch_ip \<circ> snd) (select_rows (\<lambda>_ h. ch_country_code h = iran_country_code \<and> ch_valid_until h \<noteq> None) (w_history w))"

definition cidr_filter :: "(string \<Rightarrow> ipnet option) \<Rightarrow> string \<Rightarrow> (ip_row \<Rightarrow> bool) res" where
  "cidr_filter cidr_in cidr =
     (if cidr = [] then Inr (\<lambda>_. True)
      else (case cidr_in cidr of
              None \<Rightarrow> Inl (RuntimeError ''DataError'')
            | Some net \<Rightarrow> Inr (\<lambda>r. is_contained_by net (ia_address r))))"

definition iran_filter :: "string \<Rightarrow> world \<Rightarrow> pk \<Rightarrow> ip_row \<Rightarrow> bool" where
  "iran_filter iran_status w k r =
     (if iran_status = ''current'' then ia_is_iran r
      else if iran_status = ''previous'' then k \<in> set (previously_iran w) \<and> \<not> ia_is_iran r
      else True)"

definition build_queryset :: "(string \<Rightarrow> ipnet option) \<Rightarrow> export_filters \<Rightarrow> world \<Rightarrow> (pk \<times> ip_row) list res" where
  "build_queryset cidr_in f w =
     res_bind (cidr_filter cidr_in (ef_cidr f)) (\<lambda>inside.
       let active = map (ev_ip \<circ> snd) (select_rows (\<lambda>_ e. event_selected f w e) (w_events w)) in
       Inr (order_by (inet_key \<circ> ia_address)
         (select_rows (\<lambda>k r. (wants_events f \<longrightarrow> k \<in> set active) \<and> inside r \<and> iran_filter (ef_iran_status f) w k r)
            (w_ips w))))"

section \<open>The files\<close>

definition export_fields :: "string list" where
  "export_fields = [''address'', ''version'', ''country_code'', ''asn'', ''organization'', ''is_iran'',
     ''iran_match_cidr'', ''first_seen_at'', ''last_seen_at'']"

definition export_values :: "ip_row \<Rightarrow> json list" where
  "export_values r =
     [JStr (ia_address r), JInt (int (ia_version r)), JStr (ia_country_code r), jopt JInt (ia_asn r),
      JStr (ia_organization r), JBool (ia_is_iran r), jopt JStr (ia_iran_match_cidr r),
      JStr (datetime_str (ia_first_seen_at r)), JStr (datetime_str (ia_last_seen_at r))]"

text \<open>What \<open>csv.writer\<close> prints for a value: \<open>str()\<close> of it, nothing for None.\<close>

fun csv_value :: "json \<Rightarrow> string" where
  "csv_value JNull = []"
| "csv_value (JBool b) = (if b then ''True'' else ''False'')"
| "csv_value (JInt n) = int_str n"
| "csv_value (JStr s) = s"
| "csv_value _ = []"

definition export_txt :: "(pk \<times> ip_row) list \<Rightarrow> string" where
  "export_txt rows =
     (let body = join_with [CHR 0x0A] (map (ia_address \<circ> snd) rows)
      in if body \<noteq> [] then body @ [CHR 0x0A] else body)"

definition export_csv :: "(pk \<times> ip_row) list \<Rightarrow> string" where
  "export_csv rows = csv_text (export_fields # map (\<lambda>(_, r). map csv_value (export_values r)) rows)"

definition export_json :: "(pk \<times> ip_row) list \<Rightarrow> json" where
  "export_json rows = JList (map (\<lambda>(_, r). JObj (zip export_fields (export_values r))) rows)"

section \<open>What is selected\<close>

lemma previously_iran_iff:
  assumes "table_ok (w_history w)"
  shows "k \<in> set (previously_iran w) \<longleftrightarrow>
    (\<exists>h\<in>set (periods_of k (w_history w)). ch_country_code h = iran_country_code \<and> ch_valid_until h \<noteq> None)"
  by (auto simp: previously_iran_def periods_of_def select_rows_def image_iff)

lemma active_iff:
  assumes "table_ok (w_events w)"
  shows "k \<in> set (map (ev_ip \<circ> snd) (select_rows (\<lambda>_ e. event_selected f w e) (w_events w))) \<longleftrightarrow>
    (\<exists>j e. get_row j (w_events w) = Some e \<and> ev_ip e = k \<and> event_selected f w e)"
proof
  assume "k \<in> set (map (ev_ip \<circ> snd) (select_rows (\<lambda>_ e. event_selected f w e) (w_events w)))"
  then obtain j e where e: "(j, e) \<in> set (select_rows (\<lambda>_ e. event_selected f w e) (w_events w))" "ev_ip e = k" by auto
  from select_rowsD[OF assms e(1)] e(2)
  show "\<exists>j e. get_row j (w_events w) = Some e \<and> ev_ip e = k \<and> event_selected f w e" by blast
next
  assume "\<exists>j e. get_row j (w_events w) = Some e \<and> ev_ip e = k \<and> event_selected f w e"
  then obtain j e where e: "get_row j (w_events w) = Some e \<and> event_selected f w e" "ev_ip e = k" by blast
  from e(1) have "(j, e) \<in> set (select_rows (\<lambda>_ e. event_selected f w e) (w_events w))"
    unfolding select_rows_set[OF assms] .
  then show "k \<in> set (map (ev_ip \<circ> snd) (select_rows (\<lambda>_ e. event_selected f w e) (w_events w)))"
    unfolding set_map using e(2) by (intro image_eqI[of _ _ "(j, e)"]) simp_all
qed

lemma build_queryset_rows:
  assumes "tables_ok w" "build_queryset cidr_in f w = Inr rows"
  shows "(k, r) \<in> set rows \<longleftrightarrow> get_row k (w_ips w) = Some r
     \<and> (wants_events f \<longrightarrow> (\<exists>j e. get_row j (w_events w) = Some e \<and> ev_ip e = k \<and> event_selected f w e))
     \<and> (ef_cidr f \<noteq> [] \<longrightarrow> (\<exists>net. cidr_in (ef_cidr f) = Some net \<and> is_contained_by net (ia_address r)))
     \<and> iran_filter (ef_iran_status f) w k r"
proof -
  have t: "table_ok (w_ips w)" "table_ok (w_events w)" using assms(1) by (simp_all add: tables_ok_def)
  obtain inside where i: "cidr_filter cidr_in (ef_cidr f) = Inr inside"
    and rows: "rows = order_by (inet_key \<circ> ia_address)
         (select_rows (\<lambda>k r. (wants_events f \<longrightarrow> k \<in> set (map (ev_ip \<circ> snd) (select_rows (\<lambda>_ e. event_selected f w e) (w_events w))))
            \<and> inside r \<and> iran_filter (ef_iran_status f) w k r) (w_ips w))"
    using assms(2) by (auto simp: build_queryset_def Let_def res_bind_Inr_iff)
  have "inside r \<longleftrightarrow> (ef_cidr f \<noteq> [] \<longrightarrow> (\<exists>net. cidr_in (ef_cidr f) = Some net \<and> is_contained_by net (ia_address r)))"
    using i by (auto simp: cidr_filter_def split: if_split_asm option.split_asm)
  then show ?thesis
    unfolding rows order_by_set select_rows_set[OF t(1)] active_iff[OF t(2)] by blast
qed

lemma build_queryset_shape:
  assumes "tables_ok w" "build_queryset cidr_in f w = Inr rows"
  shows "distinct (map fst rows)" "sorted (map (inet_key \<circ> ia_address \<circ> snd) rows)"
proof -
  have t: "table_ok (w_ips w)" using assms(1) by (simp add: tables_ok_def)
  obtain P where rows: "rows = order_by (inet_key \<circ> ia_address) (select_rows P (w_ips w))"
    using assms(2) by (auto simp: build_queryset_def Let_def res_bind_Inr_iff)
  have "distinct (map fst (select_rows P (w_ips w)))"
    unfolding select_rows_def using table_ok_distinct[OF t] by (rule distinct_map_filter)
  moreover have "mset (map fst rows) = mset (map fst (select_rows P (w_ips w)))" unfolding rows mset_map by simp
  ultimately show "distinct (map fst rows)" by (metis mset_eq_imp_distinct_iff)
  have "map (\<lambda>(_, r). (inet_key \<circ> ia_address) r) rows = map (inet_key \<circ> ia_address \<circ> snd) rows"
    by (simp add: case_prod_beta')
  then show "sorted (map (inet_key \<circ> ia_address \<circ> snd) rows)"
    using order_by_sorted[of "inet_key \<circ> ia_address" "select_rows P (w_ips w)"] unfolding rows by metis
qed

lemma export_sorted_addresses:
  assumes "tables_ok w" "build_queryset cidr_in f w = Inr rows"
    and "list_all (\<lambda>(_, r). \<exists>a. ip_address (ia_address r) = Some a \<and> scopeless a) rows"
  shows "sorted (map (\<lambda>(_, r). the (ip_address (ia_address r))) rows)"
proof -
  have "sorted (map inet_key (map (ia_address \<circ> snd) rows))" using build_queryset_shape(2)[OF assms(1,2)] by (simp add: comp_assoc)
  then have "sorted (map (\<lambda>s. the (ip_address s)) (map (ia_address \<circ> snd) rows))"
    by (rule inet_sorted[rotated]) (use assms(3) in \<open>auto simp: list_all_iff\<close>)
  then show ?thesis by (simp add: comp_def case_prod_beta')
qed

section \<open>Properties\<close>

text \<open>C27: An export lists every selected address once, in address order: with an event filter exactly those
  with a matching request, inside the network when one is given, and with the Iran status asked for.\<close>

theorem export_lists_selection:
  assumes "tables_ok w" "build_queryset cidr_in f w = Inr rows"
  shows "distinct (map fst rows) \<and> sorted (map (inet_key \<circ> ia_address \<circ> snd) rows)
    \<and> ((k, r) \<in> set rows \<longleftrightarrow> get_row k (w_ips w) = Some r
         \<and> (wants_events f \<longrightarrow> (\<exists>j e. get_row j (w_events w) = Some e \<and> ev_ip e = k \<and> event_selected f w e))
         \<and> (ef_cidr f \<noteq> [] \<longrightarrow> (\<exists>net. cidr_in (ef_cidr f) = Some net \<and> is_contained_by net (ia_address r)))
         \<and> iran_filter (ef_iran_status f) w k r)"
  using build_queryset_shape[OF assms] build_queryset_rows[OF assms] by blast

text \<open>Every period of the classification history is one in Iran, and none ended the moment it began.\<close>

definition lasting_periods :: "world \<Rightarrow> bool" where
  "lasting_periods w \<longleftrightarrow> table_ok (w_history w) \<and>
     list_all (\<lambda>(_, h). ch_country_code h = iran_country_code \<and>
       (case ch_valid_until h of None \<Rightarrow> True | Some u \<Rightarrow> ch_valid_from h < u)) (tb_rows (w_history w))"

lemma lasting_period:
  assumes "lasting_periods w" "p \<in> set (periods_of k (w_history w))"
  shows "ch_country_code p = iran_country_code" "ch_valid_until p = Some u \<Longrightarrow> ch_valid_from p < u"
  using assms by (auto simp: lasting_periods_def periods_of_def select_rows_def list_all_iff split: option.splits)

lemma timeline_past:
  assumes ps: "periods_ok (w_now w) r (periods_of k (w_history w))" and l: "lasting_periods w" and n: "\<not> ia_is_iran r"
  shows "(\<exists>t<w_now w. timeline k (w_history w) t) \<longleftrightarrow> k \<in> set (previously_iran w)"
proof -
  have tok: "table_ok (w_history w)" using l by (simp add: lasting_periods_def)
  let ?ps = "periods_of k (w_history w)"
  have ok: "period_ok (w_now w) p" if "p \<in> set ?ps" for p using ps that by (simp add: periods_ok_def list_all_iff)
  have closed: "ch_valid_until p \<noteq> None" if "p \<in> set ?ps" for p using ps n that by (auto simp: periods_ok_def list_ex_iff)
  show ?thesis unfolding previously_iran_iff[OF tok]
  proof
    assume "\<exists>t<w_now w. timeline k (w_history w) t"
    then obtain p where "p \<in> set ?ps" by (auto simp: timeline_def)
    then show "\<exists>h\<in>set ?ps. ch_country_code h = iran_country_code \<and> ch_valid_until h \<noteq> None"
      using closed lasting_period(1)[OF l] by blast
  next
    assume "\<exists>h\<in>set ?ps. ch_country_code h = iran_country_code \<and> ch_valid_until h \<noteq> None"
    then obtain p u where p: "p \<in> set ?ps" "ch_valid_until p = Some u" by blast
    have b: "ch_valid_from p < u" "u \<le> w_now w"
      using lasting_period(2)[OF l p(1)] p(2) ok[OF p(1)] by (auto simp: period_ok_def)
    then have "holds_at (ch_valid_from p) p" using p(2) by (simp add: holds_at_def)
    then show "\<exists>t<w_now w. timeline k (w_history w) t" using p(1) b
      by (intro exI[of _ "ch_valid_from p"]) (auto simp: timeline_def)
  qed
qed

text \<open>C26: Without further filters the export of current addresses lists exactly those whose classification timeline
  says Iran now, and the one of previous addresses exactly those it said Iran of before and no longer does.\<close>

theorem export_follows_timeline:
  assumes "tables_ok w" "histories_ok w" "lasting_periods w" "\<not> wants_events f" "ef_cidr f = []"
    "build_queryset cidr_in f w = Inr rows"
  shows "(ef_iran_status f = ''current'' \<longrightarrow>
            ((k, r) \<in> set rows \<longleftrightarrow> get_row k (w_ips w) = Some r \<and> timeline k (w_history w) (w_now w)))
    \<and> (ef_iran_status f = ''previous'' \<longrightarrow>
            ((k, r) \<in> set rows \<longleftrightarrow> get_row k (w_ips w) = Some r \<and> \<not> timeline k (w_history w) (w_now w)
               \<and> (\<exists>t<w_now w. timeline k (w_history w) t)))"
proof (cases "get_row k (w_ips w) = Some r")
  case True
  have ps: "periods_ok (w_now w) r (periods_of k (w_history w))"
    using assms(2) True unfolding histories_ok_def by (auto dest: all_rowsD)
  have "timeline k (w_history w) (w_now w) \<longleftrightarrow> ia_is_iran r"
    unfolding timeline_def using open_from_now[OF ps, of "w_now w"] by simp
  moreover have "\<not> ia_is_iran r \<Longrightarrow> (\<exists>t<w_now w. timeline k (w_history w) t) \<longleftrightarrow> k \<in> set (previously_iran w)"
    by (rule timeline_past[OF ps assms(3)])
  moreover have "(k, r) \<in> set rows \<longleftrightarrow> iran_filter (ef_iran_status f) w k r"
    using build_queryset_rows[OF assms(1,6), of k r] True assms(4,5) by blast
  ultimately show ?thesis using True by (auto simp: iran_filter_def)
next
  case False
  then show ?thesis using build_queryset_rows[OF assms(1,6), of k r] by blast
qed

lemma split_on_lines:
  assumes "ps \<noteq> []" "\<forall>p\<in>set ps. c \<notin> set p"
  shows "split_on c (join_with [c] ps @ [c]) = ps @ [[]]"
  using split_on_join[OF assms] assms(1) by (simp add: split_on_append)

lemma export_txt_lines:
  assumes "\<forall>(_, r)\<in>set rows. ia_address r \<noteq> [] \<and> CHR 0x0A \<notin> set (ia_address r)"
  shows "split_on (CHR 0x0A) (export_txt rows) = map (ia_address \<circ> snd) rows @ [[]]"
proof (cases rows)
  case (Cons x xs)
  have "join_with [CHR 0x0A] (map (ia_address \<circ> snd) rows) \<noteq> []"
    using assms Cons by (cases "map (ia_address \<circ> snd) xs") auto
  moreover have "\<forall>p\<in>set (map (ia_address \<circ> snd) rows). CHR 0x0A \<notin> set p" using assms by auto
  moreover have "map (ia_address \<circ> snd) rows \<noteq> []" using Cons by simp
  ultimately show ?thesis using split_on_lines[of "map (ia_address \<circ> snd) rows" "CHR 0x0A"] by (simp add: export_txt_def)
qed (simp add: export_txt_def)

text \<open>C28: The three downloads of one selection carry the same addresses in the same order: the text file has one per
  line, the CSV file reads back as the header and exactly the nine values of every row, the JSON file as its objects.\<close>

theorem downloads_agree:
  assumes "\<forall>(_, r)\<in>set rows. ia_address r \<noteq> [] \<and> CHR 0x0A \<notin> set (ia_address r)"
  shows "split_on (CHR 0x0A) (export_txt rows) = map (ia_address \<circ> snd) rows @ [[]]
    \<and> csv_parse (export_csv rows) = Some (export_fields # map (\<lambda>(_, r). map csv_value (export_values r)) rows)
    \<and> map hd (map (\<lambda>(_, r). map csv_value (export_values r)) rows) = map (ia_address \<circ> snd) rows
    \<and> (\<exists>objs. export_json rows = JList objs \<and> length objs = length rows
         \<and> (\<forall>i<length rows. \<exists>ps. objs ! i = JObj ps \<and> map_of ps ''address'' = Some (JStr (ia_address (snd (rows ! i))))))"
proof (intro conjI)
  show "split_on (CHR 0x0A) (export_txt rows) = map (ia_address \<circ> snd) rows @ [[]]" by (rule export_txt_lines[OF assms])
  show "csv_parse (export_csv rows) = Some (export_fields # map (\<lambda>(_, r). map csv_value (export_values r)) rows)"
    unfolding export_csv_def by (rule csv_parse_text) (auto simp: export_fields_def export_values_def)
  show "map hd (map (\<lambda>(_, r). map csv_value (export_values r)) rows) = map (ia_address \<circ> snd) rows"
    by (auto simp: export_values_def)
  show "\<exists>objs. export_json rows = JList objs \<and> length objs = length rows
         \<and> (\<forall>i<length rows. \<exists>ps. objs ! i = JObj ps \<and> map_of ps ''address'' = Some (JStr (ia_address (snd (rows ! i)))))"
    by (auto simp: export_json_def export_fields_def export_values_def case_prod_beta)
qed

section \<open>Examples\<close>

definition export_ip :: "string \<Rightarrow> bool \<Rightarrow> ip_row" where
  "export_ip address is_iran = (blank_ip address 4 1000000 2000000)\<lparr>ia_is_iran := is_iran, ia_organization := ''Acme, Inc.''\<rparr>"

definition export_period :: "pk \<Rightarrow> time option \<Rightarrow> country_history" where
  "export_period k until =
     \<lparr>ch_ip = k, ch_country_code = ''IR'', ch_source = ''manual'', ch_cidr = None, ch_valid_from = 1000000,
      ch_valid_until = until, ch_confidence = 1, ch_created_at = 1000000\<rparr>"

definition export_world :: world where
  "export_world = (empty_world default_settings 5000000)
     \<lparr>w_ips := add_rows [export_ip ''9.9.9.9'' True, export_ip ''5.1.2.3'' False] empty_table,
      w_history := add_rows [export_period 1 None, export_period 2 (Some 3000000)] empty_table\<rparr>"

definition any_filters :: "string \<Rightarrow> export_filters" where
  "any_filters s = default_filters\<lparr>ef_status_503_only := False, ef_iran_status := s\<rparr>"

lemma export_world_ok: "tables_ok export_world" "histories_ok export_world" "lasting_periods export_world"
  unfolding tables_ok_check histories_ok_check by code_simp+

lemma any_filters_run:
  "build_queryset ip_network (any_filters ''any'') export_world =
     Inr [(2, export_ip ''5.1.2.3'' False), (1, export_ip ''9.9.9.9'' True)]"
  "build_queryset ip_network (any_filters ''current'') export_world = Inr [(1, export_ip ''9.9.9.9'' True)]"
  "build_queryset ip_network (any_filters ''previous'') export_world = Inr [(2, export_ip ''5.1.2.3'' False)]"
  by code_simp+

theorem export_lists_selection_witness:
  "\<exists>rows. build_queryset ip_network (any_filters ''any'') export_world = Inr rows \<and> length rows = 2 \<and> distinct (map fst rows)"
  using export_lists_selection[OF export_world_ok(1) any_filters_run(1), of 1 "export_ip ''9.9.9.9'' True"] any_filters_run(1)
  by simp

theorem export_follows_timeline_witness:
  "timeline 1 (w_history export_world) (w_now export_world) \<and> \<not> timeline 2 (w_history export_world) (w_now export_world)
    \<and> (\<exists>t<w_now export_world. timeline 2 (w_history export_world) t)"
proof -
  have f: "\<not> wants_events (any_filters s)" "ef_cidr (any_filters s) = []" "ef_iran_status (any_filters s) = s" for s
    by (simp_all add: wants_events_def any_filters_def default_filters_def server_chosen_def)
  show ?thesis
    using export_follows_timeline[OF export_world_ok f(1,2) any_filters_run(2), of 1 "export_ip ''9.9.9.9'' True"]
      export_follows_timeline[OF export_world_ok f(1,2) any_filters_run(3), of 2 "export_ip ''5.1.2.3'' False"]
    by (simp add: f(3))
qed

theorem downloads_agree_witness:
  "csv_parse (export_csv [(2, export_ip ''5.1.2.3'' False)]) =
     Some [export_fields, [''5.1.2.3'', ''4'', [], [], ''Acme, Inc.'', ''False'', [], datetime_str 1000000, datetime_str 1000000]]"
proof -
  have v: "map csv_value (export_values (export_ip ''5.1.2.3'' False)) =
      [''5.1.2.3'', ''4'', [], [], ''Acme, Inc.'', ''False'', [], datetime_str 1000000, datetime_str 1000000]"
    by (simp add: export_values_def export_ip_def blank_ip_def jopt_def int_str_def nat_str.simps digit_char_def char_of_def bit_0)
  have a: "ia_address (export_ip ''5.1.2.3'' False) = ''5.1.2.3''" by (simp add: export_ip_def blank_ip_def)
  show ?thesis using downloads_agree[of "[(2, export_ip ''5.1.2.3'' False)]"] v a by simp
qed

end
