(* ===== verification/Pages.thy ===== *)
theory Pages
  imports Analytics Iran_Export Ip_Service
begin

text \<open>
  What the read-only pages show: the address list, detail page and directories of \<open>apps/ips/views.py\<close>, the
  WHOIS history of \<open>apps/whois/views.py\<close>, the incident pages of \<open>apps/incidents/views.py\<close> and the global search
  of \<open>apps/dashboard/search.py\<close>. Each list is the query set before the paginator cuts it into pages.
\<close>

section \<open>Addresses\<close>

definition asn_filter :: "string \<Rightarrow> (ip_row \<Rightarrow> bool) res" where
  "asn_filter asn =
     (if py_isdigit asn then
        (case py_int asn of Some n \<Rightarrow> Inr (\<lambda>r. ia_asn r = Some n) | None \<Rightarrow> Inl ValueError)
      else Inr (\<lambda>_. True))"

definition query_filter :: "string \<Rightarrow> ip_row \<Rightarrow> bool" where
  "query_filter query r \<longleftrightarrow> query = [] \<or> icontains (ia_address r) query \<or> icontains (ia_organization r) query
     \<or> icontains (ia_network r) query \<or> iexact (ia_country_code r) query"

definition ip_list :: "(string \<Rightarrow> ipnet option) \<Rightarrow> querydict \<Rightarrow> world \<Rightarrow> (pk \<times> ip_row) list res" where
  "ip_list cidr_in ps w =
     (let query = py_strip (param ps ''q'' []); cidr = py_strip (param ps ''cidr'' []); asn = py_strip (param ps ''asn'' []) in
      res_bind (asn_filter asn) (\<lambda>same_asn. res_bind (cidr_filter cidr_in cidr) (\<lambda>inside.
        Inr (order_desc ia_last_seen_at
          (select_rows (\<lambda>_ r. query_filter query r \<and> inside r \<and> same_asn r
             \<and> (map_of ps ''is_iran'' = Some ''true'' \<longrightarrow> ia_is_iran r)) (w_ips w))))))"

text \<open>The \<open>?server=\<close> and \<open>?host=\<close> selectors of the event lists: an id that is not a number is refused by the ORM.\<close>

definition event_selectors :: "querydict \<Rightarrow> (event \<Rightarrow> bool) res" where
  "event_selectors ps =
     (let server = param ps ''server'' []; host = param ps ''host'' [];
          at_host = (\<lambda>e. host = [] \<or> ev_host e = host) in
      if server = [] then Inr at_host
      else (case py_int server of
              None \<Rightarrow> Inl ValueError
            | Some n \<Rightarrow> Inr (\<lambda>e. int (ev_server e) = n \<and> at_host e)))"

record ip_detail_page =
  dp_ip :: ip_row
  dp_events :: "(pk \<times> event) list"
  dp_count :: nat
  dp_first :: "time option"
  dp_last :: "time option"
  dp_servers :: "(pk \<times> server) list"
  dp_hosts :: "string list"
  dp_whois :: "(pk \<times> whois_record) list"
  dp_history :: "(pk \<times> country_history) list"

definition max_of :: "time list \<Rightarrow> time option" where
  "max_of ts = (case ts of [] \<Rightarrow> None | t # ts \<Rightarrow> Some (fold max ts t))"

definition min_of :: "time list \<Rightarrow> time option" where
  "min_of ts = (case ts of [] \<Rightarrow> None | t # ts \<Rightarrow> Some (fold min ts t))"

definition ip_detail :: "pk \<Rightarrow> querydict \<Rightarrow> world \<Rightarrow> ip_detail_page res" where
  "ip_detail k ps w =
     (case get_row k (w_ips w) of
        None \<Rightarrow> Inl Http404
      | Some ip \<Rightarrow>
          res_bind (event_selectors ps) (\<lambda>wanted.
            (let events = select_rows (\<lambda>_ e. ev_ip e = k) (w_events w);
                 times = map (ev_timestamp \<circ> snd) events in
             Inr \<lparr>dp_ip = ip,
                  dp_events = order_desc ev_timestamp (filter (\<lambda>(_, e). wanted e) events),
                  dp_count = length events, dp_first = min_of times, dp_last = max_of times,
                  dp_servers = order_by sv_name (select_rows (\<lambda>s _. s \<in> set (map (ev_server \<circ> snd) events)) (w_servers w)),
                  dp_hosts = distinct_values (filter (\<lambda>h. h \<noteq> []) (map (ev_host \<circ> snd) events)),
                  dp_whois = take 5 (order_desc wr_queried_at (select_rows (\<lambda>_ r. wr_ip r = k) (w_whois w))),
                  dp_history = take 10 (order_desc ch_valid_from (select_rows (\<lambda>_ h. ch_ip h = k) (w_history w)))\<rparr>)))"

section \<open>Directories\<close>

record directory_entry =
  de_organization :: string
  de_total :: nat
  de_iran_count :: nat

definition by_total :: "('k \<times> directory_entry) list \<Rightarrow> ('k \<times> directory_entry) list" where
  "by_total rows = sort_key (\<lambda>(_, d). - int (de_total d)) rows"

definition group_rows :: "(ip_row \<Rightarrow> 'k option) \<Rightarrow> ip_row list \<Rightarrow> ('k \<times> ip_row list) list" where
  "group_rows key rows =
     map (\<lambda>k. (k, filter (\<lambda>r. key r = Some k) rows)) (distinct_values (List.map_filter key rows))"

definition country_list :: "world \<Rightarrow> ((string \<times> string) \<times> directory_entry) list" where
  "country_list w =
     by_total (map (\<lambda>(k, rs). (k, \<lparr>de_organization = [], de_total = length rs, de_iran_count = length (filter ia_is_iran rs)\<rparr>))
       (group_rows (\<lambda>r. if ia_country_code r = [] then None else Some (ia_country_code r, ia_country_name r))
          (row_values (w_ips w))))"

text \<open>\<open>Max("organization")\<close>, in code point order.\<close>

definition max_text :: "string list \<Rightarrow> string" where
  "max_text ss = fold max ss []"

definition asn_list :: "world \<Rightarrow> (int \<times> directory_entry) list" where
  "asn_list w =
     by_total (map (\<lambda>(k, rs). (k, \<lparr>de_organization = max_text (map ia_organization rs), de_total = length rs,
                                   de_iran_count = length (filter ia_is_iran rs)\<rparr>))
       (group_rows ia_asn (row_values (w_ips w))))"

section \<open>WHOIS history\<close>

definition whois_list :: "querydict \<Rightarrow> world \<Rightarrow> (pk \<times> whois_record) list" where
  "whois_list ps w =
     (let ip_query = py_strip (param ps ''ip'' []) in
      order_desc wr_queried_at
        (select_rows (\<lambda>_ r. ip_query = [] \<or>
           (case get_row (wr_ip r) (w_ips w) of None \<Rightarrow> False | Some ip \<Rightarrow> icontains (ia_address ip) ip_query)) (w_whois w)))"

definition whois_detail :: "pk \<Rightarrow> world \<Rightarrow> whois_record res" where
  "whois_detail k w = (case get_row k (w_whois w) of None \<Rightarrow> Inl Http404 | Some r \<Rightarrow> Inr r)"

section \<open>Incidents\<close>

definition requests_of :: "world \<Rightarrow> pk \<Rightarrow> nat" where
  "requests_of w k = length (filter (\<lambda>e. ev_ip e = k) (row_values (w_events w)))"

definition ips_with_requests :: "world \<Rightarrow> (pk \<times> ip_row) list" where
  "ips_with_requests w = select_rows (\<lambda>k _. 0 < requests_of w k) (w_ips w)"

definition allowed_sorts :: "string list" where
  "allowed_sorts = [''address'', ''-address'', ''event_count'', ''-event_count'', ''last_seen_at'', ''-last_seen_at'',
     ''first_seen_at'', ''-first_seen_at'', ''asn'', ''-asn'']"

text \<open>The sort key of a column; a missing ASN sorts last going up and first going down, as in PostgreSQL.\<close>

definition sort_column :: "world \<Rightarrow> string \<Rightarrow> pk \<times> ip_row \<Rightarrow> int \<times> int" where
  "sort_column w column = (\<lambda>(k, r).
     if column = ''address'' then (case inet_key (ia_address r) of (v, n) \<Rightarrow> (int v, int n))
     else if column = ''event_count'' then (0, int (requests_of w k))
     else if column = ''last_seen_at'' then (0, ia_last_seen_at r)
     else if column = ''first_seen_at'' then (0, ia_first_seen_at r)
     else (case ia_asn r of None \<Rightarrow> (1, 0) | Some n \<Rightarrow> (0, n)))"

definition sort_rows :: "world \<Rightarrow> string \<Rightarrow> (pk \<times> ip_row) list \<Rightarrow> (pk \<times> ip_row) list" where
  "sort_rows w order rows =
     (case order of
        [] \<Rightarrow> rows
      | c # column \<Rightarrow>
          if c = CHR ''-'' then sort_key (\<lambda>x. case sort_column w column x of (a, b) \<Rightarrow> (- a, - b)) rows
          else sort_key (sort_column w order) rows)"

definition ips_with_503 :: "querydict \<Rightarrow> world \<Rightarrow> (pk \<times> ip_row) list" where
  "ips_with_503 ps w =
     (let rows = filter (\<lambda>(_, r). map_of ps ''is_iran'' = Some ''true'' \<longrightarrow> ia_is_iran r) (ips_with_requests w);
          asked = param ps ''sort'' ''-event_count'';
          column = (if asked \<in> set allowed_sorts then asked else ''-event_count'')
      in sort_rows w column rows)"

record overview_page =
  op_total_503 :: nat
  op_unique_ips :: nat
  op_iranian_ips :: nat
  op_iranian_pct :: rat
  op_top_ips :: "(pk \<times> ip_row) list"

definition incidents_overview :: "world \<Rightarrow> overview_page" where
  "incidents_overview w =
     (let es = row_values (w_events w);
          unique = length (distinct_values (map ev_ip es));
          iranian = length (distinct_values (filter
            (\<lambda>k. case get_row k (w_ips w) of None \<Rightarrow> False | Some r \<Rightarrow> ia_is_iran r) (map ev_ip es)))
      in \<lparr>op_total_503 = length es, op_unique_ips = unique, op_iranian_ips = iranian,
          op_iranian_pct = (if unique = 0 then 0 else of_int (py_round (of_nat iranian / of_nat unique * 1000)) / 10),
          op_top_ips = take 10 (sort_rows w ''-event_count'' (ips_with_requests w))\<rparr>)"

definition incidents_timeline :: "querydict \<Rightarrow> world \<Rightarrow> (pk \<times> event) list res" where
  "incidents_timeline ps w =
     res_bind (event_selectors ps) (\<lambda>wanted. Inr (order_desc ev_timestamp (select_rows (\<lambda>_. wanted) (w_events w))))"

section \<open>Search\<close>

datatype search_target =
    Index_page
  | Ip_page pk
  | Ip_list_q string
  | Ip_list_cidr string
  | Ip_list_asn string
  | Server_page pk

definition search_url :: "search_target \<Rightarrow> string" where
  "search_url t =
     (case t of
        Index_page \<Rightarrow> ''/''
      | Ip_page k \<Rightarrow> ''/ips/'' @ nat_str k @ ''/''
      | Ip_list_q q \<Rightarrow> ''/ips/?q='' @ q
      | Ip_list_cidr c \<Rightarrow> ''/ips/?cidr='' @ c
      | Ip_list_asn a \<Rightarrow> ''/ips/?asn='' @ a
      | Server_page k \<Rightarrow> ''/servers/'' @ nat_str k @ ''/'')"

text \<open>Equality of an \<open>inet\<close> column with an address: the field drops a scope id.\<close>

definition same_inet :: "string \<Rightarrow> ipaddr \<Rightarrow> bool" where
  "same_inet stored a =
     (case ip_address stored of None \<Rightarrow> False | Some b \<Rightarrow> ip_version b = ip_version a \<and> ip_int b = ip_int a)"

definition asn_candidate :: "string \<Rightarrow> string" where
  "asn_candidate query = (if py_upper (take 2 query) = ''AS'' then drop 2 query else query)"

definition resolve_target :: "string \<Rightarrow> world \<Rightarrow> search_target" where
  "resolve_target raw w =
     (let query = py_strip raw in
      if query = [] then Index_page
      else (case ip_address query of
        Some a \<Rightarrow>
          (case order_desc ia_last_seen_at (select_rows (\<lambda>_ r. same_inet (ia_address r) a) (w_ips w)) of
             (k, _) # _ \<Rightarrow> Ip_page k
           | [] \<Rightarrow> Ip_list_q query)
      | None \<Rightarrow>
          if CHR ''/'' \<in> set query \<and> ip_network query \<noteq> None then Ip_list_cidr query
          else if py_isdigit (asn_candidate query) then Ip_list_asn (asn_candidate query)
          else (case order_by sv_name (select_rows (\<lambda>_ s. iexact (sv_name s) query \<or> iexact (sv_hostname s) query) (w_servers w)) of
                  (k, _) # _ \<Rightarrow> Server_page k
                | [] \<Rightarrow> Ip_list_q query)))"

definition resolve_search :: "string \<Rightarrow> world \<Rightarrow> string" where
  "resolve_search raw w = search_url (resolve_target raw w)"

section \<open>The incident pages agree\<close>

lemma sum_indicator: "distinct ks \<Longrightarrow> (\<Sum>k\<leftarrow>ks. if a = k then 1 else 0) = (if a \<in> set ks then 1 else (0::nat))"
  by (induction ks) auto

lemma sum_by_key:
  assumes "distinct ks" "set (map f es) \<subseteq> set ks"
  shows "(\<Sum>k\<leftarrow>ks. length (filter (\<lambda>e. f e = k) es)) = length es"
  using assms(2)
proof (induction es)
  case (Cons e es)
  have "(\<Sum>k\<leftarrow>ks. length (filter (\<lambda>e. f e = k) (e # es))) =
      (\<Sum>k\<leftarrow>ks. (if f e = k then 1 else 0) + length (filter (\<lambda>e. f e = k) es))"
    by (rule arg_cong[of _ _ sum_list], rule map_cong) simp_all
  then show ?case using Cons by (simp add: sum_list_addf sum_indicator[OF assms(1)])
qed (simp add: sum_list_0)

lemma sort_rows_mset: "mset (sort_rows w c rows) = mset rows"
  by (cases c) (simp_all add: sort_rows_def)

lemma sort_rows_simps [simp]:
  "set (sort_rows w c rows) = set rows" "length (sort_rows w c rows) = length rows"
  using sort_rows_mset[of w c rows] by (metis set_mset_mset, metis size_mset)

lemma event_ips:
  assumes "db_ok w" "e \<in> set (row_values (w_events w))"
  shows "has_row (w_ips w) (ev_ip e)"
proof -
  have t: "table_ok (w_events w)" and refs: "refs_ok w" using assms(1) by (simp_all add: db_ok_def tables_ok_def)
  obtain j where "(j, e) \<in> set (tb_rows (w_events w))" using assms(2) by (auto simp: row_values_def)
  then have "get_row j (w_events w) = Some e" using get_row_Some[OF t] by simp
  then show ?thesis using refs by (auto simp: refs_ok_def dest: all_rowsD)
qed

lemma requests_of_pos: "0 < requests_of w k \<longleftrightarrow> k \<in> set (map ev_ip (row_values (w_events w)))"
  by (auto simp: requests_of_def filter_empty_conv)

lemma ips_with_requests_keys:
  assumes "db_ok w"
  shows "distinct (map fst (ips_with_requests w))"
    "set (map fst (ips_with_requests w)) = set (map ev_ip (row_values (w_events w)))"
proof -
  have t: "table_ok (w_ips w)" using assms by (simp add: db_ok_def tables_ok_def)
  show "distinct (map fst (ips_with_requests w))"
    unfolding ips_with_requests_def select_rows_def using table_ok_distinct[OF t] by (rule distinct_map_filter)
  have mem: "(k, r) \<in> set (ips_with_requests w) \<longleftrightarrow> get_row k (w_ips w) = Some r \<and> 0 < requests_of w k" for k r
    unfolding ips_with_requests_def select_rows_set[OF t] ..
  show "set (map fst (ips_with_requests w)) = set (map ev_ip (row_values (w_events w)))"
  proof (intro set_eqI iffI)
    fix k assume "k \<in> set (map fst (ips_with_requests w))"
    then obtain r where "(k, r) \<in> set (ips_with_requests w)" by auto
    then show "k \<in> set (map ev_ip (row_values (w_events w)))" unfolding mem requests_of_pos by blast
  next
    fix k assume k: "k \<in> set (map ev_ip (row_values (w_events w)))"
    then obtain r where "get_row k (w_ips w) = Some r" using event_ips[OF assms] by (auto simp: has_row_def)
    then have "(k, r) \<in> set (ips_with_requests w)" unfolding mem requests_of_pos using k by blast
    then show "k \<in> set (map fst (ips_with_requests w))" by force
  qed
qed

lemma length_distinct_values: "length (distinct_values xs) = card (set xs)"
  using distinct_card[of "distinct_values xs"] by simp

text \<open>C31: The numbers of the incident overview are those of the incident table: the requests of its rows add up to
  the total, its rows are as many as the distinct addresses, and with the Iran filter as many as the Iranian ones.\<close>

theorem overview_matches_table:
  assumes "db_ok w"
  shows "(map_of ps ''is_iran'' \<noteq> Some ''true'' \<longrightarrow>
            op_total_503 (incidents_overview w) = (\<Sum>(k, r)\<leftarrow>ips_with_503 ps w. requests_of w k)
          \<and> op_unique_ips (incidents_overview w) = length (ips_with_503 ps w))
    \<and> (map_of ps ''is_iran'' = Some ''true'' \<longrightarrow> op_iranian_ips (incidents_overview w) = length (ips_with_503 ps w))
    \<and> op_iranian_ips (incidents_overview w) \<le> op_unique_ips (incidents_overview w)"
proof (intro conjI impI)
  note keys = ips_with_requests_keys[OF assms]
  let ?es = "row_values (w_events w)" and ?rows = "ips_with_requests w"
  let ?iran = "\<lambda>k. case get_row k (w_ips w) of None \<Rightarrow> False | Some r \<Rightarrow> ia_is_iran r"
  have len: "length ?rows = card (set (map ev_ip ?es))" using distinct_card[OF keys(1)] keys(2) by simp
  show "op_total_503 (incidents_overview w) = (\<Sum>(k, r)\<leftarrow>ips_with_503 ps w. requests_of w k)"
    if no: "map_of ps ''is_iran'' \<noteq> Some ''true''"
  proof -
    obtain c where c: "ips_with_503 ps w = sort_rows w c ?rows" using no by (simp add: ips_with_503_def Let_def)
    have "mset (map (\<lambda>(k, r). requests_of w k) (sort_rows w c ?rows)) = mset (map (\<lambda>(k, r). requests_of w k) ?rows)"
      unfolding mset_map sort_rows_mset ..
    then have "(\<Sum>(k, r)\<leftarrow>ips_with_503 ps w. requests_of w k) = (\<Sum>(k, r)\<leftarrow>?rows. requests_of w k)"
      unfolding c by (rule sum_list_permuted)
    also have "\<dots> = (\<Sum>k\<leftarrow>map fst ?rows. length (filter (\<lambda>e. ev_ip e = k) ?es))"
      by (simp add: requests_of_def comp_def case_prod_beta')
    also have "\<dots> = length ?es" by (rule sum_by_key[OF keys(1)]) (simp only: keys(2) order_refl)
    finally show ?thesis by (simp add: incidents_overview_def Let_def)
  qed
  show "op_unique_ips (incidents_overview w) = length (ips_with_503 ps w)" if "map_of ps ''is_iran'' \<noteq> Some ''true''"
    using that len by (simp add: incidents_overview_def ips_with_503_def Let_def length_distinct_values)
  have mem: "get_row k (w_ips w) = Some r" if "(k, r) \<in> set ?rows" for k r
    using that select_rowsD[of "w_ips w" k r] assms by (simp add: ips_with_requests_def db_ok_def tables_ok_def)
  have iran: "op_iranian_ips (incidents_overview w) = length (filter (\<lambda>(_, r). ia_is_iran r) ?rows)"
  proof -
    have "filter (\<lambda>(_, r). ia_is_iran r) ?rows = filter (\<lambda>x. ?iran (fst x)) ?rows"
      by (rule filter_cong) (auto dest: mem)
    then have "map fst (filter (\<lambda>(_, r). ia_is_iran r) ?rows) = filter ?iran (map fst ?rows)" by (simp add: filter_map comp_def)
    then have "length (filter (\<lambda>(_, r). ia_is_iran r) ?rows) = length (filter ?iran (map fst ?rows))" by (metis length_map)
    also have "\<dots> = card (set (filter ?iran (map fst ?rows)))" using keys(1) by (simp only: distinct_card distinct_filter)
    also have "\<dots> = card (set (filter ?iran (map ev_ip ?es)))" by (simp only: set_filter keys(2))
    finally show ?thesis by (simp add: incidents_overview_def Let_def length_distinct_values)
  qed
  show "op_iranian_ips (incidents_overview w) = length (ips_with_503 ps w)" if "map_of ps ''is_iran'' = Some ''true''"
    using that iran by (simp add: ips_with_503_def Let_def)
  have "card (set (filter ?iran (map ev_ip ?es))) \<le> card (set (map ev_ip ?es))" by (rule card_mono) auto
  then show "op_iranian_ips (incidents_overview w) \<le> op_unique_ips (incidents_overview w)"
    by (simp add: incidents_overview_def Let_def length_distinct_values)
qed

theorem overview_matches_table_witness:
  "op_total_503 (incidents_overview site_world) = (\<Sum>(k, r)\<leftarrow>ips_with_503 [(''sort'', ''address'')] site_world. requests_of site_world k)
    \<and> op_total_503 (incidents_overview site_world) = 3"
proof -
  have "op_total_503 (incidents_overview site_world) = 3" by code_simp
  then show ?thesis using overview_matches_table[OF site_world_ok, of "[(''sort'', ''address'')]"] by simp
qed

section \<open>Directories\<close>

lemma map_filter_length: "length (List.map_filter f xs) = length (filter (\<lambda>x. f x \<noteq> None) xs)"
  by (induction xs) (auto simp: map_filter_simps split: option.splits)

lemma map_filter_set: "set (List.map_filter f xs) = {y. \<exists>x\<in>set xs. f x = Some y}"
  by (induction xs) (auto simp: map_filter_simps split: option.splits)

lemma group_rows_total: "(\<Sum>(k, rs)\<leftarrow>group_rows key rows. length rs) = length (filter (\<lambda>r. key r \<noteq> None) rows)"
proof -
  have "length (filter (\<lambda>r. key r = Some k) rows) = length (filter (\<lambda>x. x = k) (List.map_filter key rows))" for k
    by (induction rows) (auto simp: map_filter_simps split: option.splits)
  then have "(\<Sum>(k, rs)\<leftarrow>group_rows key rows. length rs) = sum_list (map snd (tally (List.map_filter key rows)))"
    by (simp add: group_rows_def tally_def comp_def)
  then show ?thesis by (simp add: sum_tally map_filter_length)
qed

text \<open>The ASN directory has one entry per ASN; the entries count every address with an ASN once, an entry's
  Iranian addresses are among its addresses, and the biggest entries come first.\<close>

lemma asn_directory_complete:
  "distinct (map fst (asn_list w))
   \<and> set (map fst (asn_list w)) = {n. \<exists>r\<in>set (row_values (w_ips w)). ia_asn r = Some n}
   \<and> (\<Sum>(n, d)\<leftarrow>asn_list w. de_total d) = length (filter (\<lambda>r. ia_asn r \<noteq> None) (row_values (w_ips w)))
   \<and> (\<forall>(n, d)\<in>set (asn_list w). de_iran_count d \<le> de_total d
        \<and> de_total d = length (filter (\<lambda>r. ia_asn r = Some n) (row_values (w_ips w))))
   \<and> sorted_wrt (\<ge>) (map (de_total \<circ> snd) (asn_list w))"
proof -
  let ?rows = "row_values (w_ips w)" and ?g = "group_rows ia_asn (row_values (w_ips w))"
  let ?e = "\<lambda>(k, rs). (k, \<lparr>de_organization = max_text (map ia_organization rs), de_total = length rs,
                                   de_iran_count = length (filter ia_is_iran rs)\<rparr>)"
  have a: "asn_list w = by_total (map ?e ?g)" by (simp add: asn_list_def)
  have m: "mset (asn_list w) = mset (map ?e ?g)" unfolding a by_total_def by simp
  have fst_e: "map fst (map ?e ?g) = distinct_values (List.map_filter ia_asn ?rows)"
    by (simp add: group_rows_def comp_def)
  have "mset (map fst (asn_list w)) = mset (distinct_values (List.map_filter ia_asn ?rows))"
    unfolding fst_e[symmetric] mset_map m ..
  note keys = this
  have d: "distinct (map fst (asn_list w))" using mset_eq_imp_distinct_iff[OF keys] by simp
  have s: "set (map fst (asn_list w)) = set (List.map_filter ia_asn ?rows)" using mset_eq_setD[OF keys] by simp
  have "mset (map (\<lambda>(n, d). de_total d) (asn_list w)) = mset (map (\<lambda>(n, d). de_total d) (map ?e ?g))"
    unfolding mset_map m ..
  then have "(\<Sum>(n, d)\<leftarrow>asn_list w. de_total d) = (\<Sum>(n, d)\<leftarrow>map ?e ?g. de_total d)" by (rule sum_list_permuted)
  also have "\<dots> = (\<Sum>(k, rs)\<leftarrow>?g. length rs)" by (simp add: comp_def case_prod_beta')
  finally have t: "(\<Sum>(n, d)\<leftarrow>asn_list w. de_total d) = length (filter (\<lambda>r. ia_asn r \<noteq> None) ?rows)"
    by (simp only: group_rows_total)
  have e: "\<forall>(n, d)\<in>set (asn_list w). de_iran_count d \<le> de_total d \<and> de_total d = length (filter (\<lambda>r. ia_asn r = Some n) ?rows)"
    unfolding mset_eq_setD[OF m] by (auto simp: group_rows_def simp del: filter_filter)
  have "sorted_wrt (\<lambda>x y. de_total (snd y) \<le> de_total (snd x)) (by_total (map ?e ?g))"
    unfolding by_total_def using sorted_sort_key[of "\<lambda>(_, d). - int (de_total d)" "map ?e ?g", unfolded sorted_map]
    by (rule sorted_wrt_mono_rel[rotated]) (simp add: case_prod_beta')
  then have "sorted_wrt (\<ge>) (map (de_total \<circ> snd) (asn_list w))" by (simp add: a sorted_wrt_map)
  then show ?thesis using d s t e unfolding map_filter_set by (intro conjI)
qed

section \<open>Search finds what is known\<close>

definition plain_address :: "ip_row \<Rightarrow> bool" where
  "plain_address r \<longleftrightarrow>
     (case ip_address (ia_address r) of
        None \<Rightarrow> False
      | Some a \<Rightarrow> ip_str a = ia_address r \<and> (case a of V4 _ \<Rightarrow> True | V6 _ scope \<Rightarrow> scope = None))"

lemma plain_same:
  assumes "plain_address r" "plain_address s" "same_inet (ia_address r) a" "same_inet (ia_address s) a"
  shows "ia_address r = ia_address s"
proof -
  obtain x y where x: "ip_address (ia_address r) = Some x" "ip_str x = ia_address r" "ip_version x = ip_version a" "ip_int x = ip_int a"
    and y: "ip_address (ia_address s) = Some y" "ip_str y = ia_address s" "ip_version y = ip_version a" "ip_int y = ip_int a"
    using assms by (auto simp: plain_address_def same_inet_def split: option.splits)
  have "x = y" using assms(1,2) x y unfolding plain_address_def by (cases x; cases y) auto
  then show ?thesis using x(2) y(2) by simp
qed

text \<open>A search for any spelling of a known address goes to the page of exactly that address.\<close>

lemma search_leads_to_address:
  assumes "table_ok (w_ips w)" "addresses_unique w" "all_rows (\<lambda>_. plain_address) (w_ips w)"
    and "get_row k (w_ips w) = Some r" "ip_address (py_strip q) = Some a" "same_inet (ia_address r) a"
  shows "resolve_target q w = Ip_page k \<and> resolve_search q w = ''/ips/'' @ nat_str k @ ''/''"
proof -
  let ?sel = "order_desc ia_last_seen_at (select_rows (\<lambda>_ r. same_inet (ia_address r) a) (w_ips w))"
  have mem: "(j, s) \<in> set ?sel \<longleftrightarrow> get_row j (w_ips w) = Some s \<and> same_inet (ia_address s) a" for j s
    unfolding order_desc_set select_rows_set[OF assms(1)] ..
  have "(k, r) \<in> set ?sel" unfolding mem using assms(4,6) by blast
  then have "?sel \<noteq> []" by (metis empty_iff list.set(1))
  then obtain j s rest where s: "?sel = (j, s) # rest" by (cases ?sel) auto
  then have "(j, s) \<in> set ?sel" by (simp only: list.set_intros)
  then have js: "get_row j (w_ips w) = Some s" "same_inet (ia_address s) a" unfolding mem by blast+
  have "ia_address s = ia_address r"
    by (rule plain_same[OF all_rowsD[OF assms(3) js(1)] all_rowsD[OF assms(3,4)] js(2) assms(6)])
  then have "j = k" using unique_onD[OF assms(2)[unfolded addresses_unique_def] js(1) assms(4)] by simp
  moreover have "ip_address [] = None" by code_simp
  then have "py_strip q \<noteq> []" using assms(5) by (metis option.distinct(1))
  ultimately have "resolve_target q w = Ip_page k" using s assms(5) by (simp add: resolve_target_def Let_def)
  then show ?thesis by (simp add: resolve_search_def search_url_def)
qed

lemma search_leads_to_address_example:
  "resolve_target ''  5.1.2.3 '' site_world = Ip_page 1"
proof -
  have t: "table_ok (w_ips site_world)" "addresses_unique site_world"
    using site_world_ok by (simp_all add: db_ok_def tables_ok_def)
  have p: "all_rows (\<lambda>_. plain_address) (w_ips site_world)" unfolding all_rows_list[OF t(1)] by code_simp
  have r: "get_row 1 (w_ips site_world) = Some (site_ip ''5.1.2.3'' True 35)" by code_simp
  have a: "ip_address (py_strip ''  5.1.2.3 '') = Some (V4 83952131)" "same_inet (ia_address (site_ip ''5.1.2.3'' True 35)) (V4 83952131)"
    by code_simp+
  show ?thesis using search_leads_to_address[OF t p r a] by simp
qed

end
