(* ===== verification/Dashboard.thy ===== *)
theory Dashboard
  imports Pages Whois_Tasks Geo
begin

text \<open>
  \<open>apps/dashboard\<close>: worker monitoring, the stat cards, the navigation tree against the URL tables of all
  applications, and the settings pages. The task results of \<open>django-celery-results\<close> and the lengths of the Redis
  lists are parameters.
\<close>

section \<open>Worker monitoring\<close>

fun task_name :: "job \<Rightarrow> string" where
  "task_name (Poll_log_source _) = ''apps.logs.tasks.poll_log_source''"
| "task_name Poll_all_log_sources = ''apps.logs.tasks.poll_all_log_sources''"
| "task_name (Process_new_ip _) = ''apps.ips.tasks.process_new_ip''"
| "task_name (Enrich_ip _) = ''apps.geo.tasks.enrich_ip''"
| "task_name (Perform_whois_lookup _ _) = ''apps.whois.tasks.perform_whois_lookup''"
| "task_name (Classify_ip _) = ''apps.iran.tasks.classify_ip''"
| "task_name Run_monthly_iran_validation = ''apps.iran.tasks.run_monthly_iran_validation''"
| "task_name Purge_old_data = ''apps.ips.tasks.purge_old_data''"
| "task_name Purge_stale_ips = ''apps.ips.tasks.purge_stale_ips''"
| "task_name Purge_old_request_events = ''apps.incidents.tasks.purge_old_request_events''"
| "task_name Purge_old_whois_records = ''apps.whois.tasks.purge_old_whois_records''"
| "task_name (Test_server_connection _ _) = ''apps.servers.tasks.test_server_connection''"
| "task_name (Discover_server_logs _ _) = ''apps.servers.tasks.discover_server_logs''"

definition queue_task_groups :: "(string \<times> string list) list" where
  "queue_task_groups =
    [(''Log Readers'', [''apps.logs.tasks.poll_log_source'', ''apps.logs.tasks.poll_all_log_sources'']),
     (''IP Processing'', [''apps.ips.tasks.process_new_ip'', ''apps.geo.tasks.enrich_ip'']),
     (''WHOIS Queue'', [''apps.whois.tasks.perform_whois_lookup'']),
     (''Iran Validation'', [''apps.iran.tasks.classify_ip'', ''apps.iran.tasks.run_monthly_iran_validation'']),
     (''Maintenance'', [''apps.ips.tasks.purge_old_data'', ''apps.ips.tasks.purge_stale_ips'',
        ''apps.incidents.tasks.purge_old_request_events'', ''apps.whois.tasks.purge_old_whois_records'',
        ''apps.servers.tasks.test_server_connection'', ''apps.servers.tasks.discover_server_logs''])]"

definition queue_name_for_group :: "(string \<times> string) list" where
  "queue_name_for_group =
    [(''Log Readers'', ''logs''), (''IP Processing'', ''ips''), (''WHOIS Queue'', ''whois''),
     (''Iran Validation'', ''iran''), (''Maintenance'', ''maintenance'')]"

record task_result =
  tr_task_name :: string
  tr_status :: string
  tr_date_done :: time

record queue_status =
  qs_label :: string
  qs_queue_name :: string
  qs_queued :: "nat option"
  qs_running :: nat
  qs_failed_recent :: nat
  qs_completed_recent :: nat
  qs_last_execution :: "time option"
  qs_redis_error :: string

text \<open>\<open>LLEN\<close>, or the text of a \<open>RedisError\<close>.\<close>

type_synonym redis_lengths = "string \<Rightarrow> string + nat"

definition redis_queue_length :: "redis_lengths \<Rightarrow> string \<Rightarrow> nat option \<times> string" where
  "redis_queue_length llen queue = (case llen queue of Inr n \<Rightarrow> (Some n, []) | Inl e \<Rightarrow> (None, e))"

definition count_status :: "string \<Rightarrow> task_result list \<Rightarrow> nat" where
  "count_status status rs = length (filter (\<lambda>r. tr_status r = status) rs)"

definition queue_status_of :: "redis_lengths \<Rightarrow> task_result list \<Rightarrow> time \<Rightarrow> string \<times> string list \<Rightarrow> queue_status res" where
  "queue_status_of llen results since = (\<lambda>(label, names).
     (case map_of queue_name_for_group label of
        None \<Rightarrow> Inl KeyError
      | Some queue \<Rightarrow>
          (let (queued, redis_error) = redis_queue_length llen queue;
               base = filter (\<lambda>r. tr_task_name r \<in> set names) results;
               recent = filter (\<lambda>r. since \<le> tr_date_done r) base
           in Inr \<lparr>qs_label = label, qs_queue_name = queue, qs_queued = queued,
                   qs_running = count_status ''STARTED'' base, qs_failed_recent = count_status ''FAILURE'' recent,
                   qs_completed_recent = count_status ''SUCCESS'' recent,
                   qs_last_execution = max_of (map tr_date_done base), qs_redis_error = redis_error\<rparr>)))"

fun all_statuses :: "('a \<Rightarrow> 'b res) \<Rightarrow> 'a list \<Rightarrow> ('b list) res" where
  "all_statuses f [] = Inr []"
| "all_statuses f (x # xs) = res_bind (f x) (\<lambda>y. res_bind (all_statuses f xs) (\<lambda>ys. Inr (y # ys)))"

definition build_statuses :: "redis_lengths \<Rightarrow> task_result list \<Rightarrow> int \<Rightarrow> world \<Rightarrow> (queue_status list) res" where
  "build_statuses llen results recent_window_hours w =
     all_statuses (queue_status_of llen results (w_now w - hours recent_window_hours)) queue_task_groups"

section \<open>Stat cards\<close>

definition stat_cards :: "world \<Rightarrow> (string \<times> nat) list" where
  "stat_cards w =
     [(''503 Requests'', length (tb_rows (w_events w))),
      (''Unique IPs'', length (tb_rows (w_ips w))),
      (''Iranian IPs'', count_rows (\<lambda>_. ia_is_iran) (w_ips w)),
      (''Active Servers'', count_rows (\<lambda>_. sv_enabled) (w_servers w)),
      (''Monitored Logs'', count_rows (\<lambda>_. ls_enabled) (w_sources w)),
      (''WHOIS Queue'', length (whois_pending w))]"

section \<open>Settings pages\<close>

record whois_settings_page =
  wp_whois_binary :: string
  wp_resolved_binary :: string
  wp_binary_found :: bool
  wp_timeout :: int
  wp_cache_days :: int
  wp_pending_count :: nat

definition settings_whois :: "whois_host \<Rightarrow> world \<Rightarrow> whois_settings_page" where
  "settings_whois h w =
     (let cfg = w_settings w; resolved = resolve_binary h (st_whois_binary cfg)
      in \<lparr>wp_whois_binary = st_whois_binary cfg, wp_resolved_binary = resolved,
          wp_binary_found = wh_exists h resolved, wp_timeout = st_whois_timeout cfg,
          wp_cache_days = st_whois_cache_days cfg, wp_pending_count = length (whois_pending w)\<rparr>)"

record geoip_settings_page =
  gp_provider :: string
  gp_database_path :: string
  gp_error :: string
  gp_ips_with_coordinates :: nat

definition settings_geoip :: "world \<Rightarrow> geoip_settings_page res" where
  "settings_geoip w =
     (let cfg = w_settings w;
          page = (\<lambda>err. \<lparr>gp_provider = st_geoip_provider cfg, gp_database_path = st_geoip_database_path cfg,
                         gp_error = err, gp_ips_with_coordinates = count_rows (\<lambda>_ r. ia_latitude r \<noteq> None) (w_ips w)\<rparr>)
      in case get_geo_provider [] cfg of
           Inr _ \<Rightarrow> Inr (page [])
         | Inl (ImproperlyConfigured m) \<Rightarrow> Inr (page m)
         | Inl e \<Rightarrow> Inl e)"

definition settings_retention :: "world \<Rightarrow> (string \<times> int) list" where
  "settings_retention w =
     (let cfg = w_settings w in
      [(''request_retention_days'', st_request_retention_days cfg),
       (''whois_retention_days'', st_whois_retention_days cfg),
       (''ip_retention_days'', st_ip_retention_days cfg),
       (''incident_retention_days'', st_incident_retention_days cfg)])"

record iran_sources_page =
  ip_iran_cidr_source :: string
  ip_total_cidrs :: nat
  ip_enabled_cidrs :: nat

definition settings_iran_sources :: "world \<Rightarrow> iran_sources_page" where
  "settings_iran_sources w =
     \<lparr>ip_iran_cidr_source = st_iran_cidr_source (w_settings w),
      ip_total_cidrs = count_rows (\<lambda>_ r. cn_country_code r = ''IR'') (w_cidrs w),
      ip_enabled_cidrs = count_rows (\<lambda>_ r. cn_country_code r = ''IR'' \<and> cn_enabled r) (w_cidrs w)\<rparr>"

section \<open>Navigation\<close>

datatype nav_item = Nav_item string "string option"
datatype nav_node = Nav_leaf nav_item | Nav_section string "nav_item list"

definition nav :: "string \<Rightarrow> string \<Rightarrow> nav_item" where "nav label url = Nav_item label (Some url)"

definition nav_tree :: "nav_node list" where
  "nav_tree =
    [Nav_leaf (nav ''Dashboard'' ''dashboard:index''),
     Nav_section ''Servers'' [nav ''All Servers'' ''servers:list'', nav ''Add Server'' ''servers:create''],
     Nav_section ''Logs'' [nav ''Log Sources'' ''logs:list'', nav ''Readers'' ''logs:readers''],
     Nav_section ''IP Intelligence''
       [nav ''IP Addresses'' ''ips:list'', nav ''Countries'' ''ips:countries'', nav ''ASNs'' ''ips:asns'', nav ''WHOIS'' ''whois:list''],
     Nav_section ''503 Intelligence''
       [nav ''Overview'' ''incidents:overview'', nav ''IPs'' ''incidents:ip-table'', nav ''Timeline'' ''incidents:timeline''],
     Nav_section ''Iran''
       [nav ''Iranian IPs'' ''iran:iranian-ips'', nav ''CIDRs'' ''iran:cidrs'', nav ''Changes'' ''iran:changes'', nav ''Exports'' ''iran:export''],
     Nav_leaf (nav ''World Map'' ''dashboard:map''),
     Nav_leaf (nav ''Workers'' ''dashboard:workers''),
     Nav_section ''Settings''
       [nav ''WHOIS'' ''dashboard:settings-whois'', nav ''Retention'' ''dashboard:settings-retention'',
        nav ''GeoIP'' ''dashboard:settings-geoip'', nav ''Iran CIDR Sources'' ''dashboard:settings-iran-sources'',
        nav ''Users'' ''dashboard:settings-users'', nav ''Audit Log'' ''users:audit-log'']]"

fun node_items :: "nav_node \<Rightarrow> nav_item list" where
  "node_items (Nav_leaf i) = [i]"
| "node_items (Nav_section _ items) = items"

section \<open>Properties\<close>

text \<open>Every task the application can queue is shown in exactly one group of the worker page, and that group
  measures the queue the task is sent to.\<close>

lemma tasks_monitored_on_their_queue:
  "\<exists>label names. filter (\<lambda>(_, names). task_name j \<in> set names) queue_task_groups = [(label, names)]
     \<and> map_of queue_name_for_group label = Some (queue_of j)"
  by (cases j) (simp_all add: queue_task_groups_def queue_name_for_group_def)

lemma build_statuses_total:
  "\<exists>ss. build_statuses llen results n w = Inr ss \<and> map qs_label ss = map fst queue_task_groups"
  by (simp add: build_statuses_def queue_task_groups_def queue_status_of_def queue_name_for_group_def
      redis_queue_length_def Let_def case_prod_beta')

end
