(* ===== verification/Web.thy ===== *)
theory Web
  imports Dashboard Iran_Validation
begin

text \<open>
  Requests, responses and the views that change something: \<open>apps/servers\<close> (views, form), \<open>apps/logs/views.py\<close>,
  and the actions of \<open>apps/ips/views.py\<close>, \<open>apps/iran/views.py\<close> and \<open>apps/dashboard/settings_views.py\<close>.

  Django's own validation of a form's model fields is a parameter (\<open>form_lib\<close>); what the application adds to
  it (the form's own fields, the required credential, blank keeping the stored one, the upper-cased country code,
  uniqueness as the model declares it) is written out. The messages of a view travel with its response.
\<close>

section \<open>Responses\<close>

datatype message =
    Server_added string
  | Server_updated string
  | Server_deleted string
  | Connection_test_queued
  | Log_discovery_queued
  | Poll_queued string
  | Network_added string string
  | Purge_queued

datatype 'c content =
    Page string 'c
  | Redirect string "pk option"
  | Redirect_url string
  | Login_redirect
  | Not_allowed
  | Text_file string string string
  | Json_file string json

type_synonym 'c reply = "'c content \<times> message list"
type_synonym 'c view = "http_request \<Rightarrow> 'c reply eff"

definition login_required :: "'c view \<Rightarrow> 'c view" where
  "login_required view rq = (if rq_user rq = None then ret (Login_redirect, []) else view rq)"

definition require_POST :: "'c view \<Rightarrow> 'c view" where
  "require_POST view rq = (if rq_method rq \<noteq> ''POST'' then ret (Not_allowed, []) else view rq)"

definition get_object_or_404 :: "(world \<Rightarrow> 'r table) \<Rightarrow> pk \<Rightarrow> ('r \<Rightarrow> 'a eff) \<Rightarrow> 'a eff" where
  "get_object_or_404 tab k body w = (case get_row k (tab w) of None \<Rightarrow> (Inl Http404, w) | Some r \<Rightarrow> body r w)"

text \<open>An htmx request gets a fragment of the page, any other one a redirect.\<close>

definition fragment_or :: "http_request \<Rightarrow> 'c content \<Rightarrow> 'c content \<Rightarrow> 'c content" where
  "fragment_or rq fragment redirect = (if rq_hx rq then fragment else redirect)"

section \<open>Servers: the form\<close>

record server_fields =
  sf_name :: string
  sf_hostname :: string
  sf_ip_address :: "string option"
  sf_ssh_port :: nat
  sf_ssh_username :: string
  sf_ssh_auth_type :: auth_type
  sf_enabled :: bool

record network_fields =
  nf_country_code :: string
  nf_cidr :: string
  nf_network :: string
  nf_enabled :: bool

text \<open>The cleaned model fields of a submission, None when one is refused.\<close>

record form_lib =
  fl_server :: "(string \<times> string) list \<Rightarrow> server_fields option"
  fl_network :: "(string \<times> string) list \<Rightarrow> network_fields option"

text \<open>\<open>forms.CharField(required=False)\<close>: stripped; a NUL character is refused.\<close>

definition char_field :: "(string \<times> string) list \<Rightarrow> string \<Rightarrow> string option" where
  "char_field ps name =
     (let v = py_strip (param ps name []) in if CHR 0x00 \<in> set v then None else Some v)"

definition clean_log_search_paths :: "string \<Rightarrow> string list" where
  "clean_log_search_paths raw = filter (\<lambda>l. l \<noteq> []) (map py_strip (splitlines raw))"

definition name_free :: "string \<Rightarrow> pk option \<Rightarrow> world \<Rightarrow> bool" where
  "name_free name instance w \<longleftrightarrow>
     list_all (\<lambda>(k, s). sv_name s = name \<longrightarrow> instance = Some k) (tb_rows (w_servers w))"

record server_form =
  fm_fields :: server_fields
  fm_key :: string
  fm_paths :: "string list"

definition server_form_clean :: "form_lib \<Rightarrow> (string \<times> string) list \<Rightarrow> pk option \<Rightarrow> world \<Rightarrow> server_form option" where
  "server_form_clean lib ps instance w =
     (case (fl_server lib ps, char_field ps ''ssh_private_key'', char_field ps ''log_search_paths_text'') of
        (Some f, Some key, Some text) \<Rightarrow>
          if instance = None \<and> key = [] then None
          else if \<not> name_free (sf_name f) instance w then None
          else Some \<lparr>fm_fields = f, fm_key = key, fm_paths = clean_log_search_paths text\<rparr>
      | _ \<Rightarrow> None)"

definition server_form_apply :: "server_form \<Rightarrow> server \<Rightarrow> server" where
  "server_form_apply form s =
     (let f = fm_fields form in
      s\<lparr>sv_name := sf_name f, sv_hostname := sf_hostname f, sv_ip_address := sf_ip_address f, sv_ssh_port := sf_ssh_port f,
        sv_ssh_username := sf_ssh_username f, sv_ssh_auth_type := sf_ssh_auth_type f, sv_enabled := sf_enabled f,
        sv_log_search_paths := fm_paths form,
        sv_ssh_private_key := (if fm_key form \<noteq> [] then fm_key form else sv_ssh_private_key s)\<rparr>)"

definition blank_server :: "time \<Rightarrow> server" where
  "blank_server now =
     \<lparr>sv_name = [], sv_hostname = [], sv_ip_address = None, sv_ssh_port = 22, sv_ssh_username = [],
      sv_ssh_auth_type = SSH_KEY, sv_ssh_private_key = [], sv_log_search_paths = [], sv_enabled = True,
      sv_last_connected_at = None, sv_last_error = [], sv_created_at = now, sv_updated_at = now\<rparr>"

text \<open>Writing the encrypted column needs the key.\<close>

definition encryption_error :: py_exn where
  "encryption_error = ImproperlyConfigured
     ''SSH_CREDENTIAL_ENCRYPTION_KEY must be set to store or read encrypted credentials.''"

definition can_encrypt :: "string \<Rightarrow> world \<Rightarrow> bool" where
  "can_encrypt text w \<longleftrightarrow> text = [] \<or> st_ssh_credential_encryption_key (w_settings w) \<noteq> []"

section \<open>Servers: the views\<close>

datatype page =
    Server_list_page "(pk \<times> server) list"
  | Server_form_page "pk option"
  | Server_detail_page pk server "(pk \<times> log_source \<times> nat) list"
  | Status_badge pk server bool
  | Source_list_page "(pk \<times> log_source \<times> nat) list"
  | Source_row pk log_source
  | Ip_list_page "(pk \<times> ip_row) list"
  | Ip_detail_page ip_detail_page
  | Ip_fragment pk ip_row
  | Country_directory "((string \<times> string) \<times> directory_entry) list"
  | Asn_directory "(int \<times> directory_entry) list"
  | Whois_list_page "(pk \<times> whois_record) list"
  | Whois_detail_page whois_record
  | Cidr_list_page "(pk \<times> country_network) list" string
  | Cidr_form_page
  | Cidr_row pk country_network
  | Changes_page "(pk \<times> country_history) list"
  | Export_page "string list" export_filters "(pk \<times> server) list"
  | Overview overview_page
  | Incident_table "(pk \<times> ip_row) list"
  | Timeline_page "(pk \<times> event) list" "(pk \<times> server) list"
  | Index "(string \<times> nat) list"
  | Map_page
  | Workers_page "queue_status list"
  | Whois_settings whois_settings_page
  | Retention_settings "(string \<times> int) list"
  | Geoip_settings geoip_settings_page
  | Iran_settings iran_sources_page
  | Audit_page "audit_entry list"

definition with_event_count :: "world \<Rightarrow> (pk \<times> log_source) list \<Rightarrow> (pk \<times> log_source \<times> nat) list" where
  "with_event_count w rows =
     map (\<lambda>(k, s). (k, s, length (filter (\<lambda>e. ev_log_source e = k) (row_values (w_events w))))) rows"

text \<open>Sources are ordered by their server's name and their path.\<close>

definition source_order :: "world \<Rightarrow> (pk \<times> log_source) list \<Rightarrow> (pk \<times> log_source) list" where
  "source_order w rows =
     order_by (\<lambda>s. (case get_row (ls_server s) (w_servers w) of Some v \<Rightarrow> sv_name v | None \<Rightarrow> [], ls_path s)) rows"

definition server_list :: "page view" where
  "server_list = login_required (\<lambda>rq w.
     (Inr (Page ''servers/list.html'' (Server_list_page (order_by sv_name (tb_rows (w_servers w)))), []), w))"

definition server_detail :: "pk \<Rightarrow> page view" where
  "server_detail k = login_required (\<lambda>rq. get_object_or_404 w_servers k (\<lambda>s w.
     (Inr (Page ''servers/detail.html'' (Server_detail_page k s
        (with_event_count w (source_order w (select_rows (\<lambda>_ l. ls_server l = k) (w_sources w))))), []), w)))"

definition server_status_badge :: "pk \<Rightarrow> page view" where
  "server_status_badge k = login_required (\<lambda>rq. get_object_or_404 w_servers k (\<lambda>s.
     ret (Page ''servers/partials/status_badge.html'' (Status_badge k s False), [])))"

definition create_server :: "server_form \<Rightarrow> pk eff" where
  "create_server form w =
     (let s = server_form_apply form (blank_server (w_now w)) in
      if \<not> can_encrypt (sv_ssh_private_key s) w then (Inl encryption_error, w)
      else (let (k, t) = insert_row s (w_servers w)
            in (Inr k, audit ''server.added'' (Some (server_object k s)) (w\<lparr>w_servers := t\<rparr>))))"

definition server_create :: "form_lib \<Rightarrow> page view" where
  "server_create lib = login_required (\<lambda>rq w.
     if rq_method rq = ''POST'' then
       (case server_form_clean lib (rq_post rq) None w of
          None \<Rightarrow> (Inr (Page ''servers/form.html'' (Server_form_page None), []), w)
        | Some form \<Rightarrow>
            (case create_server form w of
               (Inl e, w') \<Rightarrow> (Inl e, w')
             | (Inr k, w') \<Rightarrow> (Inr (Redirect ''servers:detail'' (Some k), [Server_added (sf_name (fm_fields form))]), w')))
     else (Inr (Page ''servers/form.html'' (Server_form_page None), []), w))"

definition store_server :: "pk \<Rightarrow> server_form \<Rightarrow> server \<Rightarrow> unit eff" where
  "store_server k form s w =
     (let s' = (server_form_apply form s)\<lparr>sv_updated_at := w_now w\<rparr> in
      if \<not> can_encrypt (sv_ssh_private_key s') w then (Inl encryption_error, w)
      else (Inr (), audit ''server.updated'' (Some (server_object k s'))
                      (w\<lparr>w_servers := update_row k (\<lambda>_. s') (w_servers w)\<rparr>)))"

definition server_update :: "form_lib \<Rightarrow> pk \<Rightarrow> page view" where
  "server_update lib k = login_required (\<lambda>rq. get_object_or_404 w_servers k (\<lambda>s w.
     if rq_method rq = ''POST'' then
       (case server_form_clean lib (rq_post rq) (Some k) w of
          None \<Rightarrow> (Inr (Page ''servers/form.html'' (Server_form_page (Some k)), []), w)
        | Some form \<Rightarrow>
            (case store_server k form s w of
               (Inl e, w') \<Rightarrow> (Inl e, w')
             | (Inr _, w') \<Rightarrow> (Inr (Redirect ''servers:detail'' (Some k), [Server_updated (sf_name (fm_fields form))]), w')))
     else (Inr (Page ''servers/form.html'' (Server_form_page (Some k)), []), w)))"

text \<open>\<open>server.delete()\<close> with its cascades: the sources of the server, and the requests of either.\<close>

definition delete_server :: "pk \<Rightarrow> world \<Rightarrow> world" where
  "delete_server k w =
     (let mine = (\<lambda>j. case get_row j (w_sources w) of None \<Rightarrow> False | Some l \<Rightarrow> ls_server l = k)
      in w\<lparr>w_servers := delete_rows (\<lambda>j _. j = k) (w_servers w),
           w_sources := delete_rows (\<lambda>_ l. ls_server l = k) (w_sources w),
           w_events := delete_rows (\<lambda>_ e. ev_server e = k \<or> mine (ev_log_source e)) (w_events w)\<rparr>)"

definition server_delete :: "pk \<Rightarrow> page view" where
  "server_delete k = login_required (require_POST (\<lambda>rq. get_object_or_404 w_servers k (\<lambda>s w.
     (Inr (Redirect ''servers:list'' None, [Server_deleted (sv_name s)]),
      delete_server k (audit ''server.deleted'' (Some (server_object k s)) w)))))"

definition server_toggle_enabled :: "pk \<Rightarrow> page view" where
  "server_toggle_enabled k = login_required (require_POST (\<lambda>rq. get_object_or_404 w_servers k (\<lambda>s w.
     (let s' = s\<lparr>sv_enabled := \<not> sv_enabled s\<rparr>;
          w1 = w\<lparr>w_servers := update_row k (\<lambda>r. r\<lparr>sv_enabled := \<not> sv_enabled s, sv_updated_at := w_now w\<rparr>) (w_servers w)\<rparr>
      in (Inr (fragment_or rq (Page ''servers/partials/status_badge.html'' (Status_badge k s' False))
                 (Redirect ''servers:detail'' (Some k)), []),
          audit (if sv_enabled s' then ''server.enabled'' else ''server.disabled'') (Some (server_object k s')) w1)))))"

definition server_test_connection :: "pk \<Rightarrow> page view" where
  "server_test_connection k = login_required (require_POST (\<lambda>rq. get_object_or_404 w_servers k (\<lambda>s w.
     (Inr (fragment_or rq (Page ''servers/partials/status_badge.html'' (Status_badge k s True))
             (Redirect ''servers:detail'' (Some k)), [Connection_test_queued]),
      delay (Test_server_connection k (rq_user rq)) w))))"

definition server_discover_logs :: "pk \<Rightarrow> page view" where
  "server_discover_logs k = login_required (require_POST (\<lambda>rq. get_object_or_404 w_servers k (\<lambda>s w.
     (Inr (Redirect ''servers:detail'' (Some k), [Log_discovery_queued]),
      delay (Discover_server_logs k (rq_user rq)) w))))"

section \<open>Log sources\<close>

definition log_source_list :: "page view" where
  "log_source_list = login_required (\<lambda>rq w.
     (Inr (Page ''logs/list.html'' (Source_list_page (with_event_count w (source_order w (tb_rows (w_sources w))))), []), w))"

definition reader_list :: "page view" where
  "reader_list = login_required (\<lambda>rq w.
     (Inr (Page ''logs/readers.html'' (Source_list_page (map (\<lambda>(k, s). (k, s, 0)) (source_order w (tb_rows (w_sources w))))), []), w))"

definition log_source_poll_now :: "pk \<Rightarrow> page view" where
  "log_source_poll_now k = login_required (require_POST (\<lambda>rq. get_object_or_404 w_sources k (\<lambda>s w.
     (Inr (Redirect ''logs:readers'' None, [Poll_queued (ls_path s)]),
      audit ''logsource.poll_forced'' (Some (log_source_object w k s)) (delay (Poll_log_source k) w)))))"

definition log_source_toggle_enabled :: "pk \<Rightarrow> page view" where
  "log_source_toggle_enabled k = login_required (require_POST (\<lambda>rq. get_object_or_404 w_sources k (\<lambda>s w.
     (let s' = s\<lparr>ls_enabled := \<not> ls_enabled s\<rparr>;
          w1 = w\<lparr>w_sources := update_row k (\<lambda>r. r\<lparr>ls_enabled := \<not> ls_enabled s, ls_updated_at := w_now w\<rparr>) (w_sources w)\<rparr>
      in (Inr (fragment_or rq (Page ''logs/partials/log_source_row.html'' (Source_row k s')) (Redirect ''logs:list'' None), []),
          audit (if ls_enabled s' then ''logsource.enabled'' else ''logsource.disabled'') (Some (log_source_object w k s')) w1)))))"

section \<open>Actions on addresses, networks and retention\<close>

definition force_whois :: "pk \<Rightarrow> page view" where
  "force_whois k = login_required (require_POST (\<lambda>rq. get_object_or_404 w_ips k (\<lambda>r w.
     (Inr (fragment_or rq (Page ''ips/partials/whois_status.html'' (Ip_fragment k r)) (Redirect ''ips:detail'' (Some k)), []),
      audit ''ip.whois_forced'' (Some (ip_object k r)) (delay (Perform_whois_lookup k True) w)))))"

definition recalculate_iran :: "pk \<Rightarrow> page view" where
  "recalculate_iran k = login_required (require_POST (\<lambda>rq. get_object_or_404 w_ips k (\<lambda>r w.
     (Inr (fragment_or rq (Page ''ips/partials/iran_status.html'' (Ip_fragment k r)) (Redirect ''ips:detail'' (Some k)), []),
      audit ''ip.iran_recalculated'' (Some (ip_object k r)) (delay (Classify_ip k) w)))))"

definition run_purge_now :: "page view" where
  "run_purge_now = login_required (require_POST (\<lambda>rq w.
     (Inr (Redirect ''dashboard:settings-retention'' None, [Purge_queued]),
      audit ''retention.purge_forced'' None (delay Purge_old_data w))))"

text \<open>\<open>CountryNetworkForm\<close>: the constraint check prepares the network, so text that is none is a form error.\<close>

definition clean_country_code :: "string \<Rightarrow> string" where
  "clean_country_code code = py_upper (py_strip code)"

definition network_form_clean :: "form_lib \<Rightarrow> (string \<times> string) list \<Rightarrow> world \<Rightarrow> network_fields option" where
  "network_form_clean lib ps w =
     (case fl_network lib ps of
        None \<Rightarrow> None
      | Some f \<Rightarrow>
          (let code = clean_country_code (nf_country_code f) in
           case cidr_prep (nf_cidr f) of
             Inr (Some c) \<Rightarrow>
               if list_ex (\<lambda>r. cn_country_code r = code \<and> cn_cidr r = c) (row_values (w_cidrs w)) then None
               else Some (f\<lparr>nf_country_code := code\<rparr>)
           | _ \<Rightarrow> None))"

definition network_of_form :: "network_fields \<Rightarrow> time \<Rightarrow> country_network" where
  "network_of_form f now =
     \<lparr>cn_country_code = nf_country_code f, cn_cidr = nf_cidr f, cn_network = nf_network f, cn_prefix_length = 0,
      cn_source = ''manual'', cn_valid_from = None, cn_valid_until = None, cn_last_verified_at = None,
      cn_enabled = nf_enabled f, cn_created_at = now, cn_updated_at = now\<rparr>"

definition cidr_create :: "form_lib \<Rightarrow> page view" where
  "cidr_create lib = login_required (\<lambda>rq w.
     if rq_method rq = ''POST'' then
       (case network_form_clean lib (rq_post rq) w of
          None \<Rightarrow> (Inr (Page ''iran/cidr_form.html'' Cidr_form_page, []), w)
        | Some f \<Rightarrow>
            (let r = network_of_form f (w_now w) in
             case save_new_network r w of
               (Inl e, w') \<Rightarrow> (Inl e, w')
             | (Inr k, w') \<Rightarrow> (Inr (Redirect ''iran:cidrs'' None, [Network_added (nf_country_code f) (nf_cidr f)]),
                               audit ''iran_cidr.added'' (Some (network_object k r)) w')))
     else (Inr (Page ''iran/cidr_form.html'' Cidr_form_page, []), w))"

definition cidr_toggle_enabled :: "pk \<Rightarrow> page view" where
  "cidr_toggle_enabled k = login_required (require_POST (\<lambda>rq. get_object_or_404 w_cidrs k (\<lambda>r w.
     (case (if cn_cidr r = [] then Inr 0 else prefix_length_of (cn_cidr r)) of
        Inl e \<Rightarrow> (Inl e, w)
      | Inr _ \<Rightarrow>
          (let r' = r\<lparr>cn_enabled := \<not> cn_enabled r\<rparr>;
               w1 = w\<lparr>w_cidrs := update_row k (\<lambda>x. x\<lparr>cn_enabled := \<not> cn_enabled r, cn_updated_at := w_now w\<rparr>) (w_cidrs w)\<rparr>
           in (Inr (fragment_or rq (Page ''iran/partials/cidr_row.html'' (Cidr_row k r')) (Redirect ''iran:cidrs'' None), []),
               audit (if cn_enabled r' then ''iran_cidr.enabled'' else ''iran_cidr.disabled'') (Some (network_object k r')) w1))))))"

end
