(* ===== verification/Site.thy ===== *)
theory Site
  imports Web Audit_Log
begin

text \<open>
  The read-only views, the URL table of the web interface (\<open>config/urls.py\<close> and the \<open>urls.py\<close> of every
  application), the whole site under its audit middleware, and what holds of every request.
\<close>

section \<open>Read-only views\<close>

text \<open>What the views take from outside the application.\<close>

record site_env =
  se_forms :: form_lib
  se_cidr_in :: "string \<Rightarrow> ipnet option"
  se_llen :: redis_lengths
  se_results :: "task_result list"
  se_whois_host :: whois_host

definition show_page :: "string \<Rightarrow> (world \<Rightarrow> page res) \<Rightarrow> page view" where
  "show_page template f = login_required (\<lambda>rq w. (res_bind (f w) (\<lambda>c. Inr (Page template c, [])), w))"

definition with_get :: "string \<Rightarrow> (querydict \<Rightarrow> world \<Rightarrow> page res) \<Rightarrow> page view" where
  "with_get template f rq = show_page template (f (rq_get rq)) rq"

definition enabled_servers :: "world \<Rightarrow> (pk \<times> server) list" where
  "enabled_servers w = order_by sv_name (select_rows (\<lambda>_. sv_enabled) (w_servers w))"

definition ip_list_view :: "site_env \<Rightarrow> page view" where
  "ip_list_view env = with_get ''ips/list.html'' (\<lambda>ps w. res_bind (ip_list (se_cidr_in env) ps w) (\<lambda>rows. Inr (Ip_list_page rows)))"

definition ip_detail_view :: "pk \<Rightarrow> page view" where
  "ip_detail_view k = with_get ''ips/detail.html'' (\<lambda>ps w. res_bind (ip_detail k ps w) (\<lambda>p. Inr (Ip_detail_page p)))"

definition ip_cell :: "string \<Rightarrow> pk \<Rightarrow> page view" where
  "ip_cell template k = show_page template
     (\<lambda>w. case get_row k (w_ips w) of None \<Rightarrow> Inl Http404 | Some r \<Rightarrow> Inr (Ip_fragment k r))"

definition whois_status_cell :: "pk \<Rightarrow> page view" where
  "whois_status_cell = ip_cell ''ips/partials/whois_status.html''"

definition iran_status_cell :: "pk \<Rightarrow> page view" where
  "iran_status_cell = ip_cell ''ips/partials/iran_status.html''"

definition iranian_ips :: "page view" where
  "iranian_ips = login_required (\<lambda>rq. ret (Redirect_url ''/ips/?is_iran=true'', []))"

text \<open>Networks in the order of their code and \<open>cidr\<close>: family, address, then prefix length.\<close>

definition cidr_key :: "string \<Rightarrow> nat \<times> nat \<times> nat" where
  "cidr_key s = (case ip_network s of None \<Rightarrow> (0, 0, 0) | Some n \<Rightarrow> (ip_version (net_addr n), ip_int (net_addr n), net_len n))"

definition cidr_list :: "page view" where
  "cidr_list = show_page ''iran/cidrs.html'' (\<lambda>w. Inr (Cidr_list_page
     (order_by (\<lambda>r. (cn_country_code r, cidr_key (cn_cidr r))) (tb_rows (w_cidrs w))) (st_iran_cidr_source (w_settings w))))"

definition changes_list :: "page view" where
  "changes_list = show_page ''iran/changes.html'' (\<lambda>w. Inr (Changes_page (order_desc ch_valid_from (tb_rows (w_history w)))))"

definition export_view :: "site_env \<Rightarrow> page view" where
  "export_view env = with_get ''iran/export.html'' (\<lambda>ps w.
     res_bind (from_querydict ps) (\<lambda>f. res_bind (build_queryset (se_cidr_in env) f w) (\<lambda>rows.
       Inr (Export_page (map (ia_address \<circ> snd) rows) f (enabled_servers w)))))"

definition filters_json :: "export_filters \<Rightarrow> json" where
  "filters_json f = JObj
     [(''period'', JStr (ef_period f)), (''server_id'', jopt JInt (ef_server_id f)), (''cidr'', JStr (ef_cidr f)),
      (''status_503_only'', JBool (ef_status_503_only f)), (''iran_status'', JStr (ef_iran_status f))]"

definition export_file :: "string \<Rightarrow> (pk \<times> ip_row) list \<Rightarrow> 'c content" where
  "export_file fmt rows =
     (if fmt = ''csv'' then Text_file ''iran-ips.csv'' ''text/csv'' (export_csv rows)
      else if fmt = ''json'' then Json_file ''iran-ips.json'' (export_json rows)
      else Text_file ''iran-ips.txt'' ''text/plain'' (export_txt rows))"

definition run_export ::
  "(string \<Rightarrow> ipnet option) \<Rightarrow> querydict \<Rightarrow> (string \<times> json) list \<Rightarrow> pk option \<Rightarrow> ('c content) eff" where
  "run_export cidr_in ps extra user w =
     (let fmt = param ps ''format'' ''txt'' in
      case res_bind (from_querydict ps) (\<lambda>f. res_bind (build_queryset cidr_in f w) (\<lambda>rows. Inr (f, rows))) of
        Inl e \<Rightarrow> (Inl e, w)
      | Inr (f, rows) \<Rightarrow>
          (Inr (export_file fmt rows),
           record_audit_log ''iran.export'' None SUCCESS
             ([(''format'', JStr fmt), (''filters'', filters_json f), (''count'', JInt (int (length rows)))] @ extra) user None w))"

definition export_download :: "site_env \<Rightarrow> page view" where
  "export_download env = login_required (\<lambda>rq.
     bnd (run_export (se_cidr_in env) (rq_get rq) [] None) (\<lambda>c. ret (c, [])))"

definition country_list_view :: "page view" where
  "country_list_view = show_page ''ips/countries.html'' (\<lambda>w. Inr (Country_directory (country_list w)))"

definition asn_list_view :: "page view" where
  "asn_list_view = show_page ''ips/asns.html'' (\<lambda>w. Inr (Asn_directory (asn_list w)))"

definition whois_list_view :: "page view" where
  "whois_list_view = with_get ''whois/list.html'' (\<lambda>ps w. Inr (Whois_list_page (whois_list ps w)))"

definition whois_detail_view :: "pk \<Rightarrow> page view" where
  "whois_detail_view k = show_page ''whois/detail.html'' (\<lambda>w. res_bind (whois_detail k w) (\<lambda>r. Inr (Whois_detail_page r)))"

definition overview :: "page view" where
  "overview = show_page ''incidents/overview.html'' (\<lambda>w. Inr (Overview (incidents_overview w)))"

definition ip_table :: "page view" where
  "ip_table = with_get ''incidents/ip_table.html'' (\<lambda>ps w. Inr (Incident_table (ips_with_503 ps w)))"

definition timeline_view :: "page view" where
  "timeline_view = with_get ''incidents/timeline.html'' (\<lambda>ps w.
     res_bind (incidents_timeline ps w) (\<lambda>es. Inr (Timeline_page es (enabled_servers w))))"

definition index :: "page view" where
  "index = show_page ''dashboard/index.html'' (\<lambda>w. Inr (Index (stat_cards w)))"

definition world_map :: "page view" where
  "world_map = show_page ''dashboard/map.html'' (\<lambda>w. Inr Map_page)"

definition workers :: "site_env \<Rightarrow> page view" where
  "workers env = show_page ''dashboard/workers.html'' (\<lambda>w.
     res_bind (build_statuses (se_llen env) (se_results env) 24 w) (\<lambda>ss. Inr (Workers_page ss)))"

definition search :: "page view" where
  "search = login_required (\<lambda>rq w. (Inr (Redirect_url (resolve_search (param (rq_get rq) ''q'' []) w), []), w))"

definition settings_pages :: "site_env \<Rightarrow> string \<Rightarrow> page view" where
  "settings_pages env name =
     (if name = ''whois'' then show_page ''dashboard/settings/whois.html'' (\<lambda>w. Inr (Whois_settings (settings_whois (se_whois_host env) w)))
      else if name = ''retention'' then show_page ''dashboard/settings/retention.html'' (\<lambda>w. Inr (Retention_settings (settings_retention w)))
      else if name = ''geoip'' then show_page ''dashboard/settings/geoip.html'' (\<lambda>w. res_bind (settings_geoip w) (\<lambda>p. Inr (Geoip_settings p)))
      else if name = ''iran-sources'' then show_page ''dashboard/settings/iran_sources.html'' (\<lambda>w. Inr (Iran_settings (settings_iran_sources w)))
      else login_required (\<lambda>rq. ret (Redirect_url ''/admin/users/user/'', [])))"

definition audit_log_view :: "page view" where
  "audit_log_view = with_get ''users/audit_log.html'' (\<lambda>ps w. Inr (Audit_page (audit_log_list (param ps ''action'' []) (param ps ''result'' []) w)))"

section \<open>The URL table\<close>

datatype route =
    Dashboard_index | Dashboard_map | Dashboard_workers | Dashboard_search
  | Settings_whois | Settings_retention | Settings_purge | Settings_geoip | Settings_iran | Settings_users
  | Users_audit_log
  | Servers_list | Servers_create | Servers_detail pk | Servers_update pk | Servers_delete pk | Servers_toggle pk
  | Servers_badge pk | Servers_test pk | Servers_discover pk
  | Logs_list | Logs_readers | Logs_toggle pk | Logs_poll pk
  | Ips_list | Ips_countries | Ips_asns | Ips_detail pk | Ips_whois_cell pk | Ips_force_whois pk | Ips_iran_cell pk
  | Ips_recalculate pk
  | Whois_list | Whois_detail pk
  | Iran_ips | Iran_cidrs | Iran_cidr_add | Iran_cidr_toggle pk | Iran_changes | Iran_export | Iran_download
  | Incidents_overview | Incidents_table | Incidents_timeline

fun url_name :: "route \<Rightarrow> string" where
  "url_name Dashboard_index = ''dashboard:index''"
| "url_name Dashboard_map = ''dashboard:map''"
| "url_name Dashboard_workers = ''dashboard:workers''"
| "url_name Dashboard_search = ''dashboard:search''"
| "url_name Settings_whois = ''dashboard:settings-whois''"
| "url_name Settings_retention = ''dashboard:settings-retention''"
| "url_name Settings_purge = ''dashboard:settings-retention-purge''"
| "url_name Settings_geoip = ''dashboard:settings-geoip''"
| "url_name Settings_iran = ''dashboard:settings-iran-sources''"
| "url_name Settings_users = ''dashboard:settings-users''"
| "url_name Users_audit_log = ''users:audit-log''"
| "url_name Servers_list = ''servers:list''"
| "url_name Servers_create = ''servers:create''"
| "url_name (Servers_detail _) = ''servers:detail''"
| "url_name (Servers_update _) = ''servers:update''"
| "url_name (Servers_delete _) = ''servers:delete''"
| "url_name (Servers_toggle _) = ''servers:toggle-enabled''"
| "url_name (Servers_badge _) = ''servers:status-badge''"
| "url_name (Servers_test _) = ''servers:test-connection''"
| "url_name (Servers_discover _) = ''servers:discover-logs''"
| "url_name Logs_list = ''logs:list''"
| "url_name Logs_readers = ''logs:readers''"
| "url_name (Logs_toggle _) = ''logs:toggle-enabled''"
| "url_name (Logs_poll _) = ''logs:poll-now''"
| "url_name Ips_list = ''ips:list''"
| "url_name Ips_countries = ''ips:countries''"
| "url_name Ips_asns = ''ips:asns''"
| "url_name (Ips_detail _) = ''ips:detail''"
| "url_name (Ips_whois_cell _) = ''ips:whois-status-cell''"
| "url_name (Ips_force_whois _) = ''ips:force-whois''"
| "url_name (Ips_iran_cell _) = ''ips:iran-status-cell''"
| "url_name (Ips_recalculate _) = ''ips:recalculate-iran''"
| "url_name Whois_list = ''whois:list''"
| "url_name (Whois_detail _) = ''whois:detail''"
| "url_name Iran_ips = ''iran:iranian-ips''"
| "url_name Iran_cidrs = ''iran:cidrs''"
| "url_name Iran_cidr_add = ''iran:cidr-add''"
| "url_name (Iran_cidr_toggle _) = ''iran:cidr-toggle-enabled''"
| "url_name Iran_changes = ''iran:changes''"
| "url_name Iran_export = ''iran:export''"
| "url_name Iran_download = ''iran:export-download''"
| "url_name Incidents_overview = ''incidents:overview''"
| "url_name Incidents_table = ''incidents:ip-table''"
| "url_name Incidents_timeline = ''incidents:timeline''"

fun view_of :: "site_env \<Rightarrow> route \<Rightarrow> page view" where
  "view_of env Dashboard_index = index"
| "view_of env Dashboard_map = world_map"
| "view_of env Dashboard_workers = workers env"
| "view_of env Dashboard_search = search"
| "view_of env Settings_whois = settings_pages env ''whois''"
| "view_of env Settings_retention = settings_pages env ''retention''"
| "view_of env Settings_purge = run_purge_now"
| "view_of env Settings_geoip = settings_pages env ''geoip''"
| "view_of env Settings_iran = settings_pages env ''iran-sources''"
| "view_of env Settings_users = settings_pages env ''users''"
| "view_of env Users_audit_log = audit_log_view"
| "view_of env Servers_list = server_list"
| "view_of env Servers_create = server_create (se_forms env)"
| "view_of env (Servers_detail k) = server_detail k"
| "view_of env (Servers_update k) = server_update (se_forms env) k"
| "view_of env (Servers_delete k) = server_delete k"
| "view_of env (Servers_toggle k) = server_toggle_enabled k"
| "view_of env (Servers_badge k) = server_status_badge k"
| "view_of env (Servers_test k) = server_test_connection k"
| "view_of env (Servers_discover k) = server_discover_logs k"
| "view_of env Logs_list = log_source_list"
| "view_of env Logs_readers = reader_list"
| "view_of env (Logs_toggle k) = log_source_toggle_enabled k"
| "view_of env (Logs_poll k) = log_source_poll_now k"
| "view_of env Ips_list = ip_list_view env"
| "view_of env Ips_countries = country_list_view"
| "view_of env Ips_asns = asn_list_view"
| "view_of env (Ips_detail k) = ip_detail_view k"
| "view_of env (Ips_whois_cell k) = whois_status_cell k"
| "view_of env (Ips_force_whois k) = force_whois k"
| "view_of env (Ips_iran_cell k) = iran_status_cell k"
| "view_of env (Ips_recalculate k) = recalculate_iran k"
| "view_of env Whois_list = whois_list_view"
| "view_of env (Whois_detail k) = whois_detail_view k"
| "view_of env Iran_ips = iranian_ips"
| "view_of env Iran_cidrs = cidr_list"
| "view_of env Iran_cidr_add = cidr_create (se_forms env)"
| "view_of env (Iran_cidr_toggle k) = cidr_toggle_enabled k"
| "view_of env Iran_changes = changes_list"
| "view_of env Iran_export = export_view env"
| "view_of env Iran_download = export_download env"
| "view_of env Incidents_overview = overview"
| "view_of env Incidents_table = ip_table"
| "view_of env Incidents_timeline = timeline_view"

definition handle :: "site_env \<Rightarrow> route \<Rightarrow> page view" where
  "handle env r = audit_middleware (view_of env r)"

end
