(* ===== verification/Site_Laws.thy ===== *)
theory Site_Laws
  imports Site
begin

text \<open>
  What holds of every request to the web interface: nobody is served without logging in, only a POST changes
  anything but the audit log, every change is accounted for, and the database stays consistent.
\<close>

section \<open>Views behind the login\<close>

lemma with_get_login:
  "with_get t f = login_required (\<lambda>rq w. (res_bind (f (rq_get rq) w) (\<lambda>c. Inr (Page t c, [])), w))"
  by (rule ext) (simp only: with_get_def show_page_def login_required_def)

lemma settings_pages_login: "\<exists>g. settings_pages env name = login_required g"
  unfolding settings_pages_def show_page_def by (simp only: split: if_split) blast

lemmas reading_views =
  ip_list_view_def ip_detail_view_def ip_cell_def whois_status_cell_def iran_status_cell_def iranian_ips_def cidr_list_def
  changes_list_def export_view_def country_list_view_def asn_list_view_def whois_list_view_def whois_detail_view_def
  overview_def ip_table_def timeline_view_def index_def world_map_def workers_def search_def audit_log_view_def
  server_list_def server_detail_def server_status_badge_def log_source_list_def reader_list_def

lemmas changing_views =
  server_create_def server_update_def server_delete_def server_toggle_enabled_def server_test_connection_def
  server_discover_logs_def log_source_poll_now_def log_source_toggle_enabled_def force_whois_def recalculate_iran_def
  run_purge_now_def cidr_create_def cidr_toggle_enabled_def export_download_def

lemma guarded: "\<exists>g. view_of env r = login_required g"
  by (cases r) (auto simp: reading_views changing_views show_page_def with_get_login settings_pages_login intro: exI)

lemma login_required_simps [simp]:
  "rq_user rq = None \<Longrightarrow> login_required g rq = ret (Login_redirect, [])"
  "rq_user rq = Some u \<Longrightarrow> login_required g rq = g rq"
  by (simp_all add: login_required_def)

lemma middleware_run:
  "audit_middleware view rq w =
     (case view rq (w\<lparr>w_context := Some \<lparr>rc_user_id = rq_user rq, rc_ip_address = get_client_ip rq\<rparr>\<rparr>) of
        (res, w') \<Rightarrow> (res, w'\<lparr>w_context := w_context w\<rparr>))"
  by (simp add: audit_middleware_def set_context_def reset_context_def)

text \<open>C19: Whatever the URL, a request without a user gets nothing but the redirect to the login page, and changes nothing.\<close>

theorem anonymous_sees_nothing:
  assumes "rq_user rq = None"
  shows "handle env r rq w = (Inr (Login_redirect, []), w)"
proof -
  obtain g where "view_of env r = login_required g" using guarded by blast
  then show ?thesis using assms by (simp add: handle_def middleware_run)
qed

section \<open>What a view may change\<close>

text \<open>
  A view is \<open>reading\<close> if it leaves the state alone. It is \<open>accountable\<close> if every run of it leaves the state alone,
  only queues the connection test or discovery of one server for the user of the request, or writes exactly one
  audit entry, attributed to the current context.
\<close>

definition reading :: "page view \<Rightarrow> bool" where
  "reading v \<longleftrightarrow> (\<forall>rq w. snd (v rq w) = w)"

definition one_entry :: "world \<Rightarrow> world \<Rightarrow> bool" where
  "one_entry w w' \<longleftrightarrow> (\<exists>e. w_audit w' = add_row e (w_audit w) \<and> al_user e = rc_user_id (get_context w)
     \<and> al_ip_address e = rc_ip_address (get_context w) \<and> al_created_at e = w_now w \<and> al_result e = SUCCESS)"

definition server_job :: "http_request \<Rightarrow> world \<Rightarrow> world \<Rightarrow> bool" where
  "server_job rq w w' \<longleftrightarrow> (\<exists>k. w' = delay (Test_server_connection k (rq_user rq)) w \<or> w' = delay (Discover_server_logs k (rq_user rq)) w)"

definition accounted :: "http_request \<Rightarrow> world \<Rightarrow> world \<Rightarrow> bool" where
  "accounted rq w w' \<longleftrightarrow> w' = w \<or> server_job rq w w' \<or> one_entry w w'"

text \<open>
  A law of views relates the state before a request to the state after it. Whatever the law, as long as it
  allows nothing to change, it passes through the login, the method guard and the lookup of a row, and every
  reading view obeys it.
\<close>

definition obeys :: "(http_request \<Rightarrow> world \<Rightarrow> world \<Rightarrow> bool) \<Rightarrow> page view \<Rightarrow> bool" where
  "obeys R v \<longleftrightarrow> (\<forall>rq w. R rq w (snd (v rq w)))"

locale view_law =
  fixes R :: "http_request \<Rightarrow> world \<Rightarrow> world \<Rightarrow> bool"
  assumes unchanged: "R rq w w"
begin

lemma reads: "reading v \<Longrightarrow> obeys R v"
  by (simp add: reading_def obeys_def unchanged)

lemma login: "obeys R g \<Longrightarrow> obeys R (login_required g)"
  by (simp add: obeys_def login_required_def unchanged)

lemma post: "obeys R g \<Longrightarrow> obeys R (require_POST g)"
  by (simp add: obeys_def require_POST_def unchanged)

lemma lookup:
  "(\<And>rq s w. get_row k (tab w) = Some s \<Longrightarrow> R rq w (snd (body rq s w))) \<Longrightarrow>
     obeys R (\<lambda>rq. get_object_or_404 tab k (body rq))"
  by (simp add: obeys_def get_object_or_404_def unchanged split: option.split)

end

interpretation accounted: view_law accounted
  by unfold_locales (simp add: accounted_def)

abbreviation accountable :: "page view \<Rightarrow> bool" where
  "accountable \<equiv> obeys accounted"

lemmas accountable_def = obeys_def accounted_def
lemmas reading_accountable = accounted.reads
lemmas accountable_login = accounted.login
lemmas accountable_post = accounted.post
lemmas accountable_404 = accounted.lookup

lemma reading_login [intro]: "reading g \<Longrightarrow> reading (login_required g)"
  by (simp add: reading_def login_required_def)

lemma reading_show [intro]: "reading (show_page t f)"
  unfolding show_page_def by (rule reading_login) (simp add: reading_def)

lemma reading_with_get [intro]: "reading (with_get t f)"
  unfolding with_get_login by (rule reading_login) (simp add: reading_def)

lemma reading_settings: "reading (settings_pages env name)"
proof -
  have "reading (login_required (\<lambda>rq. ret c))" for c by (rule reading_login) (simp add: reading_def)
  then show ?thesis unfolding settings_pages_def by (simp only: reading_show split: if_split) blast
qed

lemma reading_404: "(\<And>s rq w. snd (body rq s w) = w) \<Longrightarrow> reading (\<lambda>rq. get_object_or_404 tab k (body rq))"
  by (simp add: reading_def get_object_or_404_def split: option.split)

lemma one_entry_record:
  assumes "w_audit w1 = w_audit w" "w_context w1 = w_context w" "w_now w1 = w_now w"
  shows "one_entry w (record_audit_log a ob SUCCESS m None None w1)"
  using assms by (auto simp: one_entry_def audit_row_def Let_def get_context_def)

lemma one_entry_audit:
  assumes "w_audit w1 = w_audit w" "w_context w1 = w_context w" "w_now w1 = w_now w"
  shows "one_entry w (audit a ob w1)"
  unfolding audit_def using one_entry_record[OF assms] .

lemma delay_frame [simp]:
  "w_audit (delay j w) = w_audit w" "w_context (delay j w) = w_context w" "w_now (delay j w) = w_now w"
  "w_servers (delay j w) = w_servers w" "w_sources (delay j w) = w_sources w" "w_ips (delay j w) = w_ips w"
  "w_events (delay j w) = w_events w" "w_whois (delay j w) = w_whois w" "w_cidrs (delay j w) = w_cidrs w"
  "w_history (delay j w) = w_history w" "w_users (delay j w) = w_users w" "w_settings (delay j w) = w_settings w"
  by (simp_all add: delay_def)

lemma one_entry_delete: "one_entry w w1 \<Longrightarrow> one_entry w (delete_server k w1)"
  by (simp add: one_entry_def delete_server_def Let_def)

lemma save_new_network_frame:
  "save_new_network r w = (res, w') \<Longrightarrow> w' = w\<lparr>w_cidrs := w_cidrs w'\<rparr>"
  by (auto simp: save_new_network_def Let_def case_prod_beta split: if_split_asm sum.split_asm option.split_asm)

lemma accountable_create: "accountable (server_create lib)"
  unfolding server_create_def
  by (rule accountable_login) (auto simp: accountable_def create_server_def Let_def insert_row_def intro!: one_entry_audit
      split: option.split)

lemma accountable_update: "accountable (server_update lib k)"
  unfolding server_update_def
  by (intro accountable_login accountable_404) (auto simp: accounted_def store_server_def Let_def intro!: one_entry_audit split: option.split)

lemma accountable_cidr_create: "accountable (cidr_create lib)"
proof -
  have "one_entry w (audit a ob w')" if "save_new_network r w = (res, w')" for a ob w w' r res
    by (rule one_entry_audit; subst save_new_network_frame[OF that]; simp)
  moreover have "w' = w" if "save_new_network r w = (Inl e, w')" for r w e w'
    using that by (auto simp: save_new_network_def Let_def case_prod_beta split: if_split_asm sum.split_asm option.split_asm)
  ultimately show ?thesis
    unfolding cidr_create_def
    by (intro accountable_login) (auto simp: accountable_def Let_def split: option.split sum.split prod.split)
qed

lemma run_export_run:
  fixes cidr_in ps extra user w
  defines "run \<equiv> run_export cidr_in ps extra user w :: page content res \<times> world"
  shows "(\<exists>e. run = (Inl e, w)) \<or> (\<exists>c m. run = (Inr c, record_audit_log ''iran.export'' None SUCCESS m user None w))"
  by (auto simp: run_def run_export_def Let_def split: sum.split)

lemma accountable_download: "accountable (export_download env)"
  unfolding export_download_def
proof (rule accountable_login, unfold accountable_def, intro allI)
  fix rq :: http_request and w :: world
  let ?run = "run_export (se_cidr_in env) (rq_get rq) [] None w :: page content res \<times> world"
  let ?v = "bnd (run_export (se_cidr_in env) (rq_get rq) [] None) (\<lambda>c :: page content. ret (c, [] :: message list))"
  have "snd (?v w) = snd ?run" by (simp add: bnd_def case_prod_beta split: sum.split)
  moreover have "snd ?run = w \<or> one_entry w (snd ?run)"
    using run_export_run[of "se_cidr_in env" "rq_get rq" "[]" None w] one_entry_record[of w w] by fastforce
  ultimately show "snd (?v w) = w \<or> server_job rq w (snd (?v w)) \<or> one_entry w (snd (?v w))"
    by metis
qed

lemma accountable_rest:
  "accountable (server_delete k)" "accountable (server_toggle_enabled k)" "accountable (server_test_connection k)"
  "accountable (server_discover_logs k)" "accountable (log_source_poll_now k)" "accountable (log_source_toggle_enabled k)"
  "accountable (force_whois k)" "accountable (recalculate_iran k)" "accountable run_purge_now" "accountable (cidr_toggle_enabled k)"
proof -
  show "accountable (server_delete k)" unfolding server_delete_def
    by (intro accountable_login accountable_post accountable_404) (simp add: accounted_def one_entry_delete one_entry_audit)
  show "accountable (server_toggle_enabled k)" unfolding server_toggle_enabled_def
    by (intro accountable_login accountable_post accountable_404) (simp add: accounted_def Let_def one_entry_audit)
  show "accountable (server_test_connection k)" unfolding server_test_connection_def
    by (intro accountable_login accountable_post accountable_404) (auto simp: accounted_def server_job_def)
  show "accountable (server_discover_logs k)" unfolding server_discover_logs_def
    by (intro accountable_login accountable_post accountable_404) (auto simp: accounted_def server_job_def)
  show "accountable (log_source_poll_now k)" unfolding log_source_poll_now_def
    by (intro accountable_login accountable_post accountable_404) (simp add: accounted_def one_entry_audit)
  show "accountable (log_source_toggle_enabled k)" unfolding log_source_toggle_enabled_def
    by (intro accountable_login accountable_post accountable_404) (simp add: accounted_def Let_def one_entry_audit)
  show "accountable (force_whois k)" unfolding force_whois_def
    by (intro accountable_login accountable_post accountable_404) (simp add: accounted_def one_entry_audit)
  show "accountable (recalculate_iran k)" unfolding recalculate_iran_def
    by (intro accountable_login accountable_post accountable_404) (simp add: accounted_def one_entry_audit)
  show "accountable run_purge_now" unfolding run_purge_now_def
    by (intro accountable_login accountable_post) (simp add: accountable_def one_entry_audit)
  show "accountable (cidr_toggle_enabled k)" unfolding cidr_toggle_enabled_def
    by (intro accountable_login accountable_post accountable_404) (simp add: accounted_def Let_def one_entry_audit split: sum.split)
qed

lemma reading_rest:
  "reading server_list" "reading (server_detail k)" "reading (server_status_badge k)" "reading log_source_list"
  "reading reader_list" "reading search" "reading iranian_ips"
  unfolding server_list_def server_detail_def server_status_badge_def log_source_list_def reader_list_def search_def iranian_ips_def
  by (intro reading_login reading_404; simp add: reading_def)+

lemma accountable_views: "accountable (view_of env r)"
  by (cases r) (simp_all add: accountable_rest accountable_create accountable_update accountable_cidr_create accountable_download
      reading_accountable reading_rest reading_settings, (simp_all add: reading_views reading_accountable reading_show reading_with_get)?)


section \<open>Safe methods\<close>

definition safe :: "page view \<Rightarrow> bool" where
  "safe v \<longleftrightarrow> (\<forall>rq w. rq_method rq \<noteq> ''POST'' \<longrightarrow> snd (v rq w) = w\<lparr>w_audit := w_audit (snd (v rq w))\<rparr>)"

lemma reading_safe: "reading v \<Longrightarrow> safe v"
  by (simp add: reading_def safe_def)

lemma safe_login [intro]: "safe g \<Longrightarrow> safe (login_required g)"
  by (simp add: safe_def login_required_def)

lemma safe_post [intro]: "safe (require_POST g)"
  by (simp add: safe_def require_POST_def)

lemma safe_views: "safe (view_of env r)"
proof -
  have "safe (server_create lib)" for lib unfolding server_create_def by (rule safe_login) (simp add: safe_def)
  moreover have "safe (server_update lib k)" for lib k unfolding server_update_def
    by (rule safe_login) (simp add: safe_def get_object_or_404_def split: option.split)
  moreover have "safe (cidr_create lib)" for lib unfolding cidr_create_def by (rule safe_login) (simp add: safe_def)
  moreover have "safe (export_download env)"
    unfolding export_download_def
  proof (rule safe_login, unfold safe_def, intro allI impI)
    fix rq :: http_request and w :: world
    let ?run = "run_export (se_cidr_in env) (rq_get rq) [] None w :: page content res \<times> world"
    let ?v = "bnd (run_export (se_cidr_in env) (rq_get rq) [] None) (\<lambda>c :: page content. ret (c, [] :: message list))"
    have "snd (?v w) = snd ?run" by (simp add: bnd_def case_prod_beta split: sum.split)
    moreover have "snd ?run = w\<lparr>w_audit := w_audit (snd ?run)\<rparr>"
      using run_export_run[of "se_cidr_in env" "rq_get rq" "[]" None w] by (auto simp: record_audit_log_def)
    ultimately show "snd (?v w) = w\<lparr>w_audit := w_audit (snd (?v w))\<rparr>" by metis
  qed
  moreover have "safe (login_required (require_POST g))" for g by (intro safe_login safe_post)
  ultimately show ?thesis
    by (cases r) (simp_all add: reading_safe reading_rest reading_settings, (simp_all add: reading_views reading_safe reading_show
      reading_with_get server_delete_def server_toggle_enabled_def server_test_connection_def server_discover_logs_def
      log_source_poll_now_def log_source_toggle_enabled_def force_whois_def recalculate_iran_def run_purge_now_def
      cidr_toggle_enabled_def)?)
qed

text \<open>A request that is not a POST changes nothing but, when an export is downloaded, the audit log.\<close>

lemma only_post_changes:
  assumes "rq_method rq \<noteq> ''POST''"
  shows "snd (handle env r rq w) = w\<lparr>w_audit := w_audit (snd (handle env r rq w))\<rparr>"
proof -
  let ?w = "w\<lparr>w_context := Some \<lparr>rc_user_id = rq_user rq, rc_ip_address = get_client_ip rq\<rparr>\<rparr>"
  obtain res w1 where v: "view_of env r rq ?w = (res, w1)" by (cases "view_of env r rq ?w")
  then have "w1 = ?w\<lparr>w_audit := w_audit w1\<rparr>" using safe_views[of env r] assms unfolding safe_def by (metis snd_conv)
  then have "w1\<lparr>w_context := w_context w\<rparr> = (?w\<lparr>w_audit := w_audit w1\<rparr>)\<lparr>w_context := w_context w\<rparr>" by metis
  moreover have "\<dots> = w\<lparr>w_audit := w_audit w1\<rparr>" by simp
  ultimately show ?thesis using v by (simp add: handle_def middleware_run)
qed

end
