(* ===== verification/Site_Data.thy ===== *)
theory Site_Data
  imports Site_Laws
begin

text \<open>
  The database under the web interface: every request keeps it consistent, editing a server keeps the
  credential that was not given, deleting a server takes exactly what belongs to it.
\<close>

section \<open>Changes that keep the database consistent\<close>

lemmas db_parts = db_ok_def tables_ok_def refs_ok_def addresses_unique_def cidrs_unique_def names_unique_def sources_unique_def

lemma db_ok_context [simp]: "db_ok (w\<lparr>w_context := c\<rparr>) = db_ok w"
  by (simp add: db_parts)

lemma db_ok_delay [simp]: "db_ok (delay j w) = db_ok w"
  by (simp add: db_parts delay_def)

lemma db_ok_audited: "db_ok w \<Longrightarrow> db_ok (audit a ob w)"
  using db_ok_audit[of w] by (simp add: audit_def db_ok_def tables_ok_def)

lemma db_ok_recorded: "db_ok w \<Longrightarrow> db_ok (record_audit_log a ob r m u i w)"
  using db_ok_audit[of w] by (simp add: db_ok_def tables_ok_def)

lemma name_freeD: "name_free n inst w \<Longrightarrow> get_row j (w_servers w) = Some s \<Longrightarrow> sv_name s = n \<Longrightarrow> inst = Some j"
  by (auto simp: name_free_def list_all_iff dest: get_row_SomeD)

lemma db_ok_add_server:
  assumes "db_ok w" "name_free (sv_name s) None w" shows "db_ok (w\<lparr>w_servers := add_row s (w_servers w)\<rparr>)"
proof -
  have t: "table_ok (w_servers w)" and u: "unique_on sv_name (w_servers w)" using assms(1) by (simp_all add: db_parts)
  have "insert_row s (w_servers w) = (Suc (tb_seq (w_servers w)), add_row s (w_servers w))"
    by (simp add: add_row_def insert_row_def)
  then have "unique_on sv_name (add_row s (w_servers w))"
    by (rule tbl.unique_add[OF t u]) (use name_freeD[OF assms(2)] in blast)
  then show ?thesis using assms(1) by (simp add: db_parts rows_hold_def has_row_add[OF t])
qed

lemma db_ok_update_server:
  assumes "db_ok w" "\<And>s. sv_name (f s) = sv_name s" shows "db_ok (w\<lparr>w_servers := update_row k f (w_servers w)\<rparr>)"
proof -
  have "unique_on sv_name (update_row k f (w_servers w))"
    unfolding update_row_def by (rule tbl.unique_upd) (use assms in \<open>simp_all add: db_parts\<close>)
  then show ?thesis using assms(1) by (simp add: db_parts)
qed

lemma db_ok_store_server:
  assumes "db_ok w" "name_free (sv_name s) (Some k) w" shows "db_ok (w\<lparr>w_servers := update_row k (\<lambda>_. s) (w_servers w)\<rparr>)"
proof -
  have u: "unique_on sv_name (w_servers w)" using assms(1) by (simp add: db_parts)
  have "unique_on sv_name (update_row k (\<lambda>_. s) (w_servers w))"
    unfolding rows_unique_def get_update_row
    using unique_onD[OF u] name_freeD[OF assms(2)] by (auto split: if_splits)
  then show ?thesis using assms(1) by (simp add: db_parts)
qed

lemma db_ok_update_source:
  assumes "db_ok w" "\<And>s. ls_server (f s) = ls_server s" "\<And>s. ls_path (f s) = ls_path s"
  shows "db_ok (w\<lparr>w_sources := update_row k f (w_sources w)\<rparr>)"
proof -
  have t: "table_ok (w_sources w)" and h: "all_rows (\<lambda>_ s. has_row (w_servers w) (ls_server s)) (w_sources w)"
    using assms(1) by (simp_all add: db_parts)
  have "all_rows (\<lambda>_ s. has_row (w_servers w) (ls_server s)) (update_row k f (w_sources w))"
    unfolding update_row_def by (rule tbl.hold_upd[OF t h]) (simp_all add: assms(2))
  moreover have "unique_on (\<lambda>s. (ls_server s, ls_path s)) (update_row k f (w_sources w))"
    unfolding update_row_def by (rule tbl.unique_upd[OF t]) (use assms in \<open>simp_all add: db_parts\<close>)
  ultimately show ?thesis using assms(1) by (simp add: db_parts)
qed

lemma db_ok_update_network:
  assumes "db_ok w" "\<And>r. cn_country_code (f r) = cn_country_code r" "\<And>r. cn_cidr (f r) = cn_cidr r"
  shows "db_ok (w\<lparr>w_cidrs := update_row k f (w_cidrs w)\<rparr>)"
proof -
  have t: "table_ok (w_cidrs w)" and u: "unique_on (\<lambda>r. (cn_country_code r, cn_cidr r)) (w_cidrs w)"
    using assms(1) by (simp_all add: db_parts)
  have "unique_on (\<lambda>r. (cn_country_code r, cn_cidr r)) (update_row k f (w_cidrs w))"
    unfolding update_row_def by (rule tbl.unique_upd[OF t u]) (simp add: assms(2,3))
  then show ?thesis using assms(1) by (simp add: db_parts)
qed

lemma db_ok_save_network:
  assumes "db_ok w" "save_new_network r w = (res, w')"
  shows "db_ok w'"
proof (cases res)
  case (Inl e)
  then have "w' = w" using assms(2)
    by (auto simp: save_new_network_def Let_def case_prod_beta split: if_split_asm sum.split_asm option.split_asm)
  then show ?thesis using assms(1) by simp
next
  case (Inr k)
  obtain c n where w': "w' = w\<lparr>w_cidrs := add_row (r\<lparr>cn_cidr := c, cn_prefix_length := nat n,
                                     cn_created_at := w_now w, cn_updated_at := w_now w\<rparr>) (w_cidrs w)\<rparr>"
    and new: "\<forall>s\<in>set (row_values (w_cidrs w)). (cn_country_code s, cn_cidr s) \<noteq> (cn_country_code r, c)"
    by (rule save_new_network_ok[OF assms(2)[unfolded Inr]])
  let ?r = "r\<lparr>cn_cidr := c, cn_prefix_length := nat n, cn_created_at := w_now w, cn_updated_at := w_now w\<rparr>"
  have t: "table_ok (w_cidrs w)" and u: "unique_on (\<lambda>r. (cn_country_code r, cn_cidr r)) (w_cidrs w)"
    using assms(1) by (simp_all add: db_parts)
  have "insert_row ?r (w_cidrs w) = (Suc (tb_seq (w_cidrs w)), add_row ?r (w_cidrs w))"
    by (simp add: add_row_def insert_row_def)
  then have "unique_on (\<lambda>r. (cn_country_code r, cn_cidr r)) (add_row ?r (w_cidrs w))"
  proof (rule tbl.unique_add[OF t u])
    fix j s assume "get_row j (w_cidrs w) = Some s"
    then have "(j, s) \<in> set (tb_rows (w_cidrs w))" by (rule get_row_SomeD)
    then have "s \<in> set (row_values (w_cidrs w))" by (force simp: row_values_def)
    then show "(cn_country_code s, cn_cidr s) \<noteq> (cn_country_code ?r, cn_cidr ?r)" using new by simp
  qed
  then show ?thesis using assms(1) unfolding w' by (simp add: db_parts)
qed

text \<open>What is left after a server is deleted.\<close>

lemma delete_server_rows:
  assumes "db_ok w"
  shows "get_row j (w_servers (delete_server k w)) = (if j = k then None else get_row j (w_servers w))"
    and "get_row j (w_sources (delete_server k w)) = Some l \<longleftrightarrow> get_row j (w_sources w) = Some l \<and> ls_server l \<noteq> k"
    and "get_row j (w_events (delete_server k w)) = Some e \<longleftrightarrow> get_row j (w_events w) = Some e \<and> ev_server e \<noteq> k
          \<and> \<not> (\<exists>l. get_row (ev_log_source e) (w_sources w) = Some l \<and> ls_server l = k)"
proof -
  have t: "table_ok (w_servers w)" "table_ok (w_sources w)" "table_ok (w_events w)" using assms by (simp_all add: db_parts)
  show "get_row j (w_servers (delete_server k w)) = (if j = k then None else get_row j (w_servers w))"
    by (simp add: delete_server_def Let_def get_delete_rows[OF t(1)] split: option.split)
  show "get_row j (w_sources (delete_server k w)) = Some l \<longleftrightarrow> get_row j (w_sources w) = Some l \<and> ls_server l \<noteq> k"
    by (simp add: delete_server_def Let_def get_delete_rows[OF t(2)] split: option.split) blast
  have g: "(case get_row (ev_log_source e) (w_sources w) of None \<Rightarrow> False | Some l \<Rightarrow> ls_server l = k) \<longleftrightarrow>
      (\<exists>l. get_row (ev_log_source e) (w_sources w) = Some l \<and> ls_server l = k)" for e
    by (simp split: option.split)
  show "get_row j (w_events (delete_server k w)) = Some e \<longleftrightarrow> get_row j (w_events w) = Some e \<and> ev_server e \<noteq> k
          \<and> \<not> (\<exists>l. get_row (ev_log_source e) (w_sources w) = Some l \<and> ls_server l = k)"
    unfolding delete_server_def Let_def g by (simp add: get_delete_rows[OF t(3)] split: option.split) blast
qed

lemma delete_server_frame [simp]:
  "w_ips (delete_server k w) = w_ips w" "w_whois (delete_server k w) = w_whois w" "w_cidrs (delete_server k w) = w_cidrs w"
  "w_history (delete_server k w) = w_history w" "w_users (delete_server k w) = w_users w" "w_audit (delete_server k w) = w_audit w"
  "w_jobs (delete_server k w) = w_jobs w"
  by (simp_all add: delete_server_def Let_def)

lemma db_ok_delete_server:
  assumes "db_ok w" shows "db_ok (delete_server k w)"
proof -
  note rows = delete_server_rows[OF assms]
  have t: "tables_ok (delete_server k w)" using assms by (simp add: db_parts delete_server_def Let_def)
  have old: "all_rows (\<lambda>_ s. has_row (w_servers w) (ls_server s)) (w_sources w)"
    "all_rows (\<lambda>_ e. has_row (w_servers w) (ev_server e) \<and> has_row (w_sources w) (ev_log_source e) \<and> has_row (w_ips w) (ev_ip e)) (w_events w)"
    using assms by (simp_all add: db_parts)
  have s: "has_row (w_servers (delete_server k w)) j \<longleftrightarrow> j \<noteq> k \<and> has_row (w_servers w) j" for j
    by (simp add: has_row_def rows(1))
  have l: "has_row (w_sources (delete_server k w)) j" if "has_row (w_sources w) j"
    "\<not> (\<exists>l. get_row j (w_sources w) = Some l \<and> ls_server l = k)" for j
    using that rows(2)[of j] by (auto simp: has_row_def)
  have "all_rows (\<lambda>_ x. has_row (w_servers (delete_server k w)) (ls_server x)) (w_sources (delete_server k w))"
    unfolding rows_hold_def rows(2) s using old(1) by (auto dest: all_rowsD)
  moreover have "all_rows (\<lambda>_ e. has_row (w_servers (delete_server k w)) (ev_server e)
      \<and> has_row (w_sources (delete_server k w)) (ev_log_source e) \<and> has_row (w_ips w) (ev_ip e)) (w_events (delete_server k w))"
    unfolding rows_hold_def rows(3) s using l all_rowsD[OF old(2)] by blast
  moreover have "names_unique (delete_server k w)" "sources_unique (delete_server k w)"
    using assms by (auto simp: db_parts rows_unique_def rows split: if_splits)
  ultimately show ?thesis using assms t by (simp add: db_ok_def refs_ok_def addresses_unique_def cidrs_unique_def)
qed

section \<open>Every request keeps the database consistent\<close>

definition sound :: "http_request \<Rightarrow> world \<Rightarrow> world \<Rightarrow> bool" where
  "sound rq w w' \<longleftrightarrow> (db_ok w \<longrightarrow> db_ok w')"

interpretation sound: view_law sound
  by unfold_locales (simp add: sound_def)

abbreviation keeps :: "page view \<Rightarrow> bool" where
  "keeps \<equiv> obeys sound"

lemmas keeps_def = obeys_def sound_def
lemmas keeps_reading = sound.reads
lemmas keeps_login = sound.login
lemmas keeps_post = sound.post

lemma keeps_404:
  assumes "\<And>rq s w. db_ok w \<Longrightarrow> db_ok (snd (body rq s w))"
  shows "keeps (\<lambda>rq. get_object_or_404 tab k (body rq))"
  by (rule sound.lookup) (simp add: sound_def assms)

lemmas keeps_rules = keeps_login keeps_post keeps_404

lemma server_form_clean_key:
  assumes "server_form_clean lib ps instance w = Some form"
  shows "fm_key form = py_strip (param ps ''ssh_private_key'' [])" "instance = None \<longrightarrow> fm_key form \<noteq> []"
    "list_all (\<lambda>p. p \<noteq> [] \<and> py_strip p = p) (fm_paths form)"
    "name_free (sf_name (fm_fields form)) instance w"
proof -
  obtain f key paths where f: "fl_server lib ps = Some f" "char_field ps ''ssh_private_key'' = Some key"
    "char_field ps ''log_search_paths_text'' = Some paths" "\<not> (instance = None \<and> key = [])" "name_free (sf_name f) instance w"
    "form = \<lparr>fm_fields = f, fm_key = key, fm_paths = clean_log_search_paths paths\<rparr>"
    using assms by (auto simp: server_form_clean_def split: option.split_asm if_split_asm)
  have strip2: "py_strip (py_strip x) = py_strip x" for x by (rule py_strip_idem)
  show "fm_key form = py_strip (param ps ''ssh_private_key'' [])" using f(2,6) by (simp add: char_field_def Let_def split: if_split_asm)
  show "instance = None \<longrightarrow> fm_key form \<noteq> []" using f(4,6) by auto
  show "list_all (\<lambda>p. p \<noteq> [] \<and> py_strip p = p) (fm_paths form)"
    using f(6) strip2 by (auto simp: clean_log_search_paths_def list_all_iff)
  show "name_free (sf_name (fm_fields form)) instance w" using f(5,6) by simp
qed

lemma keeps_create: "keeps (server_create lib)"
proof -
  have created: "db_ok w'" if "db_ok w" "server_form_clean lib ps None w = Some form" "create_server form w = (res, w')" for ps form w res w'
  proof -
    let ?s = "server_form_apply form (blank_server (w_now w))"
    have "name_free (sv_name ?s) None w" using server_form_clean_key(4)[OF that(2)] by (simp add: server_form_apply_def Let_def)
    then have "db_ok (w\<lparr>w_servers := snd (insert_row ?s (w_servers w))\<rparr>)"
      using db_ok_add_server[OF that(1), of ?s] by (simp add: add_row_def)
    then show ?thesis using that(1,3) by (auto simp: create_server_def Let_def case_prod_beta db_ok_audited split: if_split_asm)
  qed
  show ?thesis unfolding server_create_def
    by (intro keeps_login) (auto simp: keeps_def dest: created split: option.split sum.split prod.split)
qed

lemma keeps_update: "keeps (server_update lib k)"
proof -
  have stored: "db_ok w'" if "db_ok w" "server_form_clean lib ps (Some k) w = Some form" "store_server k form s w = (res, w')"
    for ps form s w res w'
  proof -
    let ?s = "(server_form_apply form s)\<lparr>sv_updated_at := w_now w\<rparr>"
    have "name_free (sv_name ?s) (Some k) w" using server_form_clean_key(4)[OF that(2)] by (simp add: server_form_apply_def Let_def)
    from db_ok_store_server[OF that(1) this] show ?thesis
      using that(1,3) by (auto simp: store_server_def Let_def db_ok_audited split: if_split_asm)
  qed
  show ?thesis unfolding server_update_def
    by (intro keeps_login keeps_404) (auto dest: stored split: option.split sum.split prod.split)
qed

lemma keeps_cidr_create: "keeps (cidr_create lib)"
  unfolding cidr_create_def
  by (intro keeps_login) (auto simp: keeps_def Let_def db_ok_audited db_ok_save_network split: option.split sum.split prod.split)

lemma keeps_download: "keeps (export_download env)"
proof -
  have "db_ok (snd (bnd (run_export (se_cidr_in env) (rq_get rq) [] None) (\<lambda>c :: page content. ret (c, [] :: message list)) w))"
    if "db_ok w" for rq :: http_request and w
  proof -
    let ?run = "run_export (se_cidr_in env) (rq_get rq) [] None w :: page content res \<times> world"
    have "snd (bnd (run_export (se_cidr_in env) (rq_get rq) [] None) (\<lambda>c :: page content. ret (c, [] :: message list)) w) = snd ?run"
      by (simp add: bnd_def case_prod_beta split: sum.split)
    moreover have "db_ok (snd ?run)"
      using run_export_run[of "se_cidr_in env" "rq_get rq" "[]" None w] that by (auto simp: db_ok_recorded)
    ultimately show ?thesis by metis
  qed
  then show ?thesis unfolding export_download_def by (intro keeps_login) (simp add: keeps_def)
qed

lemma keeps_rest:
  "keeps (server_delete k)" "keeps (server_toggle_enabled k)" "keeps (server_test_connection k)"
  "keeps (server_discover_logs k)" "keeps (log_source_poll_now k)" "keeps (log_source_toggle_enabled k)"
  "keeps (force_whois k)" "keeps (recalculate_iran k)" "keeps run_purge_now" "keeps (cidr_toggle_enabled k)"
proof -
  show "keeps (server_delete k)" unfolding server_delete_def
    by (intro keeps_rules) (simp add: db_ok_delete_server db_ok_audited)
  show "keeps (server_toggle_enabled k)" unfolding server_toggle_enabled_def
    by (intro keeps_rules) (simp add: Let_def db_ok_audited db_ok_update_server)
  show "keeps (server_test_connection k)" unfolding server_test_connection_def by (intro keeps_rules) simp
  show "keeps (server_discover_logs k)" unfolding server_discover_logs_def by (intro keeps_rules) simp
  show "keeps (log_source_poll_now k)" unfolding log_source_poll_now_def by (intro keeps_rules) (simp add: db_ok_audited)
  show "keeps (log_source_toggle_enabled k)" unfolding log_source_toggle_enabled_def
    by (intro keeps_rules) (simp add: Let_def db_ok_audited db_ok_update_source)
  show "keeps (force_whois k)" unfolding force_whois_def by (intro keeps_rules) (simp add: db_ok_audited)
  show "keeps (recalculate_iran k)" unfolding recalculate_iran_def by (intro keeps_rules) (simp add: db_ok_audited)
  show "keeps run_purge_now" unfolding run_purge_now_def by (intro keeps_login keeps_post) (simp add: keeps_def db_ok_audited)
  show "keeps (cidr_toggle_enabled k)" unfolding cidr_toggle_enabled_def
    by (intro keeps_rules) (simp add: Let_def db_ok_audited db_ok_update_network split: sum.split)
qed

lemma keeps_views: "keeps (view_of env r)"
  by (cases r) (simp_all add: keeps_rest keeps_create keeps_update keeps_cidr_create keeps_download
      keeps_reading reading_rest reading_settings, (simp_all add: reading_views keeps_reading reading_show reading_with_get)?)

text \<open>Every request, on every URL, with every method, from anybody, whether it ends in a page or in an error, keeps the
  database consistent: keys in order, no dangling reference, addresses and networks unique.\<close>

lemma requests_keep_database:
  assumes "db_ok w" shows "db_ok (snd (handle env r rq w))"
  using keeps_views[of env r] assms by (simp add: keeps_def handle_def middleware_run split: prod.split) (metis db_ok_context snd_conv)

section \<open>Editing a server\<close>

text \<open>C4: Saving the edit form of a server stores the credential that was typed in, and keeps the stored one when the field was
  left blank; the connection state of the server and every other server stay as they were.\<close>

theorem edit_keeps_credential:
  assumes "db_ok w" "get_row k (w_servers w) = Some s" "rq_user rq = Some u" "rq_method rq = ''POST''"
    and "handle env (Servers_update k) rq w = (Inr (Redirect ''servers:detail'' (Some k), ms), w')"
  shows "\<exists>s'. get_row k (w_servers w') = Some s'
     \<and> sv_ssh_private_key s' = (let key = py_strip (param (rq_post rq) ''ssh_private_key'' []) in
          if key \<noteq> [] then key else sv_ssh_private_key s)
     \<and> sv_last_connected_at s' = sv_last_connected_at s \<and> sv_last_error s' = sv_last_error s
     \<and> (\<forall>j. j \<noteq> k \<longrightarrow> get_row j (w_servers w') = get_row j (w_servers w))
     \<and> w_sources w' = w_sources w \<and> w_events w' = w_events w"
proof -
  let ?w = "w\<lparr>w_context := Some \<lparr>rc_user_id = rq_user rq, rc_ip_address = get_client_ip rq\<rparr>\<rparr>"
  obtain w1 where run: "server_update (se_forms env) k rq ?w = (Inr (Redirect ''servers:detail'' (Some k), ms), w1)"
    and w': "w' = w1\<lparr>w_context := w_context w\<rparr>"
    using assms(5) by (auto simp: handle_def middleware_run split: prod.split_asm)
  obtain form where form: "server_form_clean (se_forms env) (rq_post rq) (Some k) ?w = Some form"
    and st: "store_server k form s ?w = (Inr (), w1)"
    using run assms(2-4) by (auto simp: server_update_def get_object_or_404_def split: option.split_asm prod.split_asm sum.split_asm)
  let ?s = "(server_form_apply form s)\<lparr>sv_updated_at := w_now w\<rparr>"
  have w1: "w1 = audit ''server.updated'' (Some (server_object k ?s)) (?w\<lparr>w_servers := update_row k (\<lambda>_. ?s) (w_servers w)\<rparr>)"
    using st by (auto simp: store_server_def Let_def split: if_split_asm)
  have "get_row k (w_servers w') = Some ?s" unfolding w' w1 by (simp add: audit_def get_update_row assms(2))
  moreover have "get_row j (w_servers w') = get_row j (w_servers w)" if "j \<noteq> k" for j
    unfolding w' w1 using that by (simp add: audit_def get_update_row)
  moreover have "w_sources w' = w_sources w" "w_events w' = w_events w" unfolding w' w1 by (simp_all add: audit_def)
  ultimately show ?thesis using server_form_clean_key(1)[OF form]
    by (intro exI[of _ ?s]) (simp add: server_form_apply_def Let_def)
qed


section \<open>Examples\<close>

definition site_request :: "pk option \<Rightarrow> string \<Rightarrow> http_request" where
  "site_request user meth =
     \<lparr>rq_forwarded_for = None, rq_remote_addr = Some ''10.0.0.1'', rq_user = user, rq_hx = False, rq_method = meth,
      rq_get = [], rq_post = [(''ssh_private_key'', ''  '')]\<rparr>"

definition site_fields :: server_fields where
  "site_fields =
     \<lparr>sf_name = ''web-2'', sf_hostname = ''web-2.example.ir'', sf_ip_address = None, sf_ssh_port = 22,
      sf_ssh_username = ''monitor'', sf_ssh_auth_type = SSH_KEY, sf_enabled = True\<rparr>"

definition site_environment :: site_env where
  "site_environment =
     \<lparr>se_forms = \<lparr>fl_server = (\<lambda>_. Some site_fields), fl_network = (\<lambda>_. None)\<rparr>, se_cidr_in = ip_network,
      se_llen = (\<lambda>_. Inr 0), se_results = [], se_whois_host = whois_says (Completed [] [] 0)\<rparr>"

theorem anonymous_sees_nothing_witness:
  "\<forall>r. handle site_environment r (site_request None ''POST'') site_world = (Inr (Login_redirect, []), site_world)"
  using anonymous_sees_nothing[of "site_request None ''POST''"] by (simp add: site_request_def)


lemma only_post_changes_example:
  "w_servers (snd (handle site_environment (Servers_delete 1) (site_request (Some 7) ''GET'') site_world)) = w_servers site_world"
  by (subst only_post_changes) (simp_all add: site_request_def)

lemma requests_keep_database_example:
  "db_ok (snd (handle site_environment (Servers_delete 1) (site_request (Some 7) ''POST'') site_world))"
  by (rule requests_keep_database[OF site_world_ok])

lemma site_server: "get_row 1 (w_servers site_world) = Some example_server"
  by code_simp

definition keyed_world :: world where
  "keyed_world = site_world\<lparr>w_settings := default_settings\<lparr>st_ssh_credential_encryption_key := ''k''\<rparr>\<rparr>"

theorem edit_keeps_credential_witness:
  "\<exists>s'. get_row 1 (w_servers (snd (handle site_environment (Servers_update 1) (site_request (Some 7) ''POST'') keyed_world))) = Some s'
     \<and> sv_ssh_private_key s' = ''key''"
proof -
  let ?rq = "site_request (Some 7) ''POST''"
  have ok: "db_ok keyed_world" using site_world_ok by (simp add: keyed_world_def db_parts)
  have s: "get_row 1 (w_servers keyed_world) = Some example_server" using site_server by (simp add: keyed_world_def)
  have res: "fst (handle site_environment (Servers_update 1) ?rq keyed_world) = Inr (Redirect ''servers:detail'' (Some 1), [Server_updated ''web-2''])"
    by code_simp
  obtain w' where run: "handle site_environment (Servers_update 1) ?rq keyed_world = (Inr (Redirect ''servers:detail'' (Some 1), [Server_updated ''web-2'']), w')"
    using res by (cases "handle site_environment (Servers_update 1) ?rq keyed_world") auto
  have "rq_user ?rq = Some 7" "rq_method ?rq = ''POST''" by (simp_all add: site_request_def)
  from edit_keeps_credential[OF ok s this run]
  show ?thesis using run by (auto simp: site_request_def param_def py_strip_def py_lstrip_def rstrip_with_def py_ws_def cp_def Let_def example_server_def)
qed


end
