(* ===== verification/Api.thy ===== *)
theory Api
  imports Site_Data
begin

text \<open>
  \<open>apps/api\<close>: the serializers, the read-only view sets, and the dashboard, map, export and worker endpoints.
  Django REST framework's authentication, filter backends and paginator are parameters; a backend sees of a row
  exactly the columns the view set declares to it (\<open>filterset_fields\<close>, \<open>search_fields\<close>, \<open>ordering_fields\<close>).
\<close>

section \<open>Serializers\<close>

text \<open>An aware UTC datetime ends in \<open>Z\<close>.\<close>

definition drf_datetime :: "time \<Rightarrow> json" where
  "drf_datetime t = JStr (let s = isoformat t in take (length s - 6) s @ ''Z'')"

definition auth_type_value :: "auth_type \<Rightarrow> string" where
  "auth_type_value a = (case a of SSH_KEY \<Rightarrow> ''ssh_key'' | PASSWORD \<Rightarrow> ''password'')"

definition whois_status_value :: "whois_status \<Rightarrow> string" where
  "whois_status_value s = (case s of NEVER_CHECKED \<Rightarrow> ''never_checked'' | OK \<Rightarrow> ''ok'' | ERROR \<Rightarrow> ''error'')"

definition jpk :: "pk \<Rightarrow> json" where "jpk k = JInt (int k)"

definition server_fields_list :: "string list" where
  "server_fields_list = [''id'', ''name'', ''hostname'', ''ip_address'', ''ssh_port'', ''ssh_username'', ''ssh_auth_type'', ''enabled'',
     ''connection_status'', ''log_search_paths'', ''last_connected_at'', ''last_error'', ''created_at'', ''updated_at'']"

definition server_json :: "pk \<Rightarrow> server \<Rightarrow> json" where
  "server_json k s = JObj (zip server_fields_list
     [jpk k, JStr (sv_name s), JStr (sv_hostname s), jopt JStr (sv_ip_address s), JInt (int (sv_ssh_port s)),
      JStr (sv_ssh_username s), JStr (auth_type_value (sv_ssh_auth_type s)), JBool (sv_enabled s), JStr (connection_status s),
      JList (map JStr (sv_log_search_paths s)), jopt drf_datetime (sv_last_connected_at s), JStr (sv_last_error s),
      drf_datetime (sv_created_at s), drf_datetime (sv_updated_at s)])"

definition server_name_of :: "world \<Rightarrow> pk \<Rightarrow> json" where
  "server_name_of w k = (case get_row k (w_servers w) of None \<Rightarrow> JNull | Some s \<Rightarrow> JStr (sv_name s))"

definition log_source_json :: "world \<Rightarrow> pk \<Rightarrow> log_source \<Rightarrow> json" where
  "log_source_json w k s = JObj
     [(''id'', jpk k), (''server'', jpk (ls_server s)), (''server_name'', server_name_of w (ls_server s)),
      (''name'', JStr (ls_name s)), (''path'', JStr (ls_path s)), (''format'', JStr (ls_format s)),
      (''enabled'', JBool (ls_enabled s)), (''inode'', jopt JInt (ls_inode s)), (''byte_offset'', JInt (ls_byte_offset s)),
      (''reader_status'', JStr (reader_status s)), (''last_read_at'', jopt drf_datetime (ls_last_read_at s)),
      (''last_event_at'', jopt drf_datetime (ls_last_event_at s)), (''last_error'', JStr (ls_last_error s)),
      (''created_at'', drf_datetime (ls_created_at s)), (''updated_at'', drf_datetime (ls_updated_at s))]"

definition ip_json :: "pk \<Rightarrow> ip_row \<Rightarrow> json" where
  "ip_json k r = JObj
     [(''id'', jpk k), (''address'', JStr (ia_address r)), (''version'', JInt (int (ia_version r))),
      (''country_code'', JStr (ia_country_code r)), (''country_name'', JStr (ia_country_name r)),
      (''continent'', JStr (ia_continent r)), (''latitude'', jopt JNum (ia_latitude r)), (''longitude'', jopt JNum (ia_longitude r)),
      (''asn'', jopt JInt (ia_asn r)), (''organization'', JStr (ia_organization r)), (''network'', JStr (ia_network r)),
      (''cidr'', jopt JStr (ia_cidr r)), (''whois_status'', JStr (whois_status_value (ia_whois_status r))),
      (''whois_checked_at'', jopt drf_datetime (ia_whois_checked_at r)),
      (''whois_next_check_at'', jopt drf_datetime (ia_whois_next_check_at r)), (''whois_country'', JStr (ia_whois_country r)),
      (''whois_error'', JStr (ia_whois_error r)), (''is_iran'', JBool (ia_is_iran r)),
      (''iran_checked_at'', jopt drf_datetime (ia_iran_checked_at r)), (''iran_match_cidr'', jopt JStr (ia_iran_match_cidr r)),
      (''first_seen_at'', drf_datetime (ia_first_seen_at r)), (''last_seen_at'', drf_datetime (ia_last_seen_at r)),
      (''created_at'', drf_datetime (ia_created_at r)), (''updated_at'', drf_datetime (ia_updated_at r))]"

definition event_json :: "world \<Rightarrow> pk \<Rightarrow> event \<Rightarrow> json" where
  "event_json w k e = JObj
     [(''id'', jpk k), (''server'', jpk (ev_server e)), (''server_name'', server_name_of w (ev_server e)),
      (''log_source'', jpk (ev_log_source e)), (''ip'', jpk (ev_ip e)),
      (''ip_address'', case get_row (ev_ip e) (w_ips w) of None \<Rightarrow> JNull | Some r \<Rightarrow> JStr (ia_address r)),
      (''timestamp'', drf_datetime (ev_timestamp e)), (''host'', JStr (ev_host e)), (''method'', JStr (ev_method e)),
      (''uri'', JStr (ev_uri e)), (''status'', JInt (ev_status e)), (''bytes'', JInt (ev_bytes e)),
      (''request_time'', jopt JStr (ev_request_time e)), (''user_agent'', JStr (ev_user_agent e)), (''referer'', JStr (ev_referer e)),
      (''raw_line'', JStr (ev_raw_line e)), (''created_at'', drf_datetime (ev_created_at e))]"

definition whois_json :: "pk \<Rightarrow> whois_record \<Rightarrow> json" where
  "whois_json k r = JObj
     [(''id'', jpk k), (''ip'', jpk (wr_ip r)), (''queried_at'', drf_datetime (wr_queried_at r)),
      (''whois_server'', JStr (wr_whois_server r)), (''raw_response'', JStr (wr_raw_response r)),
      (''parsed_data'', JObj (map (\<lambda>(f, vs). (f, JList (map JStr vs))) (wr_parsed_data r))),
      (''response_hash'', JStr (wr_response_hash r)), (''created_at'', drf_datetime (wr_created_at r))]"

definition network_json :: "pk \<Rightarrow> country_network \<Rightarrow> json" where
  "network_json k r = JObj
     [(''id'', jpk k), (''country_code'', JStr (cn_country_code r)), (''cidr'', JStr (cn_cidr r)), (''network'', JStr (cn_network r)),
      (''prefix_length'', JInt (int (cn_prefix_length r))), (''source'', JStr (cn_source r)),
      (''valid_from'', jopt drf_datetime (cn_valid_from r)), (''valid_until'', jopt drf_datetime (cn_valid_until r)),
      (''last_verified_at'', jopt drf_datetime (cn_last_verified_at r)), (''enabled'', JBool (cn_enabled r)),
      (''created_at'', drf_datetime (cn_created_at r)), (''updated_at'', drf_datetime (cn_updated_at r))]"

section \<open>View sets\<close>

text \<open>
  What the filter backends of each view set see of a row; they answer with the keys of the rows they keep, in
  order, or with a validation error. The paginator cuts a list of keys.
\<close>

type_synonym 'v backend = "querydict \<Rightarrow> (pk \<times> 'v) list \<Rightarrow> (pk list) res"

record api_lib =
  al_authenticate :: "http_request \<Rightarrow> pk option"
  al_negotiates :: "http_request \<Rightarrow> bool"
  al_throttles :: "http_request \<Rightarrow> bool"
  al_servers :: "(bool \<times> auth_type \<times> string \<times> string \<times> time option \<times> time) backend"
  al_sources :: "(bool \<times> pk \<times> string \<times> string \<times> time option \<times> time option) backend"
  al_ips :: "(bool \<times> nat \<times> whois_status \<times> string \<times> string \<times> string \<times> time \<times> time \<times> int option) backend"
  al_events :: "(pk \<times> int \<times> string \<times> string \<times> time) backend"
  al_iran_ips :: "(string \<times> string \<times> time) backend"
  al_networks :: "(string \<times> bool \<times> string \<times> string \<times> string \<times> time option \<times> time) backend"
  al_paginate :: "querydict \<Rightarrow> pk list \<Rightarrow> (pk list) res"

definition server_columns :: "server \<Rightarrow> bool \<times> auth_type \<times> string \<times> string \<times> time option \<times> time" where
  "server_columns s = (sv_enabled s, sv_ssh_auth_type s, sv_name s, sv_hostname s, sv_last_connected_at s, sv_created_at s)"

definition source_columns :: "log_source \<Rightarrow> bool \<times> pk \<times> string \<times> string \<times> time option \<times> time option" where
  "source_columns s = (ls_enabled s, ls_server s, ls_path s, ls_name s, ls_last_read_at s, ls_last_event_at s)"

definition ip_columns :: "ip_row \<Rightarrow> bool \<times> nat \<times> whois_status \<times> string \<times> string \<times> string \<times> time \<times> time \<times> int option" where
  "ip_columns r = (ia_is_iran r, ia_version r, ia_whois_status r, ia_address r, ia_organization r, ia_network r,
     ia_last_seen_at r, ia_first_seen_at r, ia_asn r)"

definition event_columns :: "event \<Rightarrow> pk \<times> int \<times> string \<times> string \<times> time" where
  "event_columns e = (ev_server e, ev_status e, ev_host e, ev_uri e, ev_timestamp e)"

definition iran_ip_columns :: "ip_row \<Rightarrow> string \<times> string \<times> time" where
  "iran_ip_columns r = (ia_address r, ia_organization r, ia_last_seen_at r)"

definition network_columns :: "country_network \<Rightarrow> string \<times> bool \<times> string \<times> string \<times> string \<times> time option \<times> time" where
  "network_columns r = (cn_country_code r, cn_enabled r, cn_source r, cn_cidr r, cn_network r, cn_last_verified_at r, cn_created_at r)"

definition rows_of :: "(pk \<times> 'r) list \<Rightarrow> pk list \<Rightarrow> (pk \<times> 'r) list" where
  "rows_of rows ks = List.map_filter (\<lambda>k. map_option (Pair k) (map_of rows k)) ks"

definition filter_queryset :: "'v backend \<Rightarrow> ('r \<Rightarrow> 'v) \<Rightarrow> querydict \<Rightarrow> (pk \<times> 'r) list \<Rightarrow> ((pk \<times> 'r) list) res" where
  "filter_queryset backend columns ps rows =
     res_bind (backend ps (map (\<lambda>(k, r). (k, columns r)) rows)) (\<lambda>ks. Inr (rows_of rows ks))"

definition paginated :: "api_lib \<Rightarrow> querydict \<Rightarrow> (pk \<Rightarrow> 'r \<Rightarrow> json) \<Rightarrow> (pk \<times> 'r) list \<Rightarrow> json res" where
  "paginated lib ps ser rows =
     res_bind (al_paginate lib ps (map fst rows)) (\<lambda>ks.
       Inr (JObj [(''count'', JInt (int (length rows))), (''results'', JList (map (\<lambda>(k, r). ser k r) (rows_of rows ks)))]))"

definition get_object :: "pk \<Rightarrow> (pk \<times> 'r) list res \<Rightarrow> 'r res" where
  "get_object k rows = res_bind rows (\<lambda>rs. case map_of rs k of None \<Rightarrow> Inl Http404 | Some r \<Rightarrow> Inr r)"

definition servers_queryset :: "api_lib \<Rightarrow> querydict \<Rightarrow> world \<Rightarrow> (pk \<times> server) list res" where
  "servers_queryset lib ps w =
     filter_queryset (al_servers lib) server_columns ps (order_by sv_name (tb_rows (w_servers w)))"

definition sources_queryset :: "api_lib \<Rightarrow> querydict \<Rightarrow> world \<Rightarrow> (pk \<times> log_source) list res" where
  "sources_queryset lib ps w = filter_queryset (al_sources lib) source_columns ps (source_order w (tb_rows (w_sources w)))"

definition ips_queryset :: "api_lib \<Rightarrow> querydict \<Rightarrow> world \<Rightarrow> (pk \<times> ip_row) list res" where
  "ips_queryset lib ps w =
     (let country = param ps ''country'' [] in
      filter_queryset (al_ips lib) ip_columns ps
        (order_desc ia_last_seen_at (select_rows (\<lambda>_ r. country = [] \<or> iexact (ia_country_code r) country) (w_ips w))))"

text \<open>\<open>timezone.now() - timedelta(days=n)\<close>; outside the range of the two types Python raises \<open>OverflowError\<close>.\<close>

definition since_days :: "int \<Rightarrow> world \<Rightarrow> time res" where
  "since_days n w =
     (let t = w_now w - days n in
      if \<bar>n\<bar> \<le> 999999999 \<and> -62135596800000000 \<le> t \<and> t \<le> 253402300799999999 then Inr t
      else Inl (RuntimeError ''OverflowError''))"

definition days_filter :: "querydict \<Rightarrow> world \<Rightarrow> (event \<Rightarrow> bool) res" where
  "days_filter ps w =
     (let d = param ps ''days'' [] in
      if d = [] then Inr (\<lambda>_. True)
      else (case py_int d of
              None \<Rightarrow> Inr (\<lambda>_. True)
            | Some n \<Rightarrow> res_bind (since_days n w) (\<lambda>since. Inr (\<lambda>e. since \<le> ev_timestamp e))))"

definition events_queryset :: "api_lib \<Rightarrow> querydict \<Rightarrow> world \<Rightarrow> (pk \<times> event) list res" where
  "events_queryset lib ps w =
     res_bind (days_filter ps w) (\<lambda>recent.
       filter_queryset (al_events lib) event_columns ps
         (order_desc ev_timestamp (select_rows (\<lambda>_ e. recent e \<and>
            (map_of ps ''is_iran'' = Some ''true'' \<longrightarrow>
               (case get_row (ev_ip e) (w_ips w) of None \<Rightarrow> False | Some r \<Rightarrow> ia_is_iran r))) (w_events w))))"

definition iran_ips_queryset :: "api_lib \<Rightarrow> querydict \<Rightarrow> world \<Rightarrow> (pk \<times> ip_row) list res" where
  "iran_ips_queryset lib ps w =
     filter_queryset (al_iran_ips lib) iran_ip_columns ps (order_desc ia_last_seen_at (select_rows (\<lambda>_. ia_is_iran) (w_ips w)))"

definition networks_queryset :: "api_lib \<Rightarrow> querydict \<Rightarrow> world \<Rightarrow> (pk \<times> country_network) list res" where
  "networks_queryset lib ps w =
     filter_queryset (al_networks lib) network_columns ps
       (order_by (\<lambda>r. (cn_country_code r, cidr_key (cn_cidr r))) (tb_rows (w_cidrs w)))"

section \<open>The other endpoints\<close>

definition pairs_json :: "string \<Rightarrow> ('a \<Rightarrow> json) \<Rightarrow> ('a \<times> nat) list \<Rightarrow> json" where
  "pairs_json name f rows = JList (map (\<lambda>(x, n). JObj [(name, f x), (''count'', JInt (int n))]) rows)"

definition dashboard_data :: "datetime_lib \<Rightarrow> querydict \<Rightarrow> world \<Rightarrow> json res" where
  "dashboard_data dt ps w =
     (let period = param ps ''period'' ''24h''; jtime = (\<lambda>t. JStr (isoformat t)) in
      res_bind (resolve_period dt period (map_of ps ''start'') (map_of ps ''end'') w) (\<lambda>(start, end).
        (let s = dashboard_build start end w in
         Inr (JObj
           [(''period'', JStr period), (''start'', jtime start), (''end'', jtime end),
            (''requests_over_time'', pairs_json ''bucket'' jtime (ds_requests_over_time s)),
            (''unique_ips_over_time'', pairs_json ''bucket'' jtime (ds_unique_ips_over_time s)),
            (''countries'', pairs_json ''country_code'' JStr (ds_countries s)),
            (''iran_split'', JObj [(''iran'', JInt (int (ds_iran s))), (''other'', JInt (int (ds_other s))), (''unknown'', JInt (int (ds_unknown s)))]),
            (''top_iranian_ips'', pairs_json ''address'' JStr (ds_top_iranian_ips s)),
            (''top_iranian_cidrs'', pairs_json ''cidr'' JStr (ds_top_iranian_cidrs s)),
            (''top_countries'', pairs_json ''country_code'' JStr (ds_top_countries s))]))))"

definition valid_map_statuses :: "string list" where
  "valid_map_statuses = [''all'', ''503'', ''iran'', ''non_iran'', ''unknown'']"

definition point_json :: "map_point \<Rightarrow> json" where
  "point_json p =
     (case mp_ip p of
        None \<Rightarrow> JObj [(''lat'', JNum (mp_lat p)), (''lon'', JNum (mp_lon p)), (''count'', JInt (int (mp_count p))),
                       (''iran_count'', JInt (int (mp_iran_count p))), (''status'', JStr (mp_status p))]
      | Some (k, r, n) \<Rightarrow>
          JObj [(''lat'', JNum (mp_lat p)), (''lon'', JNum (mp_lon p)), (''count'', JInt 1), (''status'', JStr (mp_status p)),
                (''ip_id'', jpk k), (''address'', JStr (ia_address r)), (''country_code'', JStr (ia_country_code r)),
                (''asn'', jopt JInt (ia_asn r)), (''organization'', JStr (ia_organization r)), (''is_iran'', JBool (ia_is_iran r)),
                (''event_count'', JInt (int n)), (''last_seen_at'', JStr (isoformat (ia_last_seen_at r)))])"

definition map_data :: "datetime_lib \<Rightarrow> querydict \<Rightarrow> world \<Rightarrow> json res" where
  "map_data dt ps w =
     (let asked = param ps ''status'' ''503'';
          status = (if asked \<in> set valid_map_statuses then asked else ''503'') in
      res_bind (resolve_period dt (param ps ''period'' ''24h'') (map_of ps ''start'') (map_of ps ''end'') w) (\<lambda>(start, end).
        (let zoom = (case map_of ps ''zoom'' of None \<Rightarrow> 2 | Some z \<Rightarrow> (case py_int z of None \<Rightarrow> 2 | Some n \<Rightarrow> n));
             points = build_points (filtered_queryset status start end w) zoom status start end w
         in Inr (JObj [(''status'', JStr status), (''zoom'', JInt zoom), (''points'', JList (map point_json points))]))))"

definition status_json :: "queue_status \<Rightarrow> json" where
  "status_json s = JObj
     [(''label'', JStr (qs_label s)), (''queue_name'', JStr (qs_queue_name s)), (''queued'', jopt (\<lambda>n. JInt (int n)) (qs_queued s)),
      (''running'', JInt (int (qs_running s))), (''failed_recent'', JInt (int (qs_failed_recent s))),
      (''completed_recent'', JInt (int (qs_completed_recent s))), (''last_execution'', jopt drf_datetime (qs_last_execution s)),
      (''redis_error'', JStr (qs_redis_error s))]"

definition workers_data :: "site_env \<Rightarrow> world \<Rightarrow> json res" where
  "workers_data env w =
     res_bind (build_statuses (se_llen env) (se_results env) 24 w) (\<lambda>ss. Inr (JObj [(''queues'', JList (map status_json ss))]))"

section \<open>The API\<close>

datatype api_route =
    Api_servers | Api_server pk | Api_server_logs pk
  | Api_log_sources | Api_log_source pk
  | Api_ips | Api_ip pk | Api_ip_events pk | Api_ip_whois pk
  | Api_events | Api_event pk
  | Api_iran_ips | Api_iran_ip pk | Api_cidrs | Api_cidr pk
  | Api_dashboard | Api_map | Api_workers

datatype api_endpoint = Read api_route | Export_endpoint

datatype api_response = Unauthorized | Not_negotiated | Throttled | Json json | File "page content"

definition json_of :: "json res \<Rightarrow> api_response res" where
  "json_of r = res_bind r (\<lambda>j. Inr (Json j))"

record api_env =
  ae_lib :: api_lib
  ae_dt :: datetime_lib
  ae_site :: site_env

fun api_read :: "api_env \<Rightarrow> api_route \<Rightarrow> querydict \<Rightarrow> world \<Rightarrow> json res" where
  "api_read env Api_servers ps w = res_bind (servers_queryset (ae_lib env) ps w) (paginated (ae_lib env) ps server_json)"
| "api_read env (Api_server k) ps w = res_bind (get_object k (servers_queryset (ae_lib env) ps w)) (\<lambda>s. Inr (server_json k s))"
| "api_read env (Api_server_logs k) ps w =
     res_bind (get_object k (servers_queryset (ae_lib env) ps w)) (\<lambda>_.
       paginated (ae_lib env) ps (log_source_json w) (source_order w (select_rows (\<lambda>_ s. ls_server s = k) (w_sources w))))"
| "api_read env Api_log_sources ps w = res_bind (sources_queryset (ae_lib env) ps w) (paginated (ae_lib env) ps (log_source_json w))"
| "api_read env (Api_log_source k) ps w = res_bind (get_object k (sources_queryset (ae_lib env) ps w)) (\<lambda>s. Inr (log_source_json w k s))"
| "api_read env Api_ips ps w = res_bind (ips_queryset (ae_lib env) ps w) (paginated (ae_lib env) ps ip_json)"
| "api_read env (Api_ip k) ps w = res_bind (get_object k (ips_queryset (ae_lib env) ps w)) (\<lambda>r. Inr (ip_json k r))"
| "api_read env (Api_ip_events k) ps w =
     res_bind (get_object k (ips_queryset (ae_lib env) ps w)) (\<lambda>_.
       paginated (ae_lib env) ps (event_json w) (order_desc ev_timestamp (select_rows (\<lambda>_ e. ev_ip e = k) (w_events w))))"
| "api_read env (Api_ip_whois k) ps w =
     res_bind (get_object k (ips_queryset (ae_lib env) ps w)) (\<lambda>_.
       paginated (ae_lib env) ps whois_json (order_desc wr_queried_at (select_rows (\<lambda>_ r. wr_ip r = k) (w_whois w))))"
| "api_read env Api_events ps w = res_bind (events_queryset (ae_lib env) ps w) (paginated (ae_lib env) ps (event_json w))"
| "api_read env (Api_event k) ps w = res_bind (get_object k (events_queryset (ae_lib env) ps w)) (\<lambda>e. Inr (event_json w k e))"
| "api_read env Api_iran_ips ps w = res_bind (iran_ips_queryset (ae_lib env) ps w) (paginated (ae_lib env) ps ip_json)"
| "api_read env (Api_iran_ip k) ps w = res_bind (get_object k (iran_ips_queryset (ae_lib env) ps w)) (\<lambda>r. Inr (ip_json k r))"
| "api_read env Api_cidrs ps w = res_bind (networks_queryset (ae_lib env) ps w) (paginated (ae_lib env) ps network_json)"
| "api_read env (Api_cidr k) ps w = res_bind (get_object k (networks_queryset (ae_lib env) ps w)) (\<lambda>r. Inr (network_json k r))"
| "api_read env Api_dashboard ps w = dashboard_data (ae_dt env) ps w"
| "api_read env Api_map ps w = map_data (ae_dt env) ps w"
| "api_read env Api_workers ps w = workers_data (ae_site env) w"

text \<open>\<open>perform_content_negotiation\<close>: the framework picks a renderer from \<open>?format=\<close> and the \<open>Accept\<close> header and
  refuses a request it has none for; the export, whose own parameter has that name, always takes its first renderer.\<close>

fun negotiates :: "api_lib \<Rightarrow> api_endpoint \<Rightarrow> http_request \<Rightarrow> bool" where
  "negotiates lib (Read route) rq = al_negotiates lib rq"
| "negotiates lib Export_endpoint rq = True"

text \<open>\<open>initial\<close>: negotiation comes first, then authentication with the required login, then the throttle.\<close>

definition api_view :: "api_env \<Rightarrow> api_endpoint \<Rightarrow> http_request \<Rightarrow> api_response eff" where
  "api_view env r rq w =
     (if \<not> negotiates (ae_lib env) r rq then (Inr Not_negotiated, w)
      else case al_authenticate (ae_lib env) rq of
        None \<Rightarrow> (Inr Unauthorized, w)
      | Some u \<Rightarrow>
          if al_throttles (ae_lib env) rq then (Inr Throttled, w)
          else (case r of
             Read route \<Rightarrow> (json_of (api_read env route (rq_get rq) w), w)
           | Export_endpoint \<Rightarrow>
               bnd (run_export (se_cidr_in (ae_site env)) (rq_get rq) [(''via'', JStr ''api'')] (Some u)) (\<lambda>c. ret (File c)) w))"

definition handle_api :: "api_env \<Rightarrow> api_endpoint \<Rightarrow> http_request \<Rightarrow> api_response eff" where
  "handle_api env r = audit_middleware (api_view env r)"

section \<open>Credentials never leave\<close>

definition credential :: "string \<Rightarrow> server \<Rightarrow> server" where
  "credential c s = s\<lparr>sv_ssh_private_key := c\<rparr>"

lemma credential_simps [simp]:
  "sv_name (credential c s) = sv_name s" "server_columns (credential c s) = server_columns s"
  "server_json k (credential c s) = server_json k s"
  by (simp_all add: credential_def server_columns_def server_json_def connection_status_def)

definition keyed :: "(pk \<Rightarrow> string) \<Rightarrow> (pk \<times> server) list \<Rightarrow> (pk \<times> server) list" where
  "keyed c rows = map (\<lambda>(k, s). (k, credential (c k) s)) rows"

text \<open>The same state with every stored credential replaced.\<close>

definition with_credentials :: "(pk \<Rightarrow> string) \<Rightarrow> world \<Rightarrow> world" where
  "with_credentials c w = w\<lparr>w_servers := (w_servers w)\<lparr>tb_rows := keyed c (tb_rows (w_servers w))\<rparr>\<rparr>"

lemma with_credentials_frame [simp]:
  "w_now (with_credentials c w) = w_now w" "w_settings (with_credentials c w) = w_settings w" "w_sources (with_credentials c w) = w_sources w"
  "w_ips (with_credentials c w) = w_ips w" "w_events (with_credentials c w) = w_events w" "w_whois (with_credentials c w) = w_whois w"
  "w_cidrs (with_credentials c w) = w_cidrs w" "w_history (with_credentials c w) = w_history w"
  "tb_rows (w_servers (with_credentials c w)) = keyed c (tb_rows (w_servers w))"
  by (simp_all add: with_credentials_def)

lemma map_of_keyed: "map_of (keyed c rows) k = map_option (credential (c k)) (map_of rows k)"
  by (induction rows) (auto simp: keyed_def)

lemma server_row_keyed: "get_row k (w_servers (with_credentials c w)) = map_option (credential (c k)) (get_row k (w_servers w))"
  by (simp add: get_row_def map_of_keyed)

lemma server_name_keyed [simp]: "server_name_of (with_credentials c w) k = server_name_of w k"
  by (simp add: server_name_of_def server_row_keyed split: option.split)

lemma sort_key_map_rows:
  assumes "\<And>x. f (g x) = f x" shows "sort_key f (map g xs) = map g (sort_key f xs)"
proof -
  have "insort_key f (g x) (map g xs) = map g (insort_key f x xs)" for x xs
    by (induction xs) (simp_all add: assms)
  then show ?thesis by (induction xs) simp_all
qed

lemma order_by_keyed: "order_by sv_name (keyed c rows) = keyed c (order_by sv_name rows)"
  unfolding order_by_def keyed_def by (rule sort_key_map_rows) auto

lemma rows_of_keyed: "rows_of (keyed c rows) ks = keyed c (rows_of rows ks)"
  unfolding rows_of_def map_of_keyed by (induction ks) (auto simp: map_filter_simps keyed_def split: option.split)

lemma servers_queryset_keyed:
  "servers_queryset lib ps (with_credentials c w) = res_bind (servers_queryset lib ps w) (\<lambda>rows. Inr (keyed c rows))"
proof -
  have "map (\<lambda>(k, s). (k, server_columns s)) (keyed c rows) = map (\<lambda>(k, s). (k, server_columns s)) rows" for rows
    by (simp add: keyed_def comp_def case_prod_beta')
  then show ?thesis
    by (simp add: servers_queryset_def filter_queryset_def order_by_keyed rows_of_keyed res_bind_def split: sum.split)
qed

lemma paginated_keyed: "paginated lib ps server_json (keyed c rows) = paginated lib ps server_json rows"
proof -
  have "map fst (keyed c rows) = map fst rows" by (simp add: keyed_def comp_def case_prod_beta')
  moreover have "map (\<lambda>(k, r). server_json k r) (keyed c rs) = map (\<lambda>(k, r). server_json k r) rs" for rs
    by (simp add: keyed_def comp_def case_prod_beta')
  ultimately show ?thesis by (simp add: paginated_def rows_of_keyed) (simp add: keyed_def)
qed

lemma get_object_keyed:
  "get_object k (servers_queryset lib ps (with_credentials c w)) =
   res_bind (get_object k (servers_queryset lib ps w)) (\<lambda>s. Inr (credential (c k) s))"
  by (simp add: servers_queryset_keyed get_object_def map_of_keyed res_bind_def split: sum.split option.split)

lemma source_order_keyed [simp]: "source_order (with_credentials c w) rows = source_order w rows"
proof -
  have "(case get_row k (w_servers (with_credentials c w)) of Some v \<Rightarrow> sv_name v | None \<Rightarrow> []) =
      (case get_row k (w_servers w) of Some v \<Rightarrow> sv_name v | None \<Rightarrow> [])" for k
    by (simp add: server_row_keyed split: option.split)
  then show ?thesis by (simp add: source_order_def)
qed

lemma json_keyed [simp]:
  "log_source_json (with_credentials c w) = log_source_json w" "event_json (with_credentials c w) = event_json w"
  by (intro ext, simp add: log_source_json_def event_json_def)+

lemma events_between_keyed [simp]: "events_between start end (with_credentials c w) = events_between start end w"
  by (simp add: events_between_def)

lemma analytics_keyed [simp]:
  "resolve_period dt p s e (with_credentials c w) = resolve_period dt p s e w"
  "dashboard_build start end (with_credentials c w) = dashboard_build start end w"
  "filtered_queryset status start end (with_credentials c w) = filtered_queryset status start end w"
  "build_points rows zoom status start end (with_credentials c w) = build_points rows zoom status start end w"
  "build_statuses llen results n (with_credentials c w) = build_statuses llen results n w"
proof -
  show "resolve_period dt p s e (with_credentials c w) = resolve_period dt p s e w" unfolding resolve_period_def by simp
  show "dashboard_build start end (with_credentials c w) = dashboard_build start end w"
    unfolding dashboard_build_def ips_of_events_def iranian_hits_def by simp
  show "filtered_queryset status start end (with_credentials c w) = filtered_queryset status start end w"
    unfolding filtered_queryset_def map_filter_status_def by simp
  show "build_points rows zoom status start end (with_credentials c w) = build_points rows zoom status start end w"
    unfolding build_points_def individual_points_def event_count_def by simp
  show "build_statuses llen results n (with_credentials c w) = build_statuses llen results n w"
    unfolding build_statuses_def by simp
qed

lemma export_keyed [simp]: "build_queryset cidr_in f (with_credentials c w) = build_queryset cidr_in f w"
  unfolding build_queryset_def event_selected_def period_since_def iran_filter_def previously_iran_def by simp

lemma days_filter_keyed [simp]: "days_filter ps (with_credentials c w) = days_filter ps w"
proof -
  have "since_days n (with_credentials c w) = since_days n w" for n unfolding since_days_def by simp
  then show ?thesis by (simp add: days_filter_def Let_def split: option.split)
qed

lemma querysets_keyed [simp]:
  "sources_queryset lib ps (with_credentials c w) = sources_queryset lib ps w"
  "ips_queryset lib ps (with_credentials c w) = ips_queryset lib ps w"
  "events_queryset lib ps (with_credentials c w) = events_queryset lib ps w"
  "iran_ips_queryset lib ps (with_credentials c w) = iran_ips_queryset lib ps w"
  "networks_queryset lib ps (with_credentials c w) = networks_queryset lib ps w"
  unfolding sources_queryset_def ips_queryset_def events_queryset_def iran_ips_queryset_def networks_queryset_def by simp_all

lemma api_read_keyed: "api_read env r ps (with_credentials c w) = api_read env r ps w"
proof (cases r)
  case Api_servers
  then show ?thesis by (simp add: servers_queryset_keyed res_bind_def paginated_keyed split: sum.split)
next
  case (Api_server k)
  then show ?thesis by (simp add: get_object_keyed res_bind_def split: sum.split)
next
  case (Api_server_logs k)
  then show ?thesis by (simp add: get_object_keyed res_bind_def split: sum.split)
qed (simp_all add: dashboard_data_def map_data_def workers_data_def)

lemma run_export_result:
  "fst (run_export cidr_in ps extra user (with_credentials c w)) = fst (run_export cidr_in ps extra user w)"
  by (simp add: run_export_def Let_def case_prod_beta split: sum.split)

lemma api_view_result:
  "fst (api_view env r rq w) =
     (if \<not> negotiates (ae_lib env) r rq then Inr Not_negotiated
      else case al_authenticate (ae_lib env) rq of
        None \<Rightarrow> Inr Unauthorized
      | Some u \<Rightarrow> if al_throttles (ae_lib env) rq then Inr Throttled else (case r of Read route \<Rightarrow> json_of (api_read env route (rq_get rq) w)
         | Export_endpoint \<Rightarrow> res_bind (fst (run_export (se_cidr_in (ae_site env)) (rq_get rq) [(''via'', JStr ''api'')] (Some u) w)) (\<lambda>c. Inr (File c))))"
  by (simp add: api_view_def bnd_split res_bind_def split: option.split api_endpoint.split sum.split)

text \<open>C18: No response of the API depends on a stored SSH credential: with every credential replaced by anything else, each
  request gets the same answer.\<close>

theorem api_never_reveals_credentials:
  "fst (handle_api env r rq (with_credentials c w)) = fst (handle_api env r rq w)"
proof -
  have ctx: "(with_credentials c w)\<lparr>w_context := x\<rparr> = with_credentials c (w\<lparr>w_context := x\<rparr>)" for x
    by (simp add: with_credentials_def)
  have run: "fst (handle_api env r rq v) =
      fst (api_view env r rq (v\<lparr>w_context := Some \<lparr>rc_user_id = rq_user rq, rc_ip_address = get_client_ip rq\<rparr>\<rparr>))" for v
    by (simp add: handle_api_def middleware_run case_prod_beta)
  show ?thesis unfolding run ctx api_view_result
    by (simp add: api_read_keyed run_export_result split: option.split api_endpoint.split)
qed

text \<open>The API changes nothing: without authentication it answers nothing, a read leaves the state alone, and an export
  adds one audit entry that names the authenticated user, also when the user is known by a token only.\<close>

lemma api_only_reads:
  assumes "handle_api env r rq w = (res, w')"
  shows "(al_authenticate (ae_lib env) rq = None \<longrightarrow> (res = Inr Unauthorized \<or> res = Inr Not_negotiated) \<and> w' = w)
    \<and> (w' = w \<or> (r = Export_endpoint \<and> (\<exists>e. w' = w\<lparr>w_audit := add_row e (w_audit w)\<rparr>
         \<and> al_action e = ''iran.export'' \<and> al_user e = al_authenticate (ae_lib env) rq)))"
proof -
  let ?w = "w\<lparr>w_context := Some \<lparr>rc_user_id = rq_user rq, rc_ip_address = get_client_ip rq\<rparr>\<rparr>"
  obtain w1 where v: "api_view env r rq ?w = (res, w1)" "w' = w1\<lparr>w_context := w_context w\<rparr>"
    using assms by (auto simp: handle_api_def middleware_run split: prod.split_asm)
  show ?thesis
  proof (cases "al_authenticate (ae_lib env) rq")
    case None
    then show ?thesis using v by (auto simp: api_view_def split: if_split_asm)
  next
    case (Some u)
    show ?thesis
    proof (cases r)
      case (Read route)
      then show ?thesis using v Some by (auto simp: api_view_def split: if_split_asm)
    next
      case Export_endpoint
      show ?thesis
      proof (cases "al_throttles (ae_lib env) rq")
        case True
        then show ?thesis using v Some Export_endpoint by (auto simp: api_view_def)
      next
        case False
        let ?run = "run_export (se_cidr_in (ae_site env)) (rq_get rq) [(''via'', JStr ''api'')] (Some u) ?w :: page content res \<times> world"
      have "w1 = snd ?run" using v(1) Some Export_endpoint False by (auto simp: api_view_def bnd_split split: sum.split_asm)
      then have "w1 = ?w \<or> (\<exists>m. w1 = record_audit_log ''iran.export'' None SUCCESS m (Some u) None ?w)"
        using run_export_run[of "se_cidr_in (ae_site env)" "rq_get rq" "[(''via'', JStr ''api'')]" "Some u" ?w] by auto
      then show ?thesis using v(2) Some Export_endpoint
        by (auto simp: record_audit_log_def audit_row_def Let_def)
      qed
    qed
  qed
qed

section \<open>Examples\<close>

definition open_api :: api_env where
  "open_api = \<lparr>ae_lib =
     \<lparr>al_authenticate = (\<lambda>_. Some 7), al_negotiates = (\<lambda>_. True), al_throttles = (\<lambda>_. False), al_servers = (\<lambda>_ rows. Inr (map fst rows)), al_sources = (\<lambda>_ rows. Inr (map fst rows)),
      al_ips = (\<lambda>_ rows. Inr (map fst rows)), al_events = (\<lambda>_ rows. Inr (map fst rows)), al_iran_ips = (\<lambda>_ rows. Inr (map fst rows)),
      al_networks = (\<lambda>_ rows. Inr (map fst rows)), al_paginate = (\<lambda>_ ks. Inr ks)\<rparr>,
     ae_dt = \<lparr>dt_parse = (\<lambda>_. Inr None), dt_make_aware = (\<lambda>t. t)\<rparr>, ae_site = site_environment\<rparr>"

lemma api_only_reads_example:
  "\<exists>e. snd (handle_api open_api Export_endpoint (site_request None ''GET'') site_world) = site_world\<lparr>w_audit := add_row e (w_audit site_world)\<rparr>
     \<and> al_user e = Some 7"
proof -
  obtain res w' where run: "handle_api open_api Export_endpoint (site_request None ''GET'') site_world = (res, w')" by fastforce
  have "length (tb_rows (w_audit (snd (handle_api open_api Export_endpoint (site_request None ''GET'') site_world)))) = 1"
    "length (tb_rows (w_audit site_world)) = 0" by code_simp+
  then have "w' \<noteq> site_world" using run by auto
  then show ?thesis using api_only_reads[OF run] run by (auto simp: open_api_def)
qed

end
