(* ===== verification/Config.thy ===== *)
theory Config
  imports World
begin

text \<open>
  \<open>config/env.py\<close> and \<open>config/settings\<close>: the typed getters over the environment, the database URL with the part of
  \<open>urllib.parse.urlparse\<close> it uses, the settings computed from the environment, and the guards of the production
  settings. An environment maps names to values.
\<close>

section \<open>Getters\<close>

type_synonym environ = "string \<Rightarrow> string option"

definition env_str :: "environ \<Rightarrow> string \<Rightarrow> string \<Rightarrow> string" where
  "env_str e key dflt = (case e key of None \<Rightarrow> dflt | Some v \<Rightarrow> v)"

definition env_bool :: "environ \<Rightarrow> string \<Rightarrow> bool \<Rightarrow> bool" where
  "env_bool e key dflt =
     (case e key of None \<Rightarrow> dflt | Some v \<Rightarrow> py_lower (py_strip v) \<in> set [''1'', ''true'', ''yes'', ''on''])"

definition env_int :: "environ \<Rightarrow> string \<Rightarrow> int \<Rightarrow> int res" where
  "env_int e key dflt =
     (case e key of
        None \<Rightarrow> Inr dflt
      | Some v \<Rightarrow> if v = [] then Inr dflt else (case py_int v of Some n \<Rightarrow> Inr n | None \<Rightarrow> Inl ValueError))"

definition env_list :: "environ \<Rightarrow> string \<Rightarrow> string list \<Rightarrow> string list" where
  "env_list e key dflt =
     (case e key of
        None \<Rightarrow> dflt
      | Some v \<Rightarrow> if v = [] then dflt
                 else filter (\<lambda>s. s \<noteq> []) (map py_strip (split_on (CHR '','') v)))"

section \<open>URLs\<close>

definition ascii_letter :: "char \<Rightarrow> bool" where
  "ascii_letter c \<longleftrightarrow> 65 \<le> cp c \<and> cp c \<le> 90 \<or> 97 \<le> cp c \<and> cp c \<le> 122"

definition scheme_char :: "char \<Rightarrow> bool" where
  "scheme_char c \<longleftrightarrow> ascii_letter c \<or> ascii_digit c \<or> c \<in> set ''+-.''"

definition url_clean :: "string \<Rightarrow> string" where
  "url_clean s = filter (\<lambda>c. c \<notin> {CHR 0x09, CHR 0x0A, CHR 0x0D}) (dropWhile (\<lambda>c. cp c \<le> 32) s)"

record url =
  ur_scheme :: string
  ur_netloc :: string
  ur_path :: string

definition split_scheme :: "string \<Rightarrow> string \<times> string" where
  "split_scheme s =
     (case py_partition (CHR '':'') s of (a, found, b) \<Rightarrow>
        if found \<and> a \<noteq> [] \<and> ascii_letter (hd a) \<and> list_all scheme_char a then (py_lower a, b) else ([], s))"

definition url_end :: "char \<Rightarrow> bool" where
  "url_end c \<longleftrightarrow> c \<in> set ''/?#''"

definition urlparse :: "string \<Rightarrow> url" where
  "urlparse s =
     (let (scheme, rest) = split_scheme (url_clean s);
          (netloc, tail) = (if starts_with ''//'' rest
             then (takeWhile (\<lambda>c. \<not> url_end c) (drop 2 rest), dropWhile (\<lambda>c. \<not> url_end c) (drop 2 rest))
             else ([], rest))
      in \<lparr>ur_scheme = scheme, ur_netloc = netloc, ur_path = takeWhile (\<lambda>c. c \<notin> set ''?#'') tail\<rparr>)"

text \<open>\<open>netloc.rpartition("@")\<close>: the user part, when there is one, and the host part.\<close>

definition user_and_host :: "string \<Rightarrow> string option \<times> string" where
  "user_and_host netloc =
     (case rsplit1 (CHR ''@'') netloc of [u, h] \<Rightarrow> (Some u, h) | _ \<Rightarrow> (None, netloc))"

definition url_username :: "url \<Rightarrow> string" where
  "url_username u = (case fst (user_and_host (ur_netloc u)) of None \<Rightarrow> [] | Some s \<Rightarrow> fst (py_partition (CHR '':'') s))"

definition url_password :: "url \<Rightarrow> string" where
  "url_password u = (case fst (user_and_host (ur_netloc u)) of None \<Rightarrow> [] | Some s \<Rightarrow> snd (snd (py_partition (CHR '':'') s)))"

text \<open>\<open>_hostinfo\<close>: a bracketed address or a name, and the text of the port.\<close>

definition host_info :: "url \<Rightarrow> string \<times> string" where
  "host_info u =
     (let h = snd (user_and_host (ur_netloc u)) in
      case py_partition (CHR ''['') h of (_, bracket, b) \<Rightarrow>
        if bracket then (case py_partition (CHR '']'') b of (name, _, p) \<Rightarrow> (name, snd (snd (py_partition (CHR '':'') p))))
        else (case py_partition (CHR '':'') h of (name, _, p) \<Rightarrow> (name, p)))"

definition url_hostname :: "url \<Rightarrow> string" where
  "url_hostname u = py_lower (fst (host_info u))"

definition url_port :: "url \<Rightarrow> nat option res" where
  "url_port u =
     (let p = snd (host_info u) in
      if p = [] then Inr None
      else if ascii_digits p then (if digits_val p \<le> 65535 then Inr (Some (digits_val p)) else Inl ValueError)
      else Inl ValueError)"

record database =
  db_name :: string
  db_user :: string
  db_password :: string
  db_host :: string
  db_port :: string

definition parse_database_url :: "string \<Rightarrow> database res" where
  "parse_database_url s =
     (let u = urlparse s in
      if ur_scheme u \<notin> set [''postgres'', ''postgresql''] then Inl ValueError
      else res_bind (url_port u) (\<lambda>port.
        Inr \<lparr>db_name = dropWhile (\<lambda>c. c = CHR ''/'') (ur_path u), db_user = url_username u, db_password = url_password u,
             db_host = url_hostname u, db_port = nat_str (case port of None \<Rightarrow> 5432 | Some n \<Rightarrow> if n = 0 then 5432 else n)\<rparr>))"

section \<open>The settings\<close>

definition middleware :: "string list" where
  "middleware =
     [''django.middleware.security.SecurityMiddleware'', ''django.contrib.sessions.middleware.SessionMiddleware'',
      ''corsheaders.middleware.CorsMiddleware'', ''django.middleware.common.CommonMiddleware'',
      ''django.middleware.csrf.CsrfViewMiddleware'', ''django.contrib.auth.middleware.AuthenticationMiddleware'',
      ''django.contrib.messages.middleware.MessageMiddleware'', ''django.middleware.clickjacking.XFrameOptionsMiddleware'',
      ''apps.users.middleware.AuditLogMiddleware'']"

definition task_queue_names :: "string list" where
  "task_queue_names = [''logs'', ''ips'', ''whois'', ''iran'', ''maintenance'']"

record config =
  cf_secret_key :: string
  cf_debug :: bool
  cf_allowed_hosts :: "string list"
  cf_middleware :: "string list"
  cf_database :: database
  cf_conn_max_age :: int
  cf_time_zone :: string
  cf_redis_url :: string
  cf_prefetch_multiplier :: int
  cf_whois_concurrency :: int
  cf_access_token :: time
  cf_refresh_token :: time
  cf_cors_origins :: "string list"
  cf_session_age :: int
  cf_cookies_secure :: bool
  cf_ssl_redirect :: bool
  cf_log_format :: string
  cf_log_level :: string
  cf_django_log_level :: string
  cf_domain :: settings

definition database_of_env :: "environ \<Rightarrow> database res" where
  "database_of_env e =
     (let url = env_str e ''DATABASE_URL'' [] in
      if url \<noteq> [] then parse_database_url url
      else Inr \<lparr>db_name = env_str e ''POSTGRES_DB'' ''ipscout'', db_user = env_str e ''POSTGRES_USER'' ''ipscout'',
                db_password = env_str e ''POSTGRES_PASSWORD'' ''ipscout'', db_host = env_str e ''POSTGRES_HOST'' ''localhost'',
                db_port = env_str e ''POSTGRES_PORT'' ''5432''\<rparr>)"

text \<open>The knobs of the application itself, in the order they are read.\<close>

definition domain_of_env :: "environ \<Rightarrow> settings res" where
  "domain_of_env e =
     res_bind (env_int e ''WHOIS_TIMEOUT'' 10) (\<lambda>whois_timeout.
     res_bind (env_int e ''WHOIS_CACHE_DAYS'' 7) (\<lambda>cache_days.
     res_bind (env_int e ''REQUEST_RETENTION_DAYS'' 30) (\<lambda>request_days.
     res_bind (env_int e ''WHOIS_RETENTION_DAYS'' 180) (\<lambda>whois_days.
     res_bind (env_int e ''IP_RETENTION_DAYS'' 365) (\<lambda>ip_days.
     res_bind (env_int e ''INCIDENT_RETENTION_DAYS'' 365) (\<lambda>incident_days.
     res_bind (env_int e ''IRAN_RIPE_STATS_TIMEOUT'' 30) (\<lambda>ripe_timeout.
     res_bind (env_int e ''SSH_CONNECT_TIMEOUT'' 10) (\<lambda>ssh_timeout.
       Inr \<lparr>st_ssh_connect_timeout = ssh_timeout, st_whois_timeout = whois_timeout, st_whois_cache_days = cache_days,
            st_request_retention_days = request_days, st_whois_retention_days = whois_days, st_ip_retention_days = ip_days,
            st_incident_retention_days = incident_days,
            st_iran_cidr_source = env_str e ''IRAN_CIDR_SOURCE'' ''static'',
            st_geoip_provider = env_str e ''GEOIP_PROVIDER'' ''null'',
            st_geoip_database_path = env_str e ''GEOIP_DATABASE_PATH'' [],
            st_whois_binary = env_str e ''WHOIS_BINARY'' ''/usr/bin/whois'',
            st_iran_ripe_stats_url = env_str e ''IRAN_RIPE_STATS_URL''
              ''https://ftp.ripe.net/pub/stats/ripencc/delegated-ripencc-extended-latest'',
            st_iran_ripe_stats_timeout = ripe_timeout,
            st_ssh_credential_encryption_key = env_str e ''SSH_CREDENTIAL_ENCRYPTION_KEY'' []\<rparr>))))))))"

definition insecure_key :: string where "insecure_key = ''insecure-dev-key-change-me''"

definition base_settings :: "environ \<Rightarrow> config res" where
  "base_settings e =
     res_bind (database_of_env e) (\<lambda>db.
     res_bind (env_int e ''DATABASE_CONN_MAX_AGE'' 60) (\<lambda>max_age.
     res_bind (env_int e ''CELERY_WORKER_PREFETCH_MULTIPLIER'' 1) (\<lambda>prefetch.
     res_bind (env_int e ''WHOIS_QUEUE_CONCURRENCY'' 4) (\<lambda>concurrency.
     res_bind (env_int e ''JWT_ACCESS_TOKEN_MINUTES'' 30) (\<lambda>access.
     res_bind (env_int e ''JWT_REFRESH_TOKEN_DAYS'' 7) (\<lambda>refresh.
     res_bind (env_int e ''SESSION_COOKIE_AGE'' (60 * 60 * 8)) (\<lambda>age.
     res_bind (domain_of_env e) (\<lambda>domain.
       Inr \<lparr>cf_secret_key = env_str e ''DJANGO_SECRET_KEY'' insecure_key,
            cf_debug = env_bool e ''DJANGO_DEBUG'' False,
            cf_allowed_hosts = env_list e ''ALLOWED_HOSTS'' [''localhost'', ''127.0.0.1''],
            cf_middleware = middleware, cf_database = db, cf_conn_max_age = max_age,
            cf_time_zone = env_str e ''TIME_ZONE'' ''UTC'',
            cf_redis_url = env_str e ''REDIS_URL'' ''redis://localhost:6379/0'',
            cf_prefetch_multiplier = prefetch, cf_whois_concurrency = concurrency,
            cf_access_token = minutes access, cf_refresh_token = days refresh,
            cf_cors_origins = env_list e ''CORS_ALLOWED_ORIGINS'' [], cf_session_age = age,
            cf_cookies_secure = False, cf_ssl_redirect = False,
            cf_log_format = env_str e ''LOG_FORMAT'' ''console'', cf_log_level = env_str e ''LOG_LEVEL'' ''INFO'',
            cf_django_log_level = env_str e ''DJANGO_LOG_LEVEL'' ''INFO'', cf_domain = domain\<rparr>))))))))"

fun insert_after :: "'a \<Rightarrow> 'a \<Rightarrow> 'a list \<Rightarrow> 'a list" where
  "insert_after x y [] = []"
| "insert_after x y (z # zs) = (if z = x then z # y # zs else z # insert_after x y zs)"

definition production_settings :: "environ \<Rightarrow> config res" where
  "production_settings e =
     res_bind (base_settings e) (\<lambda>c.
       if cf_secret_key c = [] \<or> cf_secret_key c = insecure_key
       then Inl (RuntimeError ''DJANGO_SECRET_KEY must be set to a strong value in production.'')
       else if cf_allowed_hosts c = [] then Inl (RuntimeError ''ALLOWED_HOSTS must be set in production.'')
       else if st_ssh_credential_encryption_key (cf_domain c) = []
       then Inl (RuntimeError ''SSH_CREDENTIAL_ENCRYPTION_KEY must be set in production.'')
       else Inr (c\<lparr>cf_debug := False, cf_cookies_secure := True, cf_ssl_redirect := env_bool e ''SECURE_SSL_REDIRECT'' True,
                   cf_middleware := insert_after ''django.middleware.security.SecurityMiddleware''
                     ''whitenoise.middleware.WhiteNoiseMiddleware'' (cf_middleware c)\<rparr>))"

definition development_settings :: "environ \<Rightarrow> config res" where
  "development_settings e =
     res_bind (base_settings e) (\<lambda>c.
       Inr (c\<lparr>cf_debug := True, cf_allowed_hosts := [''*''],
              cf_middleware := ''debug_toolbar.middleware.DebugToolbarMiddleware'' # cf_middleware c\<rparr>))"

section \<open>Properties\<close>

lemma defaults: "domain_of_env (\<lambda>_. None) = Inr default_settings"
  by (simp add: domain_of_env_def env_int_def env_str_def default_settings_def)

lemma production_settings_iff:
  "production_settings e = Inr c \<longleftrightarrow> (\<exists>b. base_settings e = Inr b
     \<and> cf_secret_key b \<noteq> [] \<and> cf_secret_key b \<noteq> insecure_key \<and> cf_allowed_hosts b \<noteq> []
     \<and> st_ssh_credential_encryption_key (cf_domain b) \<noteq> []
     \<and> c = b\<lparr>cf_debug := False, cf_cookies_secure := True, cf_ssl_redirect := env_bool e ''SECURE_SSL_REDIRECT'' True,
             cf_middleware := insert_after ''django.middleware.security.SecurityMiddleware''
               ''whitenoise.middleware.WhiteNoiseMiddleware'' (cf_middleware b)\<rparr>)"
  by (auto simp: production_settings_def res_bind_Inr_iff split: if_split_asm)

lemma base_settings_values:
  assumes "base_settings e = Inr b"
  shows "cf_secret_key b = env_str e ''DJANGO_SECRET_KEY'' insecure_key" "cf_middleware b = middleware"
    "st_ssh_credential_encryption_key (cf_domain b) = env_str e ''SSH_CREDENTIAL_ENCRYPTION_KEY'' []"
    "cf_allowed_hosts b = env_list e ''ALLOWED_HOSTS'' [''localhost'', ''127.0.0.1'']"
  using assms by (auto simp: base_settings_def domain_of_env_def res_bind_Inr_iff)

text \<open>Production starts only when the secret key is not the published one and the credential key is given in the
  environment; the list of allowed hosts is not empty, which the default of an unset or empty variable satisfies too. Then debugging
  is off, cookies are secure, and the audit middleware runs inside session and authentication.\<close>

lemma production_is_guarded:
  assumes "production_settings e = Inr c"
  shows "(\<exists>k. e ''DJANGO_SECRET_KEY'' = Some k \<and> k \<noteq> [] \<and> k \<noteq> insecure_key) \<and> cf_allowed_hosts c \<noteq> []
    \<and> (\<exists>k. e ''SSH_CREDENTIAL_ENCRYPTION_KEY'' = Some k \<and> k \<noteq> [] \<and> st_ssh_credential_encryption_key (cf_domain c) = k)
    \<and> \<not> cf_debug c \<and> cf_cookies_secure c
    \<and> cf_middleware c = [hd middleware, ''whitenoise.middleware.WhiteNoiseMiddleware''] @ tl middleware
    \<and> last (cf_middleware c) = ''apps.users.middleware.AuditLogMiddleware''"
proof -
  obtain b where b: "base_settings e = Inr b" "cf_secret_key b \<noteq> []" "cf_secret_key b \<noteq> insecure_key" "cf_allowed_hosts b \<noteq> []"
    "st_ssh_credential_encryption_key (cf_domain b) \<noteq> []"
    and c: "c = b\<lparr>cf_debug := False, cf_cookies_secure := True, cf_ssl_redirect := env_bool e ''SECURE_SSL_REDIRECT'' True,
             cf_middleware := insert_after ''django.middleware.security.SecurityMiddleware''
               ''whitenoise.middleware.WhiteNoiseMiddleware'' (cf_middleware b)\<rparr>"
    using assms unfolding production_settings_iff by blast
  note v = base_settings_values[OF b(1)]
  have "\<exists>k. e ''DJANGO_SECRET_KEY'' = Some k \<and> k \<noteq> [] \<and> k \<noteq> insecure_key"
    using b(2,3) v(1) by (auto simp: env_str_def split: option.split_asm)
  moreover have "\<exists>k. e ''SSH_CREDENTIAL_ENCRYPTION_KEY'' = Some k \<and> k \<noteq> [] \<and> st_ssh_credential_encryption_key (cf_domain c) = k"
    using b(5) v(3) c by (auto simp: env_str_def split: option.split_asm)
  moreover have "insert_after ''django.middleware.security.SecurityMiddleware'' ''whitenoise.middleware.WhiteNoiseMiddleware'' middleware
      = [hd middleware, ''whitenoise.middleware.WhiteNoiseMiddleware''] @ tl middleware"
    by (simp add: middleware_def)
  ultimately show ?thesis using b(4) c v(2) by (simp add: middleware_def)
qed

text \<open>Every job of the application goes to one of the queues the workers are started for.\<close>

lemma jobs_have_a_queue: "queue_of j \<in> set task_queue_names"
  by (cases j) (simp_all add: task_queue_names_def)

lemma unset_hosts_accepted:
  assumes "e ''ALLOWED_HOSTS'' = None \<or> e ''ALLOWED_HOSTS'' = Some []" "base_settings e = Inr b"
  shows "cf_allowed_hosts b = [''localhost'', ''127.0.0.1'']"
  using base_settings_values(4)[OF assms(2)] assms(1) by (auto simp: env_list_def)

definition production_env :: environ where
  "production_env = map_of [(''DJANGO_SECRET_KEY'', ''s3cret''), (''SSH_CREDENTIAL_ENCRYPTION_KEY'', ''k''), (''ALLOWED_HOSTS'', ''a.ir, b.ir'')]"

lemma production_is_guarded_example:
  "\<exists>c. production_settings production_env = Inr c \<and> \<not> cf_debug c \<and> cf_cookies_secure c \<and> cf_allowed_hosts c = [''a.ir'', ''b.ir'']"
proof -
  obtain c where c: "production_settings production_env = Inr c" "cf_allowed_hosts c = [''a.ir'', ''b.ir'']"
    by (simp add: production_settings_def base_settings_def domain_of_env_def database_of_env_def env_int_def env_str_def env_list_def
        env_bool_def production_env_def insecure_key_def py_strip_def py_lstrip_def rstrip_with_def py_ws_def cp_def)
  then show ?thesis using production_is_guarded[OF c(1)] by blast
qed

section \<open>Database URLs round trip\<close>

definition plain_char :: "char \<Rightarrow> bool" where
  "plain_char c \<longleftrightarrow> 32 < cp c \<and> c \<notin> set ''/?#@:[]''"

definition plain :: "string \<Rightarrow> bool" where "plain s = list_all plain_char s"

definition database_url :: "database \<Rightarrow> string" where
  "database_url d = ''postgres://'' @ db_user d @ '':'' @ db_password d @ ''@'' @ db_host d @ '':'' @ db_port d @ ''/'' @ db_name d"

lemma plain_not: "plain s \<Longrightarrow> c \<in> set ''/?#@:[]'' \<Longrightarrow> c \<notin> set s"
  by (auto simp: plain_def plain_char_def list_all_iff)

lemma partition_at: "c \<notin> set u \<Longrightarrow> py_partition c (u @ c # v) = (u, True, v)"
  by (induction u) (auto simp: py_partition_def)

lemma partition_none: "c \<notin> set u \<Longrightarrow> py_partition c u = (u, False, [])"
  by (induction u) (auto simp: py_partition_def)

lemma takeWhile_stop: "list_all P u \<Longrightarrow> \<not> P c \<Longrightarrow> takeWhile P (u @ c # v) = u \<and> dropWhile P (u @ c # v) = c # v"
  by (induction u) auto

lemma rsplit1_at:
  assumes "c \<notin> set v" shows "rsplit1 c (u @ c # v) = [u, v]"
proof -
  have "list_all (\<lambda>x. x \<noteq> c) (rev v)" using assms by (auto simp: list_all_iff)
  from takeWhile_stop[OF this, of c "rev u"] show ?thesis by (simp add: rsplit1_def)
qed

lemma url_clean_id:
  assumes "list_all (\<lambda>c. 32 < cp c) s" shows "url_clean s = s"
proof -
  have "dropWhile (\<lambda>c. cp c \<le> 32) s = s" using assms by (cases s) auto
  moreover have "filter (\<lambda>c. c \<notin> {CHR 0x09, CHR 0x0A, CHR 0x0D}) s = s"
    unfolding filter_id_conv using assms by (auto simp: list_all_iff cp_def)
  ultimately show ?thesis by (simp add: url_clean_def)
qed

lemma split_scheme_at:
  "a \<noteq> [] \<Longrightarrow> ascii_letter (hd a) \<Longrightarrow> list_all scheme_char a \<Longrightarrow> CHR '':'' \<notin> set a \<Longrightarrow>
     split_scheme (a @ CHR '':'' # b) = (py_lower a, b)"
  by (simp add: split_scheme_def partition_at)

lemma url_end_cases: "\<not> url_end (CHR '':'')" "\<not> url_end (CHR ''@'')" "url_end (CHR ''/'')"
  by code_simp+

lemma plain_not_end: "plain s \<Longrightarrow> list_all (\<lambda>c. \<not> url_end c) s"
  unfolding list_all_iff plain_def plain_char_def url_end_def by auto

lemma nat_str_plain: "plain (nat_str n)"
  using nat_str_digits[of n] by (auto simp: plain_def plain_char_def list_all_iff ascii_digit_def cp_def)

text \<open>A database URL with a user, a password, a lower-case host, a port and a name of ordinary characters is read back
  into exactly these.\<close>

lemma database_url_roundtrip:
  assumes "plain (db_user d)" "plain (db_password d)" "plain (db_host d)" "py_lower (db_host d) = db_host d" "plain (db_name d)"
    and "db_port d = nat_str n" "0 < n" "n \<le> 65535"
  shows "parse_database_url (database_url d) = Inr d"
proof -
  let ?netloc = "db_user d @ '':'' @ db_password d @ ''@'' @ db_host d @ '':'' @ db_port d"
  have port: "plain (db_port d)" using assms(6) nat_str_plain by simp
  have pl: "list_all (\<lambda>c. 32 < cp c) s" if "plain s" for s
    using that by (simp add: plain_def plain_char_def list_all_iff)
  have "list_all (\<lambda>c. 32 < cp c) (database_url d)"
    using pl[OF assms(1)] pl[OF assms(2)] pl[OF assms(3)] pl[OF assms(5)] pl[OF port] by (simp add: database_url_def cp_def)
  then have clean: "url_clean (database_url d) = database_url d" by (rule url_clean_id)
  have scheme: "split_scheme (database_url d) = (''postgres'', ''//'' @ ?netloc @ ''/'' @ db_name d)"
  proof -
    have u: "database_url d = ''postgres'' @ CHR '':'' # (''//'' @ ?netloc @ ''/'' @ db_name d)" by (simp add: database_url_def)
    have l: "''postgres'' \<noteq> []" "ascii_letter (hd ''postgres'')" "list_all scheme_char ''postgres''" "CHR '':'' \<notin> set ''postgres''"
      by code_simp+
    have low: "py_lower ''postgres'' = ''postgres''" by code_simp
    show ?thesis using split_scheme_at[OF l] unfolding u low .
  qed
  have "list_all (\<lambda>c. \<not> url_end c) ?netloc"
    using assms(1-3)[THEN plain_not_end] port[THEN plain_not_end] by (simp add: url_end_cases)
  then have net: "takeWhile (\<lambda>c. \<not> url_end c) (?netloc @ ''/'' @ db_name d) = ?netloc"
    "dropWhile (\<lambda>c. \<not> url_end c) (?netloc @ ''/'' @ db_name d) = ''/'' @ db_name d"
    using takeWhile_stop[of "\<lambda>c. \<not> url_end c" ?netloc "CHR ''/''" "db_name d"] url_end_cases(3) by simp_all
  have "takeWhile (\<lambda>c. c \<notin> set ''?#'') (''/'' @ db_name d) = ''/'' @ db_name d"
    using plain_not[OF assms(5)] by (intro takeWhile_eq_all_conv[THEN iffD2]) auto
  then have url: "urlparse (database_url d) = \<lparr>ur_scheme = ''postgres'', ur_netloc = ?netloc, ur_path = ''/'' @ db_name d\<rparr>"
    using net by (simp add: urlparse_def clean scheme starts_with_def)
  have "CHR ''@'' \<notin> set (db_host d @ '':'' @ db_port d)" using plain_not[OF assms(3)] plain_not[OF port] by auto
  then have uh: "user_and_host ?netloc = (Some (db_user d @ '':'' @ db_password d), db_host d @ '':'' @ db_port d)"
    using rsplit1_at[of "CHR ''@''" "db_host d @ '':'' @ db_port d" "db_user d @ '':'' @ db_password d"]
    by (simp add: user_and_host_def)
  have up: "py_partition (CHR '':'') (db_user d @ '':'' @ db_password d) = (db_user d, True, db_password d)"
    using partition_at[of "CHR '':''" "db_user d" "db_password d"] plain_not[OF assms(1)] by simp
  have hp: "py_partition (CHR '':'') (db_host d @ '':'' @ db_port d) = (db_host d, True, db_port d)"
    using partition_at[of "CHR '':''" "db_host d" "db_port d"] plain_not[OF assms(3)] by simp
  have "py_partition (CHR ''['') (db_host d @ '':'' @ db_port d) = (db_host d @ '':'' @ db_port d, False, [])"
    by (rule partition_none) (use plain_not[OF assms(3)] plain_not[OF port] in auto)
  then have hi: "host_info \<lparr>ur_scheme = ''postgres'', ur_netloc = ?netloc, ur_path = ''/'' @ db_name d\<rparr> = (db_host d, db_port d)"
    using hp unfolding host_info_def url.simps uh by simp
  have digits: "ascii_digits (db_port d)" using assms(6) nat_str_digits by (simp add: ascii_digits_def)
  have name: "dropWhile (\<lambda>c. c = CHR ''/'') (''/'' @ db_name d) = db_name d"
    using plain_not[OF assms(5), of "CHR ''/''"] by (cases "db_name d") auto
  show ?thesis
    using assms(4,6-8) digits name
    unfolding parse_database_url_def url Let_def url_port_def hi url_username_def url_password_def url_hostname_def url.simps uh fst_conv snd_conv
      option.case up by simp
qed

lemma database_url_roundtrip_example:
  "parse_database_url ''postgres://scout:pw@db.local:5433/ipscout'' =
     Inr \<lparr>db_name = ''ipscout'', db_user = ''scout'', db_password = ''pw'', db_host = ''db.local'', db_port = ''5433''\<rparr>"
proof -
  let ?d = "\<lparr>db_name = ''ipscout'', db_user = ''scout'', db_password = ''pw'', db_host = ''db.local'', db_port = ''5433''\<rparr>"
  have n: "db_port ?d = nat_str 5433" by code_simp
  have p: "plain (db_user ?d)" "plain (db_password ?d)" "plain (db_host ?d)" "py_lower (db_host ?d) = db_host ?d" "plain (db_name ?d)"
    by code_simp+
  have b: "0 < (5433::nat)" "(5433::nat) \<le> 65535" by simp_all
  have u: "database_url ?d = ''postgres://scout:pw@db.local:5433/ipscout''" by code_simp
  show ?thesis using database_url_roundtrip[OF p n b] unfolding u .
qed

end
