(* ===== verification/Encrypted_Field.thy ===== *)
theory Encrypted_Field
  imports Web Py_Sha256
begin

text \<open>
  The encrypted column of \<open>src/apps/common/fields.py\<close>: what is written for a credential and what a read of the
  column gives back. Fernet itself is the \<open>cryptography\<close> package, a record of three functions here; what is
  relied on is its contract \<open>fernet_ok\<close>: a token decrypts under its key to the message, and is never empty.
  The last section puts the column under the edit form of a server.
\<close>

section \<open>The column\<close>

type_synonym bytes = "nat list"

text \<open>\<open>fe_encrypt\<close> takes the key, the initialisation vector it draws and the message; \<open>fe_decrypt\<close> is
  None for \<open>InvalidToken\<close>; \<open>fe_key_ok\<close> holds of the keys the constructor accepts.\<close>

record fernet =
  fe_key_ok :: "string \<Rightarrow> bool"
  fe_encrypt :: "string \<Rightarrow> nat \<Rightarrow> bytes \<Rightarrow> string"
  fe_decrypt :: "string \<Rightarrow> string \<Rightarrow> bytes option"

definition fernet_of :: "fernet \<Rightarrow> string \<Rightarrow> string res" where
  "fernet_of f key =
     (if key = [] then Inl encryption_error
      else if fe_key_ok f key then Inr key else Inl ValueError)"

text \<open>\<open>bytes.decode()\<close> on the encodings of the modelled characters; UnicodeDecodeError is a ValueError.\<close>

fun utf8_decode :: "bytes \<Rightarrow> string option" where
  "utf8_decode [] = Some []"
| "utf8_decode (b # bs) =
     (if b < 128 then map_option (Cons (char_of b)) (utf8_decode bs)
      else if b = 194 \<or> b = 195 then
        (case bs of
           [] \<Rightarrow> None
         | c # cs \<Rightarrow> if 128 \<le> c \<and> c < 192 then map_option (Cons (char_of ((b - 192) * 64 + (c - 128)))) (utf8_decode cs) else None)
      else None)"

definition get_prep_value :: "fernet \<Rightarrow> string \<Rightarrow> nat \<Rightarrow> string option \<Rightarrow> string option res" where
  "get_prep_value f key iv v =
     (case v of
        None \<Rightarrow> Inr None
      | Some s \<Rightarrow>
          if s = [] then Inr (Some [])
          else res_bind (fernet_of f key) (\<lambda>k. Inr (Some (fe_encrypt f k iv (utf8 s)))))"

definition from_db_value :: "fernet \<Rightarrow> string \<Rightarrow> string option \<Rightarrow> string option res" where
  "from_db_value f key v =
     (case v of
        None \<Rightarrow> Inr None
      | Some s \<Rightarrow>
          if s = [] then Inr (Some [])
          else res_bind (fernet_of f key) (\<lambda>k.
            case fe_decrypt f k s of
              None \<Rightarrow> Inr (Some [])
            | Some m \<Rightarrow> (case utf8_decode m of None \<Rightarrow> Inl ValueError | Some t \<Rightarrow> Inr (Some t))))"

section \<open>The contract of Fernet\<close>

definition fernet_ok :: "fernet \<Rightarrow> bool" where
  "fernet_ok f \<longleftrightarrow> (\<forall>k iv m. fe_key_ok f k \<longrightarrow> list_all (\<lambda>b. b < 256) m \<longrightarrow>
     fe_decrypt f k (fe_encrypt f k iv m) = Some m \<and> fe_encrypt f k iv m \<noteq> [])"

lemma utf8_decode_utf8: "utf8_decode (utf8 s) = Some s"
proof (induction s)
  case (Cons c s)
  have lt: "cp c < 256" by simp
  have split: "utf8 (c # s) = (if cp c < 128 then [cp c] else [192 + cp c div 64, 128 + cp c mod 64]) @ utf8 s"
    by (simp add: utf8_def)
  have c: "char_of (cp c) = c" by (simp add: cp_def)
  show ?case
  proof (cases "cp c < 128")
    case True then show ?thesis using Cons c by (simp add: split)
  next
    case False
    then have "cp c div 64 = 2 \<or> cp c div 64 = 3"
      using less_mult_imp_div_less[of "cp c" 4 64] div_le_mono[of 128 "cp c" 64] lt by simp linarith
    then have "192 + cp c div 64 = 194 \<or> 192 + cp c div 64 = 195" by auto
    moreover have "(192 + cp c div 64 - 192) * 64 + (128 + cp c mod 64 - 128) = cp c" by simp
    ultimately show ?thesis using False Cons c by (auto simp: split)
  qed
qed (simp add: utf8_def)

lemma utf8_bytes: "list_all (\<lambda>b. b < 256) (utf8 s)"
proof -
  have "192 + cp c div 64 < 256 \<and> 128 + cp c mod 64 < 256" for c
    using less_mult_imp_div_less[of "cp c" 4 64] mod_less_divisor[of 64 "cp c"] cp_less[of c] by simp
  then show ?thesis by (induction s) (simp_all add: utf8_def)
qed

lemma stored_credential:
  assumes "fernet_ok f" "fe_key_ok f key" "key \<noteq> []" "s \<noteq> []"
  shows "get_prep_value f key iv (Some s) = Inr (Some (fe_encrypt f key iv (utf8 s)))"
    and "fe_encrypt f key iv (utf8 s) \<noteq> []"
    and "from_db_value f key (Some (fe_encrypt f key iv (utf8 s))) = Inr (Some s)"
  using assms utf8_bytes[of s] by (auto simp: get_prep_value_def from_db_value_def fernet_of_def fernet_ok_def utf8_decode_utf8)

text \<open>C33: A credential written under a valid key is read back unchanged under it, the column never holds the credential's
  text as an empty value, and the empty credential needs no key at all.\<close>

theorem credential_roundtrip:
  assumes "fernet_ok f" "fe_key_ok f key" "key \<noteq> []"
  shows "(\<exists>stored. get_prep_value f key iv (Some s) = Inr (Some stored) \<and> (stored = [] \<longleftrightarrow> s = [])
      \<and> from_db_value f key (Some stored) = Inr (Some s))
    \<and> get_prep_value f k' iv (Some []) = Inr (Some []) \<and> from_db_value f k' (Some []) = Inr (Some [])"
proof (cases "s = []")
  case True then show ?thesis by (simp add: get_prep_value_def from_db_value_def)
next
  case False
  show ?thesis using stored_credential[OF assms False, of iv] False by (simp add: get_prep_value_def from_db_value_def)
qed

section \<open>The column under the edit form\<close>

text \<open>The instance of the edit view is read from the database, takes the form's values and is saved with every column:
  what becomes of the stored credential.\<close>

definition resave_credential :: "fernet \<Rightarrow> string \<Rightarrow> nat \<Rightarrow> server_form \<Rightarrow> server \<Rightarrow> string \<Rightarrow> string option res" where
  "resave_credential f key iv form s stored =
     res_bind (from_db_value f key (Some stored)) (\<lambda>v.
       get_prep_value f key iv (map_option
         (\<lambda>t. sv_ssh_private_key (server_form_apply form (s\<lparr>sv_ssh_private_key := t\<rparr>))) v))"

text \<open>C34: Saving the edit form with the credential left blank keeps the stored credential as long as the key is the one it was
  written under. After the key was exchanged for another valid one the same save writes an empty column: going back to the old
  key does not bring the credential back.\<close>

theorem rotated_key_erases_credential:
  assumes "fernet_ok f" "fe_key_ok f old" "old \<noteq> []" "cred \<noteq> []" "get_prep_value f old iv (Some cred) = Inr (Some stored)"
    and "fe_key_ok f new" "new \<noteq> []" "fe_decrypt f new stored = None" "fm_key form = []"
  shows "(\<exists>kept. resave_credential f old iv' form s stored = Inr (Some kept) \<and> from_db_value f old (Some kept) = Inr (Some cred))
    \<and> from_db_value f new (Some stored) = Inr (Some [])
    \<and> resave_credential f new iv' form s stored = Inr (Some [])
    \<and> from_db_value f old (Some []) = Inr (Some [])"
proof -
  note old = stored_credential[OF assms(1-4)]
  have st: "stored = fe_encrypt f old iv (utf8 cred)" using assms(5) old(1)[of iv] by simp
  have ne: "stored \<noteq> []" using old(2)[of iv] st by simp
  have key: "sv_ssh_private_key (server_form_apply form (s\<lparr>sv_ssh_private_key := t\<rparr>)) = t" for t
    using assms(9) by (simp add: server_form_apply_def Let_def)
  have "resave_credential f old iv' form s stored = Inr (Some (fe_encrypt f old iv' (utf8 cred)))"
    using old(1)[of iv'] old(3)[of iv] by (simp add: resave_credential_def st key)
  moreover have "from_db_value f new (Some stored) = Inr (Some [])"
    using ne assms(6-8) by (simp add: from_db_value_def fernet_of_def)
  ultimately show ?thesis using old(3)[of iv'] key by (simp add: resave_credential_def get_prep_value_def) (simp add: from_db_value_def)
qed

section \<open>Witnesses\<close>

text \<open>A cipher with the contract of Fernet, though not its secrecy: the key in front of the bytes of the message.\<close>

definition plain_fernet :: fernet where
  "plain_fernet =
     \<lparr>fe_key_ok = (\<lambda>k. k \<in> {''old'', ''new''}), fe_encrypt = (\<lambda>k iv m. k @ '':'' @ map char_of m),
      fe_decrypt = (\<lambda>k s. if take 4 s = k @ '':'' then Some (map cp (drop 4 s)) else None)\<rparr>"

definition blank_key_form :: server_form where
  "blank_key_form =
     \<lparr>fm_fields = \<lparr>sf_name = ''web'', sf_hostname = ''web.local'', sf_ip_address = None, sf_ssh_port = 22, sf_ssh_username = ''scout'',
        sf_ssh_auth_type = SSH_KEY, sf_enabled = True\<rparr>, fm_key = [], fm_paths = []\<rparr>"

lemma plain_fernet_ok: "fernet_ok plain_fernet"
proof -
  have "map cp (map char_of m) = m" if "list_all (\<lambda>b. b < 256) m" for m
    using that by (induction m) simp_all
  then show ?thesis by (auto simp: fernet_ok_def plain_fernet_def)
qed

theorem credential_roundtrip_witness:
  "\<exists>stored. get_prep_value plain_fernet ''old'' 0 (Some ''secret'') = Inr (Some stored)
     \<and> from_db_value plain_fernet ''old'' (Some stored) = Inr (Some ''secret'')"
proof -
  have "fe_key_ok plain_fernet ''old''" "''old'' \<noteq> []" by (simp_all add: plain_fernet_def)
  from credential_roundtrip[OF plain_fernet_ok this] show ?thesis by blast
qed

theorem rotated_key_erases_credential_witness:
  "resave_credential plain_fernet ''new'' 0 blank_key_form (blank_server 0) ''old:secret'' = Inr (Some [])"
proof -
  have "get_prep_value plain_fernet ''old'' 0 (Some ''secret'') = Inr (Some ''old:secret'')" by code_simp
  moreover have "fe_key_ok plain_fernet ''old''" "''old'' \<noteq> []" "''secret'' \<noteq> []" "fe_key_ok plain_fernet ''new''" "''new'' \<noteq> []"
    "fe_decrypt plain_fernet ''new'' ''old:secret'' = None" "fm_key blank_key_form = []"
    by (simp_all add: plain_fernet_def blank_key_form_def)
  ultimately show ?thesis
    using rotated_key_erases_credential[OF plain_fernet_ok, of "''old''" "''secret''" 0 "''old:secret''" "''new''"
        "blank_key_form" 0 "blank_server 0"] by simp
qed

end
