(* ===== verification/Task_Laws.thy ===== *)
theory Task_Laws
  imports Site_Data Log_Reader Whois_Tasks Geo Retention
begin

text \<open>
  What every Celery task keeps, whatever the outside world answers: the database stays well formed, the
  networks canonical, the histories consistent; the audit log only grows, and an address keeps its identity.
\<close>

section \<open>The state and how it evolves\<close>

definition state_ok :: "world \<Rightarrow> bool" where
  "state_ok w \<longleftrightarrow> db_ok w \<and> cidrs_ok w \<and> histories_ok w"

definition same_address :: "ip_row \<Rightarrow> ip_row \<Rightarrow> bool" where
  "same_address r r' \<longleftrightarrow> ia_address r' = ia_address r \<and> ia_version r' = ia_version r
     \<and> ia_first_seen_at r' = ia_first_seen_at r \<and> ia_created_at r' = ia_created_at r \<and> ia_last_seen_at r \<le> ia_last_seen_at r'"

text \<open>Rows may appear under new keys and disappear, but a key never comes to mean another address.\<close>

definition ips_evolve :: "ip_row table \<Rightarrow> ip_row table \<Rightarrow> bool" where
  "ips_evolve t t' \<longleftrightarrow> tb_seq t \<le> tb_seq t' \<and>
     (\<forall>k r'. get_row k t' = Some r' \<longrightarrow> k \<le> tb_seq t \<longrightarrow> (\<exists>r. get_row k t = Some r \<and> same_address r r'))"

definition log_grows :: "audit_entry table \<Rightarrow> audit_entry table \<Rightarrow> bool" where
  "log_grows t t' \<longleftrightarrow> (\<exists>es. row_values t' = row_values t @ es)"

definition evolves :: "world \<Rightarrow> world \<Rightarrow> bool" where
  "evolves w w' \<longleftrightarrow> w_now w \<le> w_now w' \<and> log_grows (w_audit w) (w_audit w') \<and> ips_evolve (w_ips w) (w_ips w')"

definition good :: "world \<Rightarrow> world \<Rightarrow> bool" where
  "good w w' \<longleftrightarrow> (state_ok w \<longrightarrow> state_ok w' \<and> evolves w w')"

lemma same_address_refl [simp, intro]: "same_address r r"
  by (simp add: same_address_def)

lemma same_address_trans: "same_address r s \<Longrightarrow> same_address s t \<Longrightarrow> same_address r t"
  by (auto simp: same_address_def)

lemma ips_evolve_refl [simp, intro]: "ips_evolve t t"
  by (auto simp: ips_evolve_def)

lemma ips_evolve_trans:
  assumes "ips_evolve a b" "ips_evolve b c" shows "ips_evolve a c"
  unfolding ips_evolve_def
proof (intro conjI allI impI)
  show "tb_seq a \<le> tb_seq c" using assms by (simp add: ips_evolve_def)
  fix k r assume r: "get_row k c = Some r" and k: "k \<le> tb_seq a"
  then have "k \<le> tb_seq b" using assms(1) by (simp add: ips_evolve_def)
  then obtain s where s: "get_row k b = Some s" "same_address s r" using assms(2) r by (auto simp: ips_evolve_def)
  then obtain q where "get_row k a = Some q" "same_address q s" using assms(1) k by (auto simp: ips_evolve_def)
  then show "\<exists>q. get_row k a = Some q \<and> same_address q r" using s(2) same_address_trans by blast
qed

lemma log_grows_refl [simp, intro]: "log_grows t t"
  by (simp add: log_grows_def)

lemma log_grows_add [simp]: "log_grows t (add_row e t)"
  by (simp add: log_grows_def)

lemma log_grows_trans: "log_grows a b \<Longrightarrow> log_grows b c \<Longrightarrow> log_grows a c"
  by (auto simp: log_grows_def)

lemma evolves_refl [simp, intro]: "evolves w w"
  by (simp add: evolves_def)

lemma evolves_trans: "evolves a b \<Longrightarrow> evolves b c \<Longrightarrow> evolves a c"
  unfolding evolves_def using log_grows_trans ips_evolve_trans by (meson order_trans)

lemma good_refl [simp, intro]: "good w w"
  by (simp add: good_def)

lemma good_trans [trans]: "good a b \<Longrightarrow> good b c \<Longrightarrow> good a c"
  unfolding good_def using evolves_trans by blast

lemmas state_parts = db_parts cidrs_ok_def nets_ok_def histories_ok_def

section \<open>Changes that keep the state\<close>

lemma state_ok_frame [simp]:
  "state_ok (w\<lparr>w_cache := c\<rparr>) = state_ok w" "state_ok (w\<lparr>w_jobs := js\<rparr>) = state_ok w" "state_ok (w\<lparr>w_context := x\<rparr>) = state_ok w"
  by (simp_all add: state_ok_def state_parts)

lemma evolves_frame [simp]:
  "evolves w (w'\<lparr>w_cache := c\<rparr>) = evolves w w'" "evolves w (w'\<lparr>w_jobs := js\<rparr>) = evolves w w'"
  "evolves w (w'\<lparr>w_context := x\<rparr>) = evolves w w'"
  "evolves (w\<lparr>w_cache := c\<rparr>) w' = evolves w w'" "evolves (w\<lparr>w_jobs := js\<rparr>) w' = evolves w w'"
  "evolves (w\<lparr>w_context := x\<rparr>) w' = evolves w w'"
  by (simp_all add: evolves_def)

lemma good_frame [simp]:
  "good w (w'\<lparr>w_cache := c\<rparr>) = good w w'" "good w (w'\<lparr>w_jobs := js\<rparr>) = good w w'" "good w (w'\<lparr>w_context := x\<rparr>) = good w w'"
  "good (w\<lparr>w_cache := c\<rparr>) w' = good w w'" "good (w\<lparr>w_jobs := js\<rparr>) w' = good w w'" "good (w\<lparr>w_context := x\<rparr>) w' = good w w'"
  by (simp_all add: good_def)

lemma good_delay [simp]: "good w (delay j w') = good w w'" "good w (delays js w') = good w w'"
  by (simp_all add: delay_def delays_def)

lemma lock_rule:
  assumes "\<And>c. Q (snd (body (w\<lparr>w_cache := c\<rparr>)))" "\<And>w' c. Q w' \<Longrightarrow> Q (w'\<lparr>w_cache := c\<rparr>)" "Q w"
  shows "Q (snd (redis_lock key timeout body w))"
proof (cases "cache_add key timeout (w_now w) (w_cache w)")
  case (Pair b c)
  then show ?thesis using assms
    by (cases b) (simp_all add: redis_lock_def release_def case_prod_beta Let_def)
qed

lemma good_lock:
  assumes "\<And>c. good w (snd (body (w\<lparr>w_cache := c\<rparr>)))"
  shows "good w (snd (redis_lock key timeout body w))"
  by (rule lock_rule) (simp_all add: assms)

lemma good_skip: "good w (snd (m w)) \<Longrightarrow> good w (snd (skip_if_held m w))"
  by (auto simp: skip_if_held_def split: prod.split sum.split py_exn.split)

lemma good_audit: "good w (record_audit_log a ob r m u i w)"
proof -
  let ?w = "record_audit_log a ob r m u i w"
  have "db_ok w \<Longrightarrow> db_ok ?w" by (rule db_ok_recorded)
  moreover have "w_cidrs ?w = w_cidrs w" "w_ips ?w = w_ips w" "w_history ?w = w_history w" "w_now ?w = w_now w" by simp_all
  ultimately show ?thesis
    by (auto simp: good_def state_ok_def cidrs_ok_def nets_ok_def cidrs_unique_def histories_ok_def evolves_def)
qed

text \<open>Updates of an address that leave alone what its history and identity rest on.\<close>

lemma unique_on_update:
  "unique_on key t \<Longrightarrow> (\<And>r. key (f r) = key r) \<Longrightarrow> unique_on key (update_rows P f t)"
  by (simp add: rows_unique_def get_update_rows) (metis (mono_tags, lifting))

lemma good_update_ips:
  assumes "\<And>r. same_address r (f r)" "\<And>r. ia_is_iran (f r) = ia_is_iran r" "\<And>r. ia_iran_match_cidr (f r) = ia_iran_match_cidr r"
  shows "good w (w\<lparr>w_ips := update_rows P f (w_ips w)\<rparr>)"
proof -
  have ad: "ia_address (f r) = ia_address r" for r using assms(1) by (simp add: same_address_def)
  have "unique_on ia_address (update_rows P f (w_ips w))" if "unique_on ia_address (w_ips w)"
    using unique_on_update[OF that, of f P] ad by blast
  moreover have "all_rows (\<lambda>k r. address_ok r \<and> periods_ok (w_now w) r (periods_of k (w_history w))) (update_rows P f (w_ips w))"
    if "all_rows (\<lambda>k r. address_ok r \<and> periods_ok (w_now w) r (periods_of k (w_history w))) (w_ips w)"
  proof -
    have "address_ok (f r) \<longleftrightarrow> address_ok r" "periods_ok now (f r) ps \<longleftrightarrow> periods_ok now r ps" for r now ps
      unfolding address_ok_def periods_ok_def ad assms(2,3) by simp_all
    then show ?thesis using that by (auto simp: rows_hold_def get_update_rows)
  qed
  moreover have "ips_evolve (w_ips w) (update_rows P f (w_ips w))"
    using assms(1) by (auto simp: ips_evolve_def get_update_rows)
  ultimately show ?thesis by (simp add: good_def state_ok_def state_parts evolves_def)
qed

lemma good_update_ip:
  assumes "\<And>r. same_address r (f r)" "\<And>r. ia_is_iran (f r) = ia_is_iran r" "\<And>r. ia_iran_match_cidr (f r) = ia_iran_match_cidr r"
  shows "good w (w\<lparr>w_ips := update_row k f (w_ips w)\<rparr>)"
  unfolding update_row_def by (rule good_update_ips) (rule assms)+

lemma good_other_tables:
  assumes "db_ok w \<Longrightarrow> db_ok w'"
    and "w_ips w' = w_ips w" "w_history w' = w_history w" "w_cidrs w' = w_cidrs w" "w_audit w' = w_audit w" "w_now w' = w_now w"
  shows "good w w'"
  using assms by (auto simp: good_def state_ok_def cidrs_ok_def nets_ok_def cidrs_unique_def histories_ok_def evolves_def)

section \<open>Classification\<close>

lemma db_ok_update_ip:
  assumes "db_ok w" "\<And>r. ia_address (f r) = ia_address r" shows "db_ok (w\<lparr>w_ips := update_row k f (w_ips w)\<rparr>)"
proof -
  have "unique_on ia_address (w_ips w)" using assms(1) by (simp add: db_parts)
  then have "unique_on ia_address (update_row k f (w_ips w))"
    unfolding update_row_def by (rule unique_on_update) (rule assms(2))
  then show ?thesis using assms(1) by (simp add: db_parts)
qed

lemma db_ok_record_change:
  assumes "db_ok w" "has_row (w_ips w) k" shows "db_ok (w\<lparr>w_history := record_change k v now (w_history w)\<rparr>)"
proof -
  let ?ok = "\<lambda>_ h. has_row (w_ips w) (ch_ip h)"
  have t: "table_ok (w_history w)" "all_rows ?ok (w_history w)" using assms(1) by (simp_all add: db_parts)
  have c: "table_ok (close_open_periods k now (w_history w))" "all_rows ?ok (close_open_periods k now (w_history w))"
    using t by (auto simp: close_open_periods_def rows_hold_def get_update_rows)
  have "table_ok (record_change k v now (w_history w)) \<and> all_rows ?ok (record_change k v now (w_history w))"
    using c assms(2) by (auto simp: record_change_def Let_def open_period_def rows_hold_def get_add_row)
  then show ?thesis using assms(1) by (simp add: db_parts)
qed

lemma apply_verdict_simps [simp]:
  "ia_address (apply_verdict v now r) = ia_address r" "same_address r (apply_verdict v now r)"
  "same_address r ((apply_verdict v now r)\<lparr>ia_updated_at := u\<rparr>)"
  by (simp_all add: apply_verdict_def same_address_def)

lemma ips_evolve_update: "(\<And>r. same_address r (f r)) \<Longrightarrow> ips_evolve t (update_row k f t)"
  by (auto simp: ips_evolve_def get_update_row update_row_def[of k f t] get_update_rows)

lemma classify_db:
  assumes "db_ok w" "has_row (w_ips w) k" shows "db_ok (snd (classify k ip w))"
proof (cases "find_matching_cidr (ia_address ip) w")
  case (Inr m)
  let ?v = "verdict_of m (ia_whois_country ip)"
  let ?h = "if vd_is_iran ?v \<noteq> ia_is_iran ip \<or> vd_cidr ?v \<noteq> ia_iran_match_cidr ip then record_change k ?v (w_now w) (w_history w) else w_history w"
  have "db_ok (w\<lparr>w_history := ?h\<rparr>)" using assms db_ok_record_change[OF assms] by simp
  from db_ok_update_ip[OF this, of "\<lambda>r. (apply_verdict ?v (w_now w) r)\<lparr>ia_updated_at := w_now w\<rparr>" k]
  show ?thesis using Inr by (simp add: classify_def Let_def)
qed (use assms in \<open>simp add: classify_def\<close>)

lemma classify_evolves: "evolves w (snd (classify k ip w))"
  by (auto simp: classify_def Let_def evolves_def intro!: ips_evolve_update split: sum.split)

lemma good_classify:
  assumes "get_row k (w_ips w) = Some ip" shows "good w (snd (classify k ip w))"
  unfolding good_def
proof
  assume ok: "state_ok w"
  then have h: "histories_ok w" by (simp add: state_ok_def)
  obtain ips h where c: "snd (classify k ip w) = w\<lparr>w_history := h, w_ips := ips\<rparr>" "histories_ok (w\<lparr>w_history := h, w_ips := ips\<rparr>)"
    using classify_spec[OF assms h] by auto
  have "cidrs_ok (snd (classify k ip w))" using ok unfolding c(1) by (simp add: state_ok_def cidrs_ok_def nets_ok_def cidrs_unique_def)
  moreover have "db_ok (snd (classify k ip w))"
    using ok assms by (intro classify_db) (simp_all add: state_ok_def has_row_def)
  ultimately show "state_ok (snd (classify k ip w)) \<and> evolves w (snd (classify k ip w))"
    using c classify_evolves[of w k ip] by (simp add: state_ok_def)
qed

lemma classify_others: "j \<noteq> k \<Longrightarrow> get_row j (w_ips (snd (classify k ip w))) = get_row j (w_ips w)"
  by (simp add: classify_def Let_def get_update_row split: sum.split)

lemma good_classify_all:
  "\<forall>(k, ip)\<in>set xs. get_row k (w_ips w) = Some ip \<Longrightarrow> distinct (map fst xs) \<Longrightarrow> good w (snd (classify_all xs w))"
proof (induction xs arbitrary: w)
  case (Cons x xs)
  obtain k ip where x: "x = (k, ip)" by (cases x)
  obtain r w1 where c: "classify k ip w = (r, w1)" by (cases "classify k ip w")
  have g: "good w w1" using good_classify[of k w ip] Cons.prems(1) c by (simp add: x)
  have "get_row j (w_ips w1) = Some q" if "(j, q) \<in> set xs" for j q
    using that Cons.prems classify_others[of j k ip w] c by (force simp: x)
  then have "good w1 (snd (classify_all xs w1))" using Cons.prems(2) by (intro Cons.IH) (auto simp: x)
  then have "good w (snd (classify_all xs w1))" by (rule good_trans[OF g])
  then show ?case using c g by (auto simp: x split: sum.split prod.split)
qed simp

lemma good_classify_ip: "good w (snd (classify_ip k w))"
proof (cases "get_row k (w_ips w)")
  case (Some ip)
  have "good w (snd (case classify k ip (w\<lparr>w_cache := c\<rparr>) of (Inl e, w') \<Rightarrow> (Inl e, w') | (Inr _, w') \<Rightarrow> (Inr (), w')))" for c
    using good_classify[of k "w\<lparr>w_cache := c\<rparr>" ip] Some by (auto split: prod.split sum.split)
  then show ?thesis using Some by (auto simp: classify_ip_def intro!: good_skip good_lock)
qed (simp add: classify_ip_def)

section \<open>The validation run\<close>

lemma good_cidrs:
  assumes "cidrs_ok (w\<lparr>w_cidrs := t\<rparr>)" shows "good w (w\<lparr>w_cidrs := t\<rparr>)"
  using assms by (auto simp: good_def state_ok_def state_parts evolves_def)

lemma good_validation: "good w (snd (validation_run response p w))"
proof (cases "provider_fetch response p w")
  case (Inl e)
  then show ?thesis by (simp add: validation_run_def validate_with_def)
next
  case (Inr ens)
  show ?thesis
  proof (cases "state_ok w")
    case True
    then have ok: "cidrs_ok w" "histories_ok w" by (simp_all add: state_ok_def)
    let ?src = "provider_source p"
    have en: "\<forall>en\<in>set ens. entry_ok en"
      using static_list.fetch_ok[OF ok(1)] ripe_feed.fetch_ok[OF ok(1)] Inr by (cases p) auto
    obtain n t where u: "upsert_all ?src ens w = (Inr n, w\<lparr>w_cidrs := t\<rparr>)" "cidrs_ok (w\<lparr>w_cidrs := t\<rparr>)"
      using upsert_all_spec[OF ok(1) en, of ?src] by blast
    let ?w2 = "w\<lparr>w_cidrs := update_rows (gone ?src ens) (disable_network (w_now w)) t\<rparr>"
    have g2: "good w ?w2" by (rule good_cidrs[OF static_list.disable_cidrs_ok[OF u(2)]])
    have tok: "table_ok (w_ips w)" using True by (simp add: state_ok_def db_parts)
    have "good ?w2 (snd (classify_all (select_rows (\<lambda>_ r. ia_is_iran r) (w_ips w)) ?w2))"
    proof (rule good_classify_all)
      show "\<forall>(k, ip)\<in>set (select_rows (\<lambda>_ r. ia_is_iran r) (w_ips w)). get_row k (w_ips ?w2) = Some ip"
        using select_rows_set[OF tok] by auto
      show "distinct (map fst (select_rows (\<lambda>_ r. ia_is_iran r) (w_ips w)))"
        unfolding select_rows_def by (rule distinct_map_filter[OF table_ok_distinct[OF tok]])
    qed
    then have g3: "good w (snd (classify_all (select_rows (\<lambda>_ r. ia_is_iran r) (w_ips w)) ?w2))" by (rule good_trans[OF g2])
    show ?thesis using Inr u(1) g2 g3
      by (auto simp: validation_run_def validate_with_def Let_def split: prod.split sum.split)
  qed (simp add: good_def)
qed

lemma good_monthly_validation: "good w (snd (run_monthly_iran_validation response w))"
proof -
  have "good w (snd (case validation_run response p w of (Inl e, w') \<Rightarrow> (Inl e, w') | (Inr _, w') \<Rightarrow> (Inr (), w')))" for p
    using good_validation[of w response p] by (auto split: prod.split sum.split)
  then show ?thesis by (simp add: run_monthly_iran_validation_def split: sum.split)
qed

section \<open>Sightings and requests\<close>

lemma seq_create_ips: "tb_seq t \<le> tb_seq (create_ips rs t)"
proof (induction rs t rule: create_ips.induct)
  case (2 r rs t)
  have "tb_seq t \<le> tb_seq (add_row r t)" by (simp add: add_row_def insert_row_def)
  then show ?case using 2 by (auto intro: order_trans)
qed simp

lemma seq_bump: "tb_seq (w_ips (snd (bump_last_seen l d w))) = tb_seq (w_ips w)"
  by (induction l d w rule: bump_last_seen.induct) (auto split: option.split)

lemma seq_sightings: "tb_seq (w_ips w) \<le> tb_seq (w_ips (snd (record_sightings_bulk xs w)))"
proof -
  have "tb_seq (w_ips w2) = tb_seq (w_ips w1)" if "bump_last_seen l d w1 = (r, w2)" for l d w1 r w2
    using seq_bump[of l d w1] that by simp
  then show ?thesis
    by (auto simp: record_sightings_bulk_def Let_def delays_def seq_create_ips split: sum.split prod.split)
qed

text \<open>Replacing the address table by one that keeps every row's identity and verdict, plus new rows under new keys.\<close>

lemma address_ok_same: "ia_address r' = ia_address r \<Longrightarrow> address_ok r' = address_ok r"
  by (simp only: address_ok_def)

definition newly_seen :: "ip_row \<Rightarrow> bool" where
  "newly_seen r \<longleftrightarrow> address_ok r \<and> \<not> ia_is_iran r"

definition only_seen :: "ip_row \<Rightarrow> ip_row \<Rightarrow> bool" where
  "only_seen r r' \<longleftrightarrow> same_address r r' \<and> ia_is_iran r' = ia_is_iran r \<and> ia_iran_match_cidr r' = ia_iran_match_cidr r"

lemma good_grown:
  assumes t: "table_ok t" "unique_on ia_address t" "tb_seq (w_ips w) \<le> tb_seq t"
    and rows: "\<And>k r'. get_row k t = Some r' \<Longrightarrow>
      (\<exists>r. get_row k (w_ips w) = Some r \<and> only_seen r r') \<or> \<not> k \<le> tb_seq (w_ips w) \<and> newly_seen r'"
    and kept: "\<And>k. has_row (w_ips w) k \<Longrightarrow> has_row t k"
  shows "good w (w\<lparr>w_ips := t\<rparr>)"
  unfolding good_def
proof
  assume ok: "state_ok w"
  then have db: "db_ok w" and c: "cidrs_ok w" and h: "histories_ok w" by (simp_all add: state_ok_def)
  have tok: "table_ok (w_ips w)" "table_ok (w_history w)" using db by (simp_all add: db_parts)
  have "refs_ok (w\<lparr>w_ips := t\<rparr>)" using db kept by (auto simp: db_ok_def refs_ok_def rows_hold_def)
  then have "db_ok (w\<lparr>w_ips := t\<rparr>)" using db t by (simp add: db_parts)
  moreover have "cidrs_ok (w\<lparr>w_ips := t\<rparr>)" using c by (simp add: cidrs_ok_def nets_ok_def cidrs_unique_def)
  moreover have "address_ok r' \<and> periods_ok (w_now w) r' (periods_of k (w_history w))" if r': "get_row k t = Some r'" for k r'
    using rows[OF r']
  proof (elim disjE exE conjE)
    fix r assume r: "get_row k (w_ips w) = Some r" "only_seen r r'"
    then have "address_ok r \<and> periods_ok (w_now w) r (periods_of k (w_history w))" using h by (auto simp: histories_ok_def dest: all_rowsD)
    then show ?thesis using r(2) address_ok_same[of r' r] by (simp add: periods_ok_def only_seen_def same_address_def)
  next
    assume k: "\<not> k \<le> tb_seq (w_ips w)" and n: "newly_seen r'"
    then have "get_row k (w_ips w) = None" using get_row_beyond[OF tok(1)] by simp
    then have "ch_ip x \<noteq> k" if "get_row j (w_history w) = Some x" for j x
      using db that by (auto simp: db_ok_def refs_ok_def has_row_def dest!: all_rowsD)
    then have "periods_of k (w_history w) = []"
      using select_rowsD[OF tok(2), of _ _ "\<lambda>_ p. ch_ip p = k"]
      by (cases "select_rows (\<lambda>_ p. ch_ip p = k) (w_history w)") (auto simp: periods_of_def)
    then show ?thesis using n by (simp add: periods_ok_def newly_seen_def)
  qed
  then have "histories_ok (w\<lparr>w_ips := t\<rparr>)" using t(1) by (simp add: histories_ok_def rows_hold_def)
  moreover have "ips_evolve (w_ips w) t" using t(3) rows by (fastforce simp: ips_evolve_def only_seen_def)
  ultimately show "state_ok (w\<lparr>w_ips := t\<rparr>) \<and> evolves w (w\<lparr>w_ips := t\<rparr>)" by (simp add: state_ok_def evolves_def)
qed

lemma bumped_only_seen: "only_seen r (bumped l now r)"
  by (auto simp: bumped_def only_seen_def same_address_def split: option.split)

lemma bumped_newly_seen: "newly_seen r \<Longrightarrow> newly_seen (bumped l now r)"
  using address_ok_same[of "bumped l now r" r] by (auto simp: newly_seen_def) (auto simp: bumped_def split: option.splits if_splits)

lemma normalized_ok: "normalize_ip raw = Inr a \<Longrightarrow> newly_seen (blank_ip a v t now)"
  by (erule normalize_InrD) (simp add: newly_seen_def address_ok_def blank_ip_def)

lemma good_sightings: "good w (snd (record_sightings_bulk xs w))"
proof (cases "state_ok w \<and> xs \<noteq> []")
  case True
  then have t: "table_ok (w_ips w)" and u: "unique_on ia_address (w_ips w)" by (simp_all add: state_ok_def db_parts)
  show ?thesis
  proof (cases "latest_seen_at [] xs")
    case (Inr l)
    obtain ex t2 ks where b: "record_sightings_bulk xs w = (Inr ex, delays (map Process_new_ip ks) (w\<lparr>w_ips := t2\<rparr>))"
      "table_ok (grown l w)" "unique_on ia_address (grown l w)" "table_ok t2"
      "\<And>k. get_row k t2 = map_option (bumped l (w_now w)) (get_row k (grown l w))"
      using bulk_result[OF t u _ Inr] True by blast
    have kept: "has_row t2 k" if "has_row (w_ips w) k" for k
      using that get_row_seq[OF t, of k] get_add_rows_old[OF t, of k] b(5)[of k] by (auto simp: has_row_def grown_def)
    have rows: "(\<exists>r. get_row k (w_ips w) = Some r \<and> only_seen r r') \<or> \<not> k \<le> tb_seq (w_ips w) \<and> newly_seen r'"
      if row: "get_row k t2 = Some r'" for k r'
    proof -
      obtain r where r: "get_row k (grown l w) = Some r" "r' = bumped l (w_now w) r"
        using row[unfolded b(5)] by auto
      show ?thesis
      proof (cases "get_row k (w_ips w)")
        case None
        from get_add_rows_new[OF t r(1)[unfolded grown_def] None]
        obtain a s where "(a, s) \<in> set l" "r = blank_ip a (ip_version (the (ip_address a))) s (w_now w)" and k: "tb_seq (w_ips w) < k"
          by (auto simp: fresh_rows_def arrivals_def)
        moreover from this obtain raw where "normalize_ip raw = Inr a"
          using latest_seen_at_spec(1,4)[OF Inr] by (auto simp: map_of_eq_Some_iff)
        ultimately show ?thesis using normalized_ok bumped_newly_seen r(2) by simp
      next
        case (Some q)
        then have "r = q" using get_add_rows_old[OF t get_row_seq[OF t Some]] r(1) by (simp add: grown_def)
        then show ?thesis using Some r(2) bumped_only_seen by simp
      qed
    qed
    have "good w (w\<lparr>w_ips := t2\<rparr>)"
    proof (rule good_grown)
      show "tb_seq (w_ips w) \<le> tb_seq t2" using seq_sightings[of w xs] b(1) by (simp add: delays_def)
      show "unique_on ia_address t2" using b(3) by (auto simp: rows_unique_def b(5))
    qed (use b(4) rows kept in auto)
    then show ?thesis using b(1) by simp
  qed (simp add: record_sightings_bulk_def)
qed (auto simp: good_def record_sightings_bulk_def)

lemma build_events_ids:
  "build_events src k now d ps = Inr es \<Longrightarrow> e \<in> set es \<Longrightarrow> ev_server e = ls_server src \<and> ev_log_source e = k"
  by (induction ps arbitrary: es) (auto simp: res_bind_Inr_iff event_of_def split: option.splits)

lemma good_add_events:
  assumes "\<And>e. e \<in> set es \<Longrightarrow> has_row (w_servers w) (ev_server e) \<and> has_row (w_sources w) (ev_log_source e) \<and> has_row (w_ips w) (ev_ip e)"
  shows "good w (w\<lparr>w_events := add_rows es (w_events w)\<rparr>)"
proof (rule good_other_tables)
  let ?I = "\<lambda>e. has_row (w_servers w) (ev_server e) \<and> has_row (w_sources w) (ev_log_source e) \<and> has_row (w_ips w) (ev_ip e)"
  assume ok: "db_ok w"
  then have t: "table_ok (w_events w)" and h: "all_rows (\<lambda>_. ?I) (w_events w)" by (simp_all add: db_parts)
  have "all_rows (\<lambda>_. ?I) (add_rows es (w_events w))"
    unfolding rows_hold_def
  proof (intro allI impI)
    fix j e assume e: "get_row j (add_rows es (w_events w)) = Some e"
    show "?I e"
    proof (cases "get_row j (w_events w)")
      case None
      then show ?thesis using get_add_rows_new[OF t e] assms by blast
    next
      case (Some x)
      then have "x = e" using get_add_rows_old[OF t get_row_seq[OF t Some]] e by simp
      then show ?thesis using all_rowsD[OF h Some] by simp
    qed
  qed
  then show "db_ok (w\<lparr>w_events := add_rows es (w_events w)\<rparr>)" using ok t by (simp add: db_parts)
qed simp_all

lemma good_store_events:
  assumes "has_row (w_servers w) (ls_server src)" "has_row (w_sources w) k"
    and valid: "\<And>p. p \<in> set ps \<Longrightarrow> ip_address (py_strip (pl_remote_addr p)) \<noteq> None"
  shows "good w (snd (store_events src k ps w))"
proof (cases "state_ok w \<and> ps \<noteq> []")
  case True
  then have t: "table_ok (w_ips w)" and u: "unique_on ia_address (w_ips w)" by (simp_all add: state_ok_def db_parts)
  let ?xs = "map (\<lambda>p. (pl_remote_addr p, pl_timestamp p)) ps"
  have "valid_batch ?xs" using valid by (auto simp: valid_batch_def list_all_iff)
  from bulk_ok[OF t u this] obtain d t' js where b: "record_sightings_bulk ?xs w = (Inr d, w\<lparr>w_ips := t', w_jobs := js\<rparr>)"
    "\<And>raw seen. (raw, seen) \<in> set ?xs \<Longrightarrow> \<exists>a k r r'. normalize_ip raw = Inr a \<and> map_of d a = Some (k, r') \<and> get_row k t' = Some r \<and> ia_address r = a"
    by (auto simp: split_beta) blast
  let ?w = "w\<lparr>w_ips := t', w_jobs := js\<rparr>"
  obtain es where es: "build_events src k (w_now ?w) d ps = Inr es" "list_all2 (event_for ?w (ls_server src) k) ps es"
    using build_events_spec[of ps d ?w src k] b(2) by force
  have "good ?w (?w\<lparr>w_events := add_rows es (w_events ?w)\<rparr>)"
  proof (rule good_add_events)
    fix e assume e: "e \<in> set es"
    then obtain p where "event_for ?w (ls_server src) k p e" using es(2) by (auto simp: list_all2_conv_all_nth in_set_conv_nth)
    then have "has_row (w_ips ?w) (ev_ip e)" by (auto simp: event_for_def has_row_def)
    then show "has_row (w_servers ?w) (ev_server e) \<and> has_row (w_sources ?w) (ev_log_source e) \<and> has_row (w_ips ?w) (ev_ip e)"
      using assms(1,2) build_events_ids[OF es(1) e] by simp
  qed
  moreover have g: "good w ?w" using good_sightings[of w ?xs] b(1) by simp
  ultimately have "good w (?w\<lparr>w_events := add_rows es (w_events ?w)\<rparr>)" by (rule good_trans[rotated])
  with g show ?thesis using b(1) es(1) True by (simp add: store_events_def)
qed (auto simp: good_def store_events_def)

section \<open>Reading a log\<close>

lemma good_save_source:
  assumes "\<And>s. ls_server (f s) = ls_server s" "\<And>s. ls_path (f s) = ls_path s"
  shows "good w (save_source k f w)"
  unfolding save_source_def by (rule good_other_tables, rule db_ok_update_source) (simp_all add: assms)

lemma good_reader_poll:
  assumes "has_row (w_sources w) k" shows "good w (snd (reader_poll decode h k src w))"
proof (cases "get_row (ls_server src) (w_servers w)")
  case (Some server)
  note src = Some
  let ?poll = "poll_log h server (ls_path src) (ls_inode src) (if ls_inode src \<noteq> None then Some (ls_byte_offset src) else None)"
  show ?thesis
  proof (cases ?poll)
    case (Inr answer)
    show ?thesis
    proof (cases answer)
      case None
      then show ?thesis using src Inr by (auto simp: reader_poll_def intro!: good_save_source)
    next
      case (Some chunk)
      show ?thesis
      proof (cases "compiled_pattern (ls_format src)")
        case pat: (Inr pattern)
        let ?parsed = "parsed_of pattern (complete_lines decode (lc_data chunk))"
        obtain r w1 where s: "store_events src k ?parsed w = (r, w1)" by (cases "store_events src k ?parsed w")
        have g: "good w w1" using good_store_events[of w src k ?parsed] parsed_valid[OF pat] assms src s by (simp add: has_row_def)
        then have "good w (save_source k f w1)" if "\<And>s. ls_server (f s) = ls_server s" "\<And>s. ls_path (f s) = ls_path s" for f
          using good_trans good_save_source that by blast
        then show ?thesis using src Inr Some pat s g
          by (auto simp: reader_poll_def Let_def parse_lines_eq split: sum.split)
      qed (use src Inr Some in \<open>simp add: reader_poll_def\<close>)
    qed
  qed (use src in \<open>simp add: reader_poll_def\<close>)
qed (simp add: reader_poll_def)

lemma good_poll_log_source: "good w (snd (poll_log_source decode h k w))"
proof -
  have "good w (snd (case reader_poll decode h k src (w\<lparr>w_cache := c\<rparr>) of (Inl e, w') \<Rightarrow> (Inl e, w') | (Inr _, w') \<Rightarrow> (Inr (), w')))"
    if "get_row k (w_sources w) = Some src" for c src
    using good_reader_poll[of "w\<lparr>w_cache := c\<rparr>" k decode h src] that by (auto simp: has_row_def split: prod.split sum.split)
  then show ?thesis by (auto simp: poll_log_source_def intro!: good_skip good_lock split: option.split)
qed

lemma good_poll_all: "good w (snd (poll_all_log_sources w))"
  by (simp add: poll_all_log_sources_def)

section \<open>A new address\<close>

lemma good_process_new_ip: "good w (snd (process_new_ip k w))"
  by (auto simp: process_new_ip_def Let_def intro!: good_skip good_lock split: option.split)

lemma good_enrich_ip: "good w (snd (enrich_ip g k w))"
proof -
  have "good w (snd (geo_enrich g k ip w))" for ip w
    by (auto simp: geo_enrich_def located_def same_address_def intro!: good_update_ip split: sum.split option.split)
  from this[of "w\<lparr>w_cache := c\<rparr>" for c] have "good w (snd (geo_enrich g k ip (w\<lparr>w_cache := c\<rparr>)))" for c ip by simp
  then have "good w (snd (case geo_enrich g k ip (w\<lparr>w_cache := c\<rparr>) of (Inl e, w') \<Rightarrow> (Inl e, w') | (Inr _, w') \<Rightarrow> (Inr (), w')))" for c ip
    by (auto split: prod.split sum.split) (metis snd_conv)+
  then show ?thesis by (auto simp: enrich_ip_def intro!: good_skip good_lock split: option.split)
qed

section \<open>WHOIS\<close>

lemma good_add_response:
  assumes "has_row (w_ips w) (wr_ip r)" shows "good w (w\<lparr>w_whois := add_row r (w_whois w)\<rparr>)"
proof (rule good_other_tables)
  assume ok: "db_ok w"
  then have "all_rows (\<lambda>_ r. has_row (w_ips w) (wr_ip r)) (add_row r (w_whois w))"
    using assms by (auto simp: db_parts rows_hold_def get_add_row)
  then show "db_ok (w\<lparr>w_whois := add_row r (w_whois w)\<rparr>)" using ok by (simp add: db_parts)
qed simp_all

lemma good_run_lookup:
  assumes "has_row (w_ips w) k" shows "good w (snd (run_lookup h n k ip w))"
proof -
  let ?w1 = "\<lambda>generic raw. w\<lparr>w_whois := add_row (whois_row k generic raw (w_now w)) (w_whois w)\<rparr>"
  have w1: "good w (?w1 generic raw)" for generic raw by (rule good_add_response) (simp add: whois_row_def assms)
  have "good (?w1 g raw) ((?w1 g raw)\<lparr>w_ips := update_row k (lookup_answered known asn cidr w) (w_ips (?w1 g raw))\<rparr>)" for g raw known asn cidr
    by (rule good_update_ip) (simp_all add: lookup_answered_def same_address_def)
  then have w2: "good w ((?w1 g raw)\<lparr>w_ips := update_row k (lookup_answered known asn cidr w) (w_ips w)\<rparr>)" for g raw known asn cidr
    using good_trans[OF w1] by force
  have "good w (w\<lparr>w_ips := update_row k (lookup_failed m w) (w_ips w)\<rparr>)" for m
    by (rule good_update_ip) (simp_all add: lookup_failed_def same_address_def)
  then show ?thesis using w1 w2
    by (auto simp: run_lookup_def Let_def split: sum.split prod.split)
qed

lemma good_whois: "good w (snd (perform_whois_lookup h n k force w))"
proof (cases "get_row k (w_ips w)")
  case (Some ip)
  let ?lock = "redis_lock (lock_key ''whois:'' (ia_address ip)) (seconds (st_whois_timeout (w_settings w) + 30)) (run_lookup h n k ip) w"
  have "good w (snd ?lock)"
  proof (rule good_lock)
    fix c show "good w (snd (run_lookup h n k ip (w\<lparr>w_cache := c\<rparr>)))"
      using good_run_lookup[of "w\<lparr>w_cache := c\<rparr>" k h n ip] Some by (simp add: has_row_def)
  qed
  then show ?thesis using Some by (auto simp: perform_whois_lookup_def split: prod.split sum.split py_exn.split)
qed (simp add: perform_whois_lookup_def)

section \<open>Servers\<close>

lemma good_save_server:
  assumes "\<And>s. sv_name (f s) = sv_name s" shows "good w (save_server k f w)"
  unfolding save_server_def by (rule good_other_tables, rule db_ok_update_server) (simp_all add: assms)

lemma good_test_connection: "good w (snd (test_server_connection h k u w))"
proof (cases "get_row k (w_servers w)")
  case (Some server)
  obtain r w1 where lock: "redis_lock (lock_key ''ssh:test:'' (nat_str k)) (seconds (st_ssh_connect_timeout (w_settings w) + 30))
      (\<lambda>w. (test_connection h server, w)) w = (r, w1)" (is "?lock = _") by (cases ?lock)
  have g: "good w w1" using good_lock[of w "\<lambda>w. (test_connection h server, w)"] lock by (metis snd_conv good_frame(1) good_refl)
  have "good w (record_audit_log a ob res m usr i (save_server k f w1))" if "\<And>s. sv_name (f s) = sv_name s" for a ob res m usr i f
    using good_trans[OF g] good_trans[OF good_save_server[OF that] good_audit] by blast
  then show ?thesis using Some lock g
    by (simp add: test_server_connection_def Let_def split: sum.split py_exn.split)
qed (simp add: test_server_connection_def)

lemma good_register_logs:
  assumes "has_row (w_servers w) k" "register_logs k fs w = (n, w')" shows "good w w'"
proof (cases "db_ok w")
  case True
  have t: "table_ok (w_sources w)" "unique_on source_key (w_sources w)"
    using True by (simp_all add: db_parts source_key_def[abs_def])
  note spec = register_logs_spec[OF t assms(2)]
  have w': "w' = w\<lparr>w_sources := w_sources w'\<rparr>" by (rule spec(6))
  have "has_row (w_servers w) (ls_server s)" if "get_row j (w_sources w') = Some s" for j s
  proof (cases "get_row j (w_sources w)")
    case None
    then show ?thesis using spec(4)[OF that] assms(1) by (metis new_source_def log_source.select_convs(1))
  next
    case (Some x)
    then have "x = s" using spec(3)[OF Some] that by simp
    then show ?thesis using True Some by (auto simp: db_parts dest: all_rowsD)
  qed
  moreover have "has_row (w_sources w') j" if "has_row (w_sources w) j" for j using that spec(3) by (auto simp: has_row_def)
  ultimately have "db_ok (w\<lparr>w_sources := w_sources w'\<rparr>)"
    using True spec(1,2) by (auto simp: db_parts rows_hold_def source_key_def[abs_def])
  then have "good w (w\<lparr>w_sources := w_sources w'\<rparr>)" by (intro good_other_tables) simp_all
  then show ?thesis using w' by simp
qed (simp add: good_def state_ok_def)

lemma good_discover: "good w (snd (discover_server_logs h k u w))"
proof (cases "get_row k (w_servers w)")
  case (Some server)
  have failed: "good w (record_audit_log a ob res m usr i (save_server k (\<lambda>s. s\<lparr>sv_last_error := e\<rparr>) w))" for a ob res m usr i e w
    by (rule good_trans[OF good_save_server good_audit]) simp
  obtain r w1 where lock: "redis_lock (lock_key ''ssh:discover:'' (nat_str k)) (seconds (st_ssh_connect_timeout (w_settings w) + 60))
      (\<lambda>w'. case discover_logs h server (sv_log_search_paths server) of
         Inl (SSHConnectionError e) \<Rightarrow> (Inr None, record_audit_log ''server.discover_logs'' (Some (server_object k server)) FAILURE
           [(''error'', JStr e)] (resolve_user u w) None (save_server k (\<lambda>s. s\<lparr>sv_last_error := e\<rparr>) w'))
       | Inl e \<Rightarrow> (Inl e, w')
       | Inr files \<Rightarrow> (Inr (Some files), w')) w = (r, w1)" (is "?lock = _") by (cases ?lock)
  have "good w (snd ?lock) \<and> has_row (w_servers (snd ?lock)) k"
  proof (rule lock_rule[where Q = "\<lambda>w'. good w w' \<and> has_row (w_servers w') k"])
    fix c
    show "good w (snd (case discover_logs h server (sv_log_search_paths server) of
         Inl (SSHConnectionError e) \<Rightarrow> (Inr None, record_audit_log ''server.discover_logs'' (Some (server_object k server)) FAILURE
           [(''error'', JStr e)] (resolve_user u w) None (save_server k (\<lambda>s. s\<lparr>sv_last_error := e\<rparr>) (w\<lparr>w_cache := c\<rparr>)))
       | Inl e \<Rightarrow> (Inl e, w\<lparr>w_cache := c\<rparr>)
       | Inr files \<Rightarrow> (Inr (Some files), w\<lparr>w_cache := c\<rparr>))) \<and>
      has_row (w_servers (snd (case discover_logs h server (sv_log_search_paths server) of
         Inl (SSHConnectionError e) \<Rightarrow> (Inr None, record_audit_log ''server.discover_logs'' (Some (server_object k server)) FAILURE
           [(''error'', JStr e)] (resolve_user u w) None (save_server k (\<lambda>s. s\<lparr>sv_last_error := e\<rparr>) (w\<lparr>w_cache := c\<rparr>)))
       | Inl e \<Rightarrow> (Inl e, w\<lparr>w_cache := c\<rparr>)
       | Inr files \<Rightarrow> (Inr (Some files), w\<lparr>w_cache := c\<rparr>)))) k"
      using failed[of "w\<lparr>w_cache := c\<rparr>"] Some by (simp add: has_row_def[of _ k] save_server_def get_update_row split: sum.split py_exn.split)
  qed (use Some in \<open>simp_all add: has_row_def\<close>)
  then have g: "good w w1" and row: "has_row (w_servers w1) k" using lock by simp_all
  have "good w (record_audit_log a ob res m usr i (save_server k f w2))"
    if "register_logs k files w1 = (n, w2)" "\<And>s. sv_name (f s) = sv_name s" for a ob res m usr i f files n w2
    using good_trans[OF g good_register_logs[OF row that(1)]] good_trans[OF good_save_server[OF that(2)] good_audit] good_trans by blast
  then show ?thesis using Some lock g
    by (auto simp: discover_server_logs_def Let_def split: sum.split py_exn.split option.split prod.split)
qed (simp add: discover_server_logs_def)

section \<open>Retention\<close>

lemma ips_evolve_delete: "table_ok t \<Longrightarrow> ips_evolve t (delete_rows P t)"
  unfolding ips_evolve_def by (auto simp: get_delete_rows split: option.splits if_splits) (simp add: delete_rows_def)

lemma all_rows_delete: "table_ok t \<Longrightarrow> all_rows I t \<Longrightarrow> all_rows I (delete_rows P t)"
  by (auto simp: rows_hold_def get_delete_rows split: option.splits)

lemma good_purge_requests: "good w (snd (purge_old_request_events w))"
  unfolding purge_old_request_events_def Let_def snd_conv
  by (auto intro!: good_other_tables simp: db_parts all_rows_delete)

lemma good_purge_responses: "good w (snd (purge_old_whois_records w))"
  unfolding purge_old_whois_records_def Let_def snd_conv
  by (auto intro!: good_other_tables simp: db_parts all_rows_delete)

lemma good_purge_ips: "good w (snd (purge_stale_ips w))"
  unfolding good_def
proof
  assume ok: "state_ok w"
  then have db: "db_ok w" and c: "cidrs_ok w" and h: "histories_ok w" by (simp_all add: state_ok_def)
  then have tok: "tables_ok w" and t: "table_ok (w_ips w)" "table_ok (w_whois w)" by (simp_all add: db_parts)
  let ?ips = "delete_rows (purge_eligible w) (w_ips w)" let ?whois = "delete_rows (\<lambda>_ r. doomed w (wr_ip r)) (w_whois w)"
  have w': "snd (purge_stale_ips w) = w\<lparr>w_ips := ?ips, w_whois := ?whois\<rparr>" by (rule purge_stale_ips_tables[OF tok])
  have keep: "has_row ?ips k \<longleftrightarrow> has_row (w_ips w) k \<and> \<not> doomed w k" for k
    by (auto simp: has_row_def get_delete_rows[OF t(1)] doomed_def split: option.splits)
  have "all_rows (\<lambda>_ e. has_row (w_servers w) (ev_server e) \<and> has_row (w_sources w) (ev_log_source e) \<and> has_row ?ips (ev_ip e)) (w_events w)"
    using db doomed_free(1)[OF tok] by (auto simp: db_parts rows_hold_def keep)
  moreover have "all_rows (\<lambda>_ r. has_row ?ips (wr_ip r)) ?whois"
    using db by (auto simp: db_parts rows_hold_def keep get_delete_rows[OF t(2)] split: option.splits if_splits)
  moreover have "all_rows (\<lambda>_ h. has_row ?ips (ch_ip h)) (w_history w)"
    using db doomed_free(2)[OF tok] by (auto simp: db_parts rows_hold_def keep)
  moreover have "unique_on ia_address ?ips" using db by (auto intro!: tbl.unique_del[OF t(1)] simp: db_parts)
  ultimately have "db_ok (w\<lparr>w_ips := ?ips, w_whois := ?whois\<rparr>)" using db by (simp add: db_parts)
  moreover have "histories_ok (w\<lparr>w_ips := ?ips, w_whois := ?whois\<rparr>)" using h by (simp add: histories_ok_def all_rows_delete)
  moreover have "cidrs_ok (w\<lparr>w_ips := ?ips, w_whois := ?whois\<rparr>)" using c by (simp add: cidrs_ok_def nets_ok_def cidrs_unique_def)
  ultimately show "state_ok (snd (purge_stale_ips w)) \<and> evolves w (snd (purge_stale_ips w))"
    unfolding w' using ips_evolve_delete[OF t(1)] by (simp add: state_ok_def evolves_def)
qed

lemma good_purge: "good w (snd (purge_old_data w))"
proof -
  obtain n w1 where 1: "purge_old_request_events w = (Inr n, w1)" by (simp add: purge_old_request_events_def Let_def)
  obtain m w2 where 2: "purge_old_whois_records w1 = (Inr m, w2)" by (simp add: purge_old_whois_records_def Let_def)
  have "good w w1" "good w1 w2" "good w2 (snd (purge_stale_ips w2))"
    using good_purge_requests[of w] good_purge_responses[of w1] good_purge_ips 1 2 by simp_all
  then have "good w (snd (purge_stale_ips w2))" by (blast intro: good_trans)
  then show ?thesis using 1 2
    by (cases "purge_stale_ips w2") (auto simp: purge_old_data_def bnd_def split: sum.split)
qed

end
