(* ===== verification/Schedule.thy ===== *)
theory Schedule
  imports Dashboard
begin

text \<open>
  The periodic tasks the data migrations seed into the database of \<open>django-celery-beat\<close>
  (\<open>logs/migrations/0002\<close>, \<open>iran/migrations/0002\<close>, \<open>ips/migrations/0004\<close>): a schedule row and a task row,
  each found or created, and the task row taken away again when the migration is reversed. A migration that
  raises is rolled back.
\<close>

section \<open>The tables of the scheduler\<close>

record interval_schedule =
  iv_every :: int
  iv_period :: string

record crontab_schedule =
  cr_minute :: string
  cr_hour :: string
  cr_day_of_month :: string
  cr_month_of_year :: string
  cr_day_of_week :: string
  cr_timezone :: string

record periodic_task =
  pt_name :: string
  pt_task :: string
  pt_queue :: string
  pt_interval :: "pk option"
  pt_crontab :: "pk option"
  pt_enabled :: bool

record beat_db =
  bt_intervals :: "interval_schedule table"
  bt_crontabs :: "crontab_schedule table"
  bt_tasks :: "periodic_task table"

definition empty_beat :: beat_db where
  "empty_beat = \<lparr>bt_intervals = empty_table, bt_crontabs = empty_table, bt_tasks = empty_table\<rparr>"

text \<open>\<open>get_or_create\<close> where the lookup is not a unique key: more than one match raises.\<close>

definition get_one_or_create :: "('r \<Rightarrow> bool) \<Rightarrow> 'r \<Rightarrow> 'r table \<Rightarrow> (pk \<times> 'r table) res" where
  "get_one_or_create P r t =
     (if 1 < count_rows (\<lambda>_. P) t then Inl (RuntimeError ''MultipleObjectsReturned'')
      else (case get_or_create P r t of ((k, _), t') \<Rightarrow> Inr (k, t')))"

section \<open>Seeds\<close>

datatype schedule = Every int string | Crontab string string string

record seed =
  sd_name :: string
  sd_task :: string
  sd_queue :: string
  sd_schedule :: schedule

definition poll_seed :: seed where
  "poll_seed = \<lparr>sd_name = ''Poll enabled log sources'', sd_task = ''apps.logs.tasks.poll_all_log_sources'',
     sd_queue = ''logs'', sd_schedule = Every 30 ''seconds''\<rparr>"

definition validation_seed :: seed where
  "validation_seed = \<lparr>sd_name = ''Monthly Iran CIDR validation'', sd_task = ''apps.iran.tasks.run_monthly_iran_validation'',
     sd_queue = ''iran'', sd_schedule = Crontab ''0'' ''3'' ''1''\<rparr>"

definition purge_seed :: seed where
  "purge_seed = \<lparr>sd_name = ''Daily retention purge'', sd_task = ''apps.ips.tasks.purge_old_data'',
     sd_queue = ''maintenance'', sd_schedule = Crontab ''0'' ''2'' ''*''\<rparr>"

definition every_row :: "int \<Rightarrow> string \<Rightarrow> interval_schedule" where
  "every_row n period = \<lparr>iv_every = n, iv_period = period\<rparr>"

definition crontab_row :: "string \<Rightarrow> string \<Rightarrow> string \<Rightarrow> crontab_schedule" where
  "crontab_row minute hour day =
     \<lparr>cr_minute = minute, cr_hour = hour, cr_day_of_month = day, cr_month_of_year = ''*'', cr_day_of_week = ''*'',
      cr_timezone = ''UTC''\<rparr>"

text \<open>A crontab is looked up by its five fields; the time zone is only a default of a new row.\<close>

definition same_crontab :: "crontab_schedule \<Rightarrow> crontab_schedule \<Rightarrow> bool" where
  "same_crontab r s \<longleftrightarrow> r\<lparr>cr_timezone := []\<rparr> = s\<lparr>cr_timezone := []\<rparr>"

definition find_schedule :: "schedule \<Rightarrow> beat_db \<Rightarrow> ((pk option \<times> pk option) \<times> beat_db) res" where
  "find_schedule sched db =
     (case sched of
        Every n period \<Rightarrow>
          res_bind (get_one_or_create (\<lambda>r. r = every_row n period) (every_row n period) (bt_intervals db)) (\<lambda>(k, t).
            Inr ((Some k, None), db\<lparr>bt_intervals := t\<rparr>))
      | Crontab minute hour day \<Rightarrow>
          res_bind (get_one_or_create (same_crontab (crontab_row minute hour day)) (crontab_row minute hour day) (bt_crontabs db))
            (\<lambda>(k, t). Inr ((None, Some k), db\<lparr>bt_crontabs := t\<rparr>)))"

definition task_row :: "seed \<Rightarrow> pk option \<times> pk option \<Rightarrow> periodic_task" where
  "task_row sd ks = \<lparr>pt_name = sd_name sd, pt_task = sd_task sd, pt_queue = sd_queue sd, pt_interval = fst ks,
     pt_crontab = snd ks, pt_enabled = True\<rparr>"

definition create_periodic_task :: "seed \<Rightarrow> (beat_db, unit) effect" where
  "create_periodic_task sd db =
     (case find_schedule (sd_schedule sd) db of
        Inl e \<Rightarrow> (Inl e, db)
      | Inr (ks, db1) \<Rightarrow>
          (Inr (), db1\<lparr>bt_tasks := snd (get_or_create (\<lambda>r. pt_name r = sd_name sd) (task_row sd ks) (bt_tasks db1))\<rparr>))"

definition remove_periodic_task :: "seed \<Rightarrow> (beat_db, unit) effect" where
  "remove_periodic_task sd db = (Inr (), db\<lparr>bt_tasks := delete_rows (\<lambda>_ r. pt_name r = sd_name sd) (bt_tasks db)\<rparr>)"

definition seeds :: "seed list" where "seeds = [poll_seed, validation_seed, purge_seed]"

definition seed_all :: "(beat_db, unit) effect" where
  "seed_all = for_each create_periodic_task seeds"

text \<open>What the scheduler sends for a task row: the job of that name, when it takes no argument.\<close>

definition argument_free_jobs :: "job list" where
  "argument_free_jobs =
     [Poll_all_log_sources, Run_monthly_iran_validation, Purge_old_data, Purge_stale_ips, Purge_old_request_events,
      Purge_old_whois_records]"

definition periodic_job :: "periodic_task \<Rightarrow> job option" where
  "periodic_job r = find (\<lambda>j. task_name j = pt_task r) argument_free_jobs"

section \<open>Laws of seeding\<close>

definition beat_ok :: "beat_db \<Rightarrow> bool" where
  "beat_ok db \<longleftrightarrow> table_ok (bt_intervals db) \<and> table_ok (bt_crontabs db) \<and> table_ok (bt_tasks db)
     \<and> unique_on pt_name (bt_tasks db)"

lemma get_or_create_cases:
  assumes "table_ok t" "get_or_create P r t = ((k, created), t')"
  obtains s where "\<not> created" "t' = t" "get_row k t = Some s" "P s"
  | "created" "k = Suc (tb_seq t)" "t' = add_row r t" "\<And>j s. get_row j t = Some s \<Longrightarrow> \<not> P s"
proof (cases "select_rows (\<lambda>_. P) t")
  case Nil
  have "\<not> P s" if "get_row j t = Some s" for j s
    using Nil that select_rows_set[OF assms(1), of j s "\<lambda>_. P"] by auto
  then show ?thesis using that(2) assms(2) Nil by (auto simp: get_or_create_def insert_row_def add_row_def)
next
  case (Cons x xs)
  obtain j s where x: "x = (j, s)" by (cases x)
  have "get_row j t = Some s \<and> P s" using select_rows_set[OF assms(1), of j s "\<lambda>_. P"] Cons x by auto
  then show ?thesis using that(1) assms(2) Cons x by (auto simp: get_or_create_def)
qed

lemma select_add_row:
  "select_rows Q (add_row r t) = select_rows Q t @ (if Q (Suc (tb_seq t)) r then [(Suc (tb_seq t), r)] else [])"
  by (simp add: select_rows_def tb_rows_add_row)

lemma get_one_or_create_cases:
  assumes "get_one_or_create P r t = Inr (k, t')" "P r"
  shows "get_one_or_create P r t' = Inr (k, t')"
    and "t' = t \<or> t' = add_row r t"
    and "table_ok t \<Longrightarrow> \<exists>s. get_row k t' = Some s \<and> P s"
proof -
  have n: "count_rows (\<lambda>_. P) t \<le> 1" using assms(1) by (simp add: get_one_or_create_def split: if_split_asm)
  have g: "\<exists>c. get_or_create P r t = ((k, c), t')"
    using assms(1) by (auto simp: get_one_or_create_def split: if_split_asm prod.splits)
  consider (found) s xs where "select_rows (\<lambda>_. P) t = (k, s) # xs" "t' = t"
    | (new) "select_rows (\<lambda>_. P) t = []" "k = Suc (tb_seq t)" "t' = add_row r t"
    using g by (cases "select_rows (\<lambda>_. P) t") (auto simp: get_or_create_def insert_row_def add_row_def)
  then have "get_one_or_create P r t' = Inr (k, t') \<and> (t' = t \<or> t' = add_row r t)
      \<and> (table_ok t \<longrightarrow> (\<exists>s. get_row k t' = Some s \<and> P s))"
  proof cases
    case found
    have "get_row k t = Some s \<and> P s" if "table_ok t" using select_rowsD[OF that, of k s "\<lambda>_. P"] found(1) by simp
    then show ?thesis using assms(1) found(2) by auto
  next
    case new
    then show ?thesis using assms(2)
      by (auto simp: get_one_or_create_def get_or_create_def count_rows_def select_add_row get_add_row)
  qed
  then show "get_one_or_create P r t' = Inr (k, t')" "t' = t \<or> t' = add_row r t"
    "table_ok t \<Longrightarrow> \<exists>s. get_row k t' = Some s \<and> P s" by blast+
qed

text \<open>A seed has taken hold: its schedule is there to be found and a task of its name exists.\<close>

definition seeded :: "seed \<Rightarrow> beat_db \<Rightarrow> bool" where
  "seeded sd db \<longleftrightarrow> (\<exists>ks. find_schedule (sd_schedule sd) db = Inr (ks, db)) \<and> select_rows (\<lambda>_ r. pt_name r = sd_name sd) (bt_tasks db) \<noteq> []"

lemma seeded_stays: "seeded sd db \<Longrightarrow> create_periodic_task sd db = (Inr (), db)"
  by (auto simp: seeded_def create_periodic_task_def get_or_create_def split: list.split)

lemma find_schedule_again:
  assumes "find_schedule sched db = Inr (ks, db1)" shows "find_schedule sched (db1\<lparr>bt_tasks := t\<rparr>) = Inr (ks, db1\<lparr>bt_tasks := t\<rparr>)"
proof (cases sched)
  case (Every n period)
  then obtain k t' where g: "get_one_or_create (\<lambda>r. r = every_row n period) (every_row n period) (bt_intervals db) = Inr (k, t')"
    "ks = (Some k, None)" "db1 = db\<lparr>bt_intervals := t'\<rparr>" using assms by (auto simp: find_schedule_def res_bind_Inr_iff)
  show ?thesis using get_one_or_create_cases(1)[OF g(1) refl] g(2,3) Every by (simp add: find_schedule_def res_bind_Inr_iff)
next
  case (Crontab m h d)
  then obtain k t' where g: "get_one_or_create (same_crontab (crontab_row m h d)) (crontab_row m h d) (bt_crontabs db) = Inr (k, t')"
    "ks = (None, Some k)" "db1 = db\<lparr>bt_crontabs := t'\<rparr>" using assms by (auto simp: find_schedule_def res_bind_Inr_iff)
  have "same_crontab (crontab_row m h d) (crontab_row m h d)" by (simp add: same_crontab_def)
  from get_one_or_create_cases(1)[OF g(1) this] show ?thesis
    using g(2,3) Crontab by (simp add: find_schedule_def res_bind_Inr_iff)
qed

lemma find_schedule_tasks: "find_schedule sched db = Inr (ks, db1) \<Longrightarrow> bt_tasks db1 = bt_tasks db"
  by (auto simp: find_schedule_def res_bind_Inr_iff split: schedule.splits)

lemma create_seeded:
  assumes "create_periodic_task sd db = (Inr (), db')" shows "seeded sd db'"
proof -
  obtain ks db1 where f: "find_schedule (sd_schedule sd) db = Inr (ks, db1)"
    "db' = db1\<lparr>bt_tasks := snd (get_or_create (\<lambda>r. pt_name r = sd_name sd) (task_row sd ks) (bt_tasks db1))\<rparr>"
    using assms by (auto simp: create_periodic_task_def split: sum.split_asm)
  then show ?thesis using find_schedule_again[OF f(1)]
    by (auto simp: seeded_def get_or_create_def insert_row_def select_rows_def task_row_def split: list.split)
qed

definition keeps_rows :: "'r table \<Rightarrow> 'r table \<Rightarrow> bool" where
  "keeps_rows t t' \<longleftrightarrow> (\<forall>k r. get_row k t = Some r \<longrightarrow> get_row k t' = Some r)"

lemma keeps_rows_add: "table_ok t \<Longrightarrow> keeps_rows t (add_row r t)"
  using get_row_beyond[of t "Suc (tb_seq t)"] by (auto simp: keeps_rows_def get_add_row)

lemma keeps_rows_refl [simp]: "keeps_rows t t"
  by (simp add: keeps_rows_def)

lemma keeps_rows_trans: "keeps_rows a b \<Longrightarrow> keeps_rows b c \<Longrightarrow> keeps_rows a c"
  by (simp add: keeps_rows_def)

definition grows :: "beat_db \<Rightarrow> beat_db \<Rightarrow> bool" where
  "grows db db' \<longleftrightarrow> keeps_rows (bt_intervals db) (bt_intervals db') \<and> keeps_rows (bt_crontabs db) (bt_crontabs db')
     \<and> keeps_rows (bt_tasks db) (bt_tasks db')"

lemma grows_trans: "grows a b \<Longrightarrow> grows b c \<Longrightarrow> grows a c"
  by (auto simp: grows_def intro: keeps_rows_trans)

text \<open>When a task row runs on the schedule of its seed.\<close>

definition runs_on :: "seed \<Rightarrow> periodic_task \<Rightarrow> beat_db \<Rightarrow> bool" where
  "runs_on sd r db \<longleftrightarrow>
     (case sd_schedule sd of
        Every n period \<Rightarrow> pt_crontab r = None \<and> (\<exists>k. pt_interval r = Some k \<and> get_row k (bt_intervals db) = Some (every_row n period))
      | Crontab m h d \<Rightarrow> pt_interval r = None \<and>
          (\<exists>k s. pt_crontab r = Some k \<and> get_row k (bt_crontabs db) = Some s \<and> same_crontab (crontab_row m h d) s))"

lemma runs_on_grows: "runs_on sd r db \<Longrightarrow> grows db db' \<Longrightarrow> runs_on sd r db'"
  by (cases "sd_schedule sd") (fastforce simp: runs_on_def grows_def keeps_rows_def)+

lemma runs_on_tasks [simp]: "runs_on sd r (db\<lparr>bt_tasks := t\<rparr>) = runs_on sd r db"
  by (cases "sd_schedule sd") (simp_all add: runs_on_def)

lemma find_schedule_spec:
  assumes "beat_ok db" "find_schedule (sd_schedule sd) db = Inr (ks, db1)"
  shows "beat_ok db1 \<and> grows db db1 \<and> bt_tasks db1 = bt_tasks db \<and> runs_on sd (task_row sd ks) db1"
proof (cases "sd_schedule sd")
  case (Every n period)
  then obtain k t' where g: "get_one_or_create (\<lambda>r. r = every_row n period) (every_row n period) (bt_intervals db) = Inr (k, t')"
    "ks = (Some k, None)" "db1 = db\<lparr>bt_intervals := t'\<rparr>" using assms(2) by (auto simp: find_schedule_def res_bind_Inr_iff)
  note c = get_one_or_create_cases[OF g(1) refl]
  have t: "table_ok (bt_intervals db)" using assms(1) by (simp add: beat_ok_def)
  have "table_ok t'" "keeps_rows (bt_intervals db) t'" using c(2) t keeps_rows_add[OF t] by auto
  then show ?thesis using assms(1) c(3)[OF t] g(2,3) Every by (auto simp: beat_ok_def grows_def runs_on_def task_row_def)
next
  case (Crontab m h d)
  then obtain k t' where g: "get_one_or_create (same_crontab (crontab_row m h d)) (crontab_row m h d) (bt_crontabs db) = Inr (k, t')"
    "ks = (None, Some k)" "db1 = db\<lparr>bt_crontabs := t'\<rparr>" using assms(2) by (auto simp: find_schedule_def res_bind_Inr_iff)
  have "same_crontab (crontab_row m h d) (crontab_row m h d)" by (simp add: same_crontab_def)
  note c = get_one_or_create_cases[OF g(1) this]
  have t: "table_ok (bt_crontabs db)" using assms(1) by (simp add: beat_ok_def)
  have "table_ok t'" "keeps_rows (bt_crontabs db) t'" using c(2) t keeps_rows_add[OF t] by auto
  then show ?thesis using assms(1) c(3)[OF t] g(2,3) Crontab by (auto simp: beat_ok_def grows_def runs_on_def task_row_def)
qed

definition named :: "string \<Rightarrow> beat_db \<Rightarrow> bool" where
  "named n db \<longleftrightarrow> (\<exists>k r. get_row k (bt_tasks db) = Some r \<and> pt_name r = n)"

definition took :: "seed \<Rightarrow> beat_db \<Rightarrow> beat_db \<Rightarrow> bool" where
  "took sd db db' \<longleftrightarrow> (\<exists>k r. get_row k (bt_tasks db') = Some r \<and> pt_name r = sd_name sd \<and>
     (get_row k (bt_tasks db) = Some r \<or> \<not> named (sd_name sd) db \<and> pt_task r = sd_task sd \<and> pt_queue r = sd_queue sd
        \<and> pt_enabled r \<and> runs_on sd r db'))"

text \<open>Seeding one task adds no task of another name.\<close>

definition adds_only :: "seed \<Rightarrow> beat_db \<Rightarrow> beat_db \<Rightarrow> bool" where
  "adds_only sd db db' \<longleftrightarrow>
     (\<forall>k r. get_row k (bt_tasks db') = Some r \<longrightarrow> pt_name r \<noteq> sd_name sd \<longrightarrow> get_row k (bt_tasks db) = Some r)"

lemma create_spec:
  assumes ok: "beat_ok db" and run: "create_periodic_task sd db = (Inr (), db')"
  shows "beat_ok db' \<and> grows db db' \<and> took sd db db' \<and> adds_only sd db db'"
proof -
  obtain ks db1 where f: "find_schedule (sd_schedule sd) db = Inr (ks, db1)"
    "db' = db1\<lparr>bt_tasks := snd (get_or_create (\<lambda>r. pt_name r = sd_name sd) (task_row sd ks) (bt_tasks db1))\<rparr>"
    using run by (auto simp: create_periodic_task_def split: sum.split_asm)
  note s = find_schedule_spec[OF ok f(1)]
  have t: "table_ok (bt_tasks db)" and u: "unique_on pt_name (bt_tasks db)" using ok by (simp_all add: beat_ok_def)
  obtain k c t' where g: "get_or_create (\<lambda>r. pt_name r = sd_name sd) (task_row sd ks) (bt_tasks db) = ((k, c), t')"
    by (metis prod.exhaust)
  have db': "db' = db1\<lparr>bt_tasks := t'\<rparr>" using f(2) s g by simp
  show ?thesis
  proof (cases rule: get_or_create_cases[OF t g])
    case (1 r)
    then show ?thesis using s db' by (auto simp: beat_ok_def grows_def took_def adds_only_def)
  next
    case 2
    have "unique_on pt_name t'"
      by (rule tbl.unique_add[OF t u, of "task_row sd ks" k]) (use 2 in \<open>auto simp: add_row_def insert_row_def task_row_def\<close>)
    moreover have "runs_on sd (task_row sd ks) db'" using s db' by simp
    moreover have "get_row k t' = Some (task_row sd ks)" using 2 t by (simp add: get_add_row)
    moreover have "\<not> named (sd_name sd) db" using 2(4) by (auto simp: named_def)
    ultimately have "took sd db db'" unfolding took_def using db'
      by (intro exI[of _ k] exI[of _ "task_row sd ks"]) (simp add: task_row_def)
    moreover have "beat_ok db'" using s db' 2(3) t \<open>unique_on pt_name t'\<close> by (simp add: beat_ok_def)
    moreover have "grows db db'" using s db' 2(3) keeps_rows_add[OF t] by (simp add: grows_def)
    moreover have "adds_only sd db db'" using db' 2(3) t by (auto simp: adds_only_def get_add_row task_row_def split: if_splits)
    ultimately show ?thesis by blast
  qed
qed

lemma took_earlier:
  assumes "adds_only sd' db db1" "grows db db1" "sd_name sd \<noteq> sd_name sd'" "took sd db1 db2"
  shows "took sd db db2"
proof -
  have "named (sd_name sd) db \<Longrightarrow> named (sd_name sd) db1" using assms(2) unfolding named_def grows_def keeps_rows_def by blast
  then show ?thesis using assms(1,3,4) unfolding took_def adds_only_def by metis
qed

lemma took_later: "took sd db db1 \<Longrightarrow> grows db1 db2 \<Longrightarrow> took sd db db2"
  unfolding took_def using runs_on_grows by (meson grows_def keeps_rows_def)

lemma same_tables [simp]:
  "(db\<lparr>bt_intervals := a\<rparr> = db) = (a = bt_intervals db)" "(db\<lparr>bt_crontabs := c\<rparr> = db) = (c = bt_crontabs db)"
  by (cases db; auto)+

lemma found_iff:
  "find_schedule (Every n period) db = Inr (ks, db) \<longleftrightarrow>
     (\<exists>k. ks = (Some k, None) \<and> get_one_or_create (\<lambda>r. r = every_row n period) (every_row n period) (bt_intervals db) = Inr (k, bt_intervals db))"
  "find_schedule (Crontab m h d) db = Inr (ks, db) \<longleftrightarrow>
     (\<exists>k. ks = (None, Some k) \<and> get_one_or_create (same_crontab (crontab_row m h d)) (crontab_row m h d) (bt_crontabs db)
        = Inr (k, bt_crontabs db))"
  by (auto simp: find_schedule_def res_bind_Inr_iff)

lemma found_after_add:
  assumes "get_one_or_create P r t = Inr (k, t)" "\<not> P x" shows "get_one_or_create P r (add_row x t) = Inr (k, add_row x t)"
proof -
  have "t \<noteq> snd (insert_row r t)" by (cases t) (simp add: insert_row_def)
  then have "select_rows (\<lambda>_. P) t \<noteq> []" using assms(1)
    by (auto simp: get_one_or_create_def get_or_create_def insert_row_def split: if_split_asm)
  then show ?thesis using assms
    by (auto simp: get_one_or_create_def get_or_create_def count_rows_def select_add_row split: if_split_asm list.splits)
qed

lemma found_later:
  assumes "find_schedule (sd_schedule sd) db = Inr (ks, db)" "find_schedule (sd_schedule sd') db = Inr (ks', db1)"
    "sd_schedule sd \<noteq> sd_schedule sd'"
  shows "find_schedule (sd_schedule sd) db1 = Inr (ks, db1)"
proof (cases "sd_schedule sd'")
  case (Every n period)
  then obtain k t where g: "get_one_or_create (\<lambda>r. r = every_row n period) (every_row n period) (bt_intervals db) = Inr (k, t)"
    "db1 = db\<lparr>bt_intervals := t\<rparr>" using assms(2) by (auto simp: find_schedule_def res_bind_Inr_iff)
  show ?thesis
  proof (cases "sd_schedule sd")
    case (Every n' period')
    then have "every_row n period \<noteq> every_row n' period'" using \<open>sd_schedule sd' = _\<close> assms(3) by (auto simp: every_row_def)
    then show ?thesis using assms(1) Every g(2) get_one_or_create_cases(2)[OF g(1) refl] by (auto simp: found_iff intro: found_after_add)
  next
    case (Crontab m h d)
    then show ?thesis using assms(1) g(2) by (simp add: found_iff)
  qed
next
  case (Crontab m h d)
  then obtain k t where g: "get_one_or_create (same_crontab (crontab_row m h d)) (crontab_row m h d) (bt_crontabs db) = Inr (k, t)"
    "db1 = db\<lparr>bt_crontabs := t\<rparr>" using assms(2) by (auto simp: find_schedule_def res_bind_Inr_iff)
  have self: "same_crontab (crontab_row m h d) (crontab_row m h d)" by (simp add: same_crontab_def)
  show ?thesis
  proof (cases "sd_schedule sd")
    case (Every n' period')
    then show ?thesis using assms(1) g(2) by (simp add: found_iff)
  next
    case (Crontab m' h' d')
    then have "\<not> same_crontab (crontab_row m' h' d') (crontab_row m h d)"
      using \<open>sd_schedule sd' = _\<close> assms(3) by (auto simp: same_crontab_def crontab_row_def)
    then show ?thesis using assms(1) Crontab g(2) get_one_or_create_cases(2)[OF g(1) self] by (auto simp: found_iff intro: found_after_add)
  qed
qed

lemma seeded_later:
  assumes "seeded sd db" "create_periodic_task sd' db = (Inr (), db')" "sd_schedule sd \<noteq> sd_schedule sd'"
  shows "seeded sd db'"
proof -
  obtain ks where ks: "find_schedule (sd_schedule sd) db = Inr (ks, db)" "select_rows (\<lambda>_ r. pt_name r = sd_name sd) (bt_tasks db) \<noteq> []"
    using assms(1) by (auto simp: seeded_def)
  obtain ks' db1 where f: "find_schedule (sd_schedule sd') db = Inr (ks', db1)"
    "db' = db1\<lparr>bt_tasks := snd (get_or_create (\<lambda>r. pt_name r = sd_name sd') (task_row sd' ks') (bt_tasks db1))\<rparr>"
    using assms(2) by (auto simp: create_periodic_task_def split: sum.split_asm)
  have "find_schedule (sd_schedule sd) db' = Inr (ks, db')"
    unfolding f(2) by (rule find_schedule_again[OF found_later[OF ks(1) f(1) assms(3)]])
  moreover have "select_rows (\<lambda>_ r. pt_name r = sd_name sd) (bt_tasks db') \<noteq> []"
    using ks(2) f(2) find_schedule_tasks[OF f(1)]
    by (auto simp: get_or_create_def insert_row_def select_rows_def split: list.split)
  ultimately show ?thesis by (auto simp: seeded_def)
qed

lemma seed_all_steps:
  "seed_all db = (Inr (), db') \<longleftrightarrow> (\<exists>db1 db2. create_periodic_task poll_seed db = (Inr (), db1) \<and>
     create_periodic_task validation_seed db1 = (Inr (), db2) \<and> create_periodic_task purge_seed db2 = (Inr (), db'))"
  by (auto simp: seed_all_def seeds_def bnd_def split: prod.splits sum.splits)

lemma schedules_differ:
  "sd_schedule poll_seed \<noteq> sd_schedule validation_seed" "sd_schedule poll_seed \<noteq> sd_schedule purge_seed"
  "sd_schedule validation_seed \<noteq> sd_schedule purge_seed"
  by code_simp+

lemma names_differ:
  "sd_name poll_seed \<noteq> sd_name validation_seed" "sd_name poll_seed \<noteq> sd_name purge_seed"
  "sd_name validation_seed \<noteq> sd_name purge_seed"
  by code_simp+

lemma seeds_routed:
  "map (\<lambda>sd. map_option queue_of (find (\<lambda>j. task_name j = sd_task sd) argument_free_jobs)) seeds = map (Some \<circ> sd_queue) seeds"
  by code_simp

section \<open>Properties\<close>

text \<open>C14: Seeding completes the schedule: afterwards every seed has a task of its name, which is the row an
  administrator had before, untouched, or a new one that is enabled, runs on the schedule of the seed and makes the
  scheduler send a job of this program to the queue the routing table gives that job. No row is lost or changed,
  and seeding again changes nothing.\<close>

theorem seeding_completes_schedule:
  assumes ok: "beat_ok db" and run: "seed_all db = (Inr (), db')" and sd: "sd \<in> set seeds"
  shows "beat_ok db' \<and> grows db db' \<and> took sd db db' \<and> seed_all db' = (Inr (), db')
    \<and> (\<forall>r. pt_task r = sd_task sd \<longrightarrow> (\<exists>j. periodic_job r = Some j \<and> queue_of j = sd_queue sd))"
proof -
  obtain db1 db2 where steps: "create_periodic_task poll_seed db = (Inr (), db1)"
    "create_periodic_task validation_seed db1 = (Inr (), db2)" "create_periodic_task purge_seed db2 = (Inr (), db')"
    using run seed_all_steps by blast
  note a = create_spec[OF ok steps(1)]
  note b = create_spec[OF conjunct1[OF a] steps(2)]
  note c = create_spec[OF conjunct1[OF b] steps(3)]
  have g: "grows db1 db'" "grows db db2" "grows db db'" using a b c by (blast intro: grows_trans)+
  have "seeded poll_seed db'" "seeded validation_seed db'" "seeded purge_seed db'"
    using create_seeded[OF steps(1)] create_seeded[OF steps(2)] create_seeded[OF steps(3)]
      seeded_later[OF _ steps(2)] seeded_later[OF _ steps(3)] schedules_differ by blast+
  then have again: "seed_all db' = (Inr (), db')" unfolding seed_all_steps using seeded_stays by blast
  have "took poll_seed db db'" using a g(1) by (blast intro: took_later)
  moreover have "took validation_seed db db'"
    using a b c names_differ(1) by (metis took_later took_earlier)
  moreover have "took purge_seed db1 db'" using b c names_differ(3) by (metis took_earlier)
  then have "took purge_seed db db'" using a names_differ(2) by (metis took_earlier)
  ultimately have "took sd db db'" using sd by (auto simp: seeds_def)
  then show ?thesis using c g(3) again seeds_routed sd by (auto simp: periodic_job_def map_eq_conv)
qed

text \<open>An installation whose administrator set up the purge by hand, to run at half past four.\<close>

definition own_purge :: periodic_task where
  "own_purge = \<lparr>pt_name = sd_name purge_seed, pt_task = sd_task purge_seed, pt_queue = ''logs'', pt_interval = None,
     pt_crontab = Some 1, pt_enabled = False\<rparr>"

definition own_schedule :: beat_db where
  "own_schedule = \<lparr>bt_intervals = empty_table, bt_crontabs = add_row (crontab_row ''30'' ''4'' ''*'') empty_table,
     bt_tasks = add_row own_purge empty_table\<rparr>"

lemma own_schedule_ok: "beat_ok own_schedule"
proof -
  have "table_ok (bt_intervals own_schedule)" "table_ok (bt_crontabs own_schedule)" "table_ok (bt_tasks own_schedule)"
    by (simp_all add: own_schedule_def table_ok_add_row)
  moreover have "distinct (map pt_name (row_values (bt_tasks own_schedule)))" by code_simp
  ultimately show ?thesis by (simp add: beat_ok_def unique_on_list)
qed

lemma own_schedule_seeded: "fst (seed_all own_schedule) = Inr ()"
  by code_simp

theorem seeding_completes_schedule_witness:
  "took purge_seed own_schedule (snd (seed_all own_schedule))
   \<and> seed_all (snd (seed_all own_schedule)) = (Inr (), snd (seed_all own_schedule))"
  using seeding_completes_schedule[OF own_schedule_ok, of "snd (seed_all own_schedule)" purge_seed] own_schedule_seeded
  by (metis list.set_intros prod.collapse seeds_def)

end
