(* ===== verification/System.thy ===== *)
theory System
  imports Task_Laws Schedule Api
begin

text \<open>
  The whole program as one state machine: requests to the site and to the API, workers that take jobs off the
  queues, lost workers whose message is delivered again, retries, the scheduler, and time, in any order, with any
  answer of the outside world at every step.
\<close>

section \<open>What requests leave alone\<close>

definition confined :: "http_request \<Rightarrow> world \<Rightarrow> world \<Rightarrow> bool" where
  "confined rq w w' \<longleftrightarrow> w_ips w' = w_ips w \<and> w_history w' = w_history w \<and> w_now w' = w_now w \<and> (nets_ok w \<longrightarrow> nets_ok w')"

interpretation confined: view_law confined
  by unfold_locales (simp add: confined_def)

lemma audit_frame [simp]:
  "w_ips (audit a ob w) = w_ips w" "w_history (audit a ob w) = w_history w" "w_now (audit a ob w) = w_now w"
  "w_cidrs (audit a ob w) = w_cidrs w"
  by (simp_all add: audit_def)

lemma nets_ok_audit [simp]: "nets_ok (audit a ob w) = nets_ok w"
  by (simp add: nets_ok_def)

lemma confined_cidrs:
  "w_ips w' = w_ips w \<Longrightarrow> w_history w' = w_history w \<Longrightarrow> w_now w' = w_now w \<Longrightarrow> w_cidrs w' = w_cidrs w \<Longrightarrow> confined rq w w'"
  by (simp add: confined_def nets_ok_def)

lemma delete_server_now [simp]: "w_now (delete_server k w) = w_now w"
  by (simp add: delete_server_def Let_def)

lemma network_ok_touched: "network_ok (r\<lparr>cn_enabled := b, cn_updated_at := t\<rparr>) = network_ok r"
  unfolding network_ok_def by (simp split: option.split)

lemma confined_cidr_create: "obeys confined (cidr_create lib)"
proof -
  have saved: "confined rq w (audit a ob w')" if "save_new_network r w = (Inr k, w')" for rq a ob w w' r k
  proof (rule save_new_network_ok[OF that])
    fix c n
    let ?r = "r\<lparr>cn_cidr := c, cn_prefix_length := nat n, cn_created_at := w_now w, cn_updated_at := w_now w\<rparr>"
    assume "w' = w\<lparr>w_cidrs := add_row ?r (w_cidrs w)\<rparr>" "network_ok ?r"
    then show ?thesis by (auto simp: confined_def nets_ok_def rows_hold_def get_add_row)
  qed
  have failed: "w' = w" if "save_new_network r w = (Inl e, w')" for r w e w'
    using that by (auto simp: save_new_network_def Let_def case_prod_beta split: if_split_asm sum.split_asm option.split_asm)
  show ?thesis unfolding cidr_create_def
    by (intro confined.login) (auto simp: obeys_def Let_def confined.unchanged dest: failed saved split: option.split sum.split prod.split)
qed

lemma confined_toggle: "obeys confined (cidr_toggle_enabled k)"
proof -
  have "nets_ok (w\<lparr>w_cidrs := update_row k (\<lambda>x. x\<lparr>cn_enabled := b, cn_updated_at := t\<rparr>) (w_cidrs w)\<rparr>)" if "nets_ok w" for w b t
    using that by (auto simp: nets_ok_def rows_hold_def get_update_row network_ok_touched)
  then show ?thesis unfolding cidr_toggle_enabled_def
    by (intro confined.login confined.post confined.lookup)
      (simp add: confined_def Let_def split: sum.split)
qed

lemma confined_download: "obeys confined (export_download env)"
  unfolding export_download_def
proof (rule confined.login, unfold obeys_def, intro allI)
  fix rq :: http_request and w :: world
  let ?run = "run_export (se_cidr_in env) (rq_get rq) [] None w :: page content res \<times> world"
  have "snd (bnd (run_export (se_cidr_in env) (rq_get rq) [] None) (\<lambda>c :: page content. ret (c, [] :: message list)) w) = snd ?run"
    by (simp add: bnd_def case_prod_beta split: sum.split)
  moreover have "confined rq w (snd ?run)"
    using run_export_run[of "se_cidr_in env" "rq_get rq" "[]" None w] by (auto intro!: confined_cidrs confined.unchanged)
  ultimately show "confined rq w (snd (bnd (run_export (se_cidr_in env) (rq_get rq) [] None) (\<lambda>c :: page content. ret (c, [] :: message list)) w))"
    by metis
qed

lemma confined_rest:
  "obeys confined (server_delete k)" "obeys confined (server_toggle_enabled k)" "obeys confined (server_test_connection k)"
  "obeys confined (server_discover_logs k)" "obeys confined (log_source_poll_now k)" "obeys confined (log_source_toggle_enabled k)"
  "obeys confined (force_whois k)" "obeys confined (recalculate_iran k)" "obeys confined run_purge_now"
  "obeys confined (server_create lib)" "obeys confined (server_update lib k)"
proof -
  note rules = confined.login confined.post confined.lookup
  show "obeys confined (server_delete k)" unfolding server_delete_def by (intro rules) (simp add: confined_cidrs)
  show "obeys confined (server_toggle_enabled k)" unfolding server_toggle_enabled_def
    by (intro rules) (simp add: Let_def confined_cidrs)
  show "obeys confined (server_test_connection k)" unfolding server_test_connection_def by (intro rules) (simp add: confined_cidrs)
  show "obeys confined (server_discover_logs k)" unfolding server_discover_logs_def by (intro rules) (simp add: confined_cidrs)
  show "obeys confined (log_source_poll_now k)" unfolding log_source_poll_now_def by (intro rules) (simp add: confined_cidrs)
  show "obeys confined (log_source_toggle_enabled k)" unfolding log_source_toggle_enabled_def
    by (intro rules) (simp add: Let_def confined_cidrs)
  show "obeys confined (force_whois k)" unfolding force_whois_def by (intro rules) (simp add: confined_cidrs)
  show "obeys confined (recalculate_iran k)" unfolding recalculate_iran_def by (intro rules) (simp add: confined_cidrs)
  show "obeys confined run_purge_now" unfolding run_purge_now_def
    by (intro confined.login confined.post) (simp add: obeys_def confined_cidrs)
  show "obeys confined (server_create lib)" unfolding server_create_def
    by (intro confined.login) (auto simp: obeys_def create_server_def Let_def insert_row_def confined.unchanged intro!: confined_cidrs
      split: option.split)
  show "obeys confined (server_update lib k)" unfolding server_update_def
    by (intro confined.login confined.lookup) (auto simp: store_server_def Let_def confined.unchanged intro!: confined_cidrs
      split: option.split)
qed

lemma confined_views: "obeys confined (view_of env r)"
  by (cases r) (simp_all add: confined_rest confined_cidr_create confined_toggle confined_download
      confined.reads reading_rest reading_settings, (simp_all add: reading_views confined.reads reading_show reading_with_get)?)

lemma accounted_log_grows: "accounted rq w w' \<Longrightarrow> log_grows (w_audit w) (w_audit w')"
  by (auto simp: accounted_def server_job_def one_entry_def)

lemma good_confined:
  assumes "confined rq w w'" "db_ok w \<Longrightarrow> db_ok w'" "log_grows (w_audit w) (w_audit w')"
  shows "good w w'"
  using assms by (auto simp: good_def state_ok_def confined_def cidrs_ok_def db_ok_def histories_ok_def evolves_def)

lemma good_handle: "good w (snd (handle env r rq w))"
proof -
  let ?w = "w\<lparr>w_context := Some \<lparr>rc_user_id = rq_user rq, rc_ip_address = get_client_ip rq\<rparr>\<rparr>"
  obtain res w1 where v: "view_of env r rq ?w = (res, w1)" by (cases "view_of env r rq ?w")
  have "confined rq ?w w1" "db_ok ?w \<longrightarrow> db_ok w1" "accounted rq ?w w1"
    using confined_views[of env r] keeps_views[of env r] accountable_views[of env r] v unfolding obeys_def sound_def by (metis snd_conv)+
  then have "good ?w w1" by (intro good_confined) (auto dest: accounted_log_grows)
  then show ?thesis using v by (simp add: handle_def middleware_run)
qed

lemma good_handle_api: "good w (snd (handle_api env e rq w))"
proof -
  have x: "good w (snd (run_export c ps extra u w))" for c ps extra u w
    by (auto simp: run_export_def Let_def intro!: good_audit split: sum.split)
  have "good w (snd (api_view env e rq w))" for w
    using x by (auto simp: api_view_def bnd_def case_prod_beta split: option.split api_endpoint.split sum.split if_split)
  from this[of "w\<lparr>w_context := c\<rparr>" for c] have "good w (snd (api_view env e rq (w\<lparr>w_context := c\<rparr>)))" for c by simp
  then show ?thesis by (auto simp: handle_api_def audit_middleware_def set_context_def reset_context_def split: prod.split) (metis snd_conv)
qed

section \<open>Jobs\<close>

text \<open>What the outside world answers while one job runs.\<close>

record task_env =
  te_decode :: "string \<Rightarrow> string"
  te_host :: host
  te_feed :: "string res"
  te_whois :: whois_host
  te_geoip :: geoip2

definition done_with :: "'a eff \<Rightarrow> int option eff" where
  "done_with m w = (case m w of (Inl e, w') \<Rightarrow> (Inl e, w') | (Inr _, w') \<Rightarrow> (Inr None, w'))"

text \<open>The task registered for a message, run for the n-th time: the answer is a countdown when the task asks to be retried.\<close>

fun run_job :: "task_env \<Rightarrow> nat \<Rightarrow> job \<Rightarrow> int option eff" where
  "run_job e n (Poll_log_source k) = done_with (poll_log_source (te_decode e) (te_host e) k)"
| "run_job e n Poll_all_log_sources = done_with poll_all_log_sources"
| "run_job e n (Process_new_ip k) = done_with (process_new_ip k)"
| "run_job e n (Enrich_ip k) = done_with (enrich_ip (te_geoip e) k)"
| "run_job e n (Perform_whois_lookup k force) = perform_whois_lookup (te_whois e) n k force"
| "run_job e n (Classify_ip k) = done_with (classify_ip k)"
| "run_job e n Run_monthly_iran_validation = done_with (run_monthly_iran_validation (te_feed e))"
| "run_job e n Purge_old_data = done_with purge_old_data"
| "run_job e n Purge_stale_ips = done_with purge_stale_ips"
| "run_job e n Purge_old_request_events = done_with purge_old_request_events"
| "run_job e n Purge_old_whois_records = done_with purge_old_whois_records"
| "run_job e n (Test_server_connection k u) = done_with (test_server_connection (te_host e) k u)"
| "run_job e n (Discover_server_logs k u) = done_with (discover_server_logs (te_host e) k u)"

lemma snd_done_with [simp]: "snd (done_with m w) = snd (m w)"
  by (simp add: done_with_def split: prod.split sum.split)

lemma done_with_final [simp]: "done_with m w \<noteq> (Inr (Some c), w')"
  by (simp add: done_with_def split: prod.split sum.split)

lemma good_run_job: "good w (snd (run_job e n j w))"
  by (cases j) (simp_all add: good_poll_log_source good_poll_all good_process_new_ip good_enrich_ip good_whois good_classify_ip
    good_monthly_validation good_purge good_purge_ips good_purge_requests good_purge_responses good_test_connection good_discover)

lemma run_job_retry:
  "run_job e n j w = (Inr (Some c), w') \<Longrightarrow> n < max_retries \<and> c = 30 * 2 ^ n \<and> (\<exists>k force. j = Perform_whois_lookup k force)"
  by (cases j) (auto dest: perform_retry)

section \<open>The system\<close>

record system =
  sy_world :: world
  sy_retries :: "(job \<times> nat \<times> time) list"
  sy_beat :: beat_db

text \<open>A task that asked for a retry is delivered again, with its count raised, when the countdown is over.\<close>

definition settle :: "job \<Rightarrow> nat \<Rightarrow> int option res \<Rightarrow> world \<Rightarrow> system \<Rightarrow> system" where
  "settle j n res w' s =
     (case res of
        Inr (Some c) \<Rightarrow> s\<lparr>sy_world := w', sy_retries := (j, Suc n, w_now w' + seconds c) # sy_retries s\<rparr>
      | _ \<Rightarrow> s\<lparr>sy_world := w'\<rparr>)"

definition with_jobs :: "job list \<Rightarrow> world \<Rightarrow> world" where
  "with_jobs js w = w\<lparr>w_jobs := js\<rparr>"

inductive system_step :: "system \<Rightarrow> system \<Rightarrow> bool" where
  page: "system_step s (s\<lparr>sy_world := snd (handle env r rq (sy_world s))\<rparr>)"
| api: "system_step s (s\<lparr>sy_world := snd (handle_api aenv e rq (sy_world s))\<rparr>)"
| work: "w_jobs (sy_world s) = before @ j # after \<Longrightarrow> run_job env 0 j (with_jobs (before @ after) (sy_world s)) = (res, w') \<Longrightarrow>
    system_step s (settle j 0 res w' s)"
| redelivered: "j \<in> set (w_jobs (sy_world s)) \<Longrightarrow> run_job env 0 j (sy_world s) = (res, w') \<Longrightarrow> system_step s (settle j 0 res w' s)"
| retry: "sy_retries s = before @ (j, n, due) # after \<Longrightarrow> due \<le> w_now (sy_world s) \<Longrightarrow> run_job env n j (sy_world s) = (res, w') \<Longrightarrow>
    system_step s (settle j n res w' (s\<lparr>sy_retries := before @ after\<rparr>))"
| beat: "get_row k (bt_tasks (sy_beat s)) = Some r \<Longrightarrow> pt_enabled r \<Longrightarrow> periodic_job r = Some j \<Longrightarrow>
    system_step s (s\<lparr>sy_world := delay j (sy_world s)\<rparr>)"
| tick: "w_now (sy_world s) \<le> t \<Longrightarrow> system_step s (s\<lparr>sy_world := (sy_world s)\<lparr>w_now := t\<rparr>\<rparr>)"
| joins: "system_step s (s\<lparr>sy_world := (sy_world s)\<lparr>w_users := add_row u (w_users (sy_world s))\<rparr>\<rparr>)"

text \<open>A fresh installation: empty tables and the seeded schedule.\<close>

definition installed :: "settings \<Rightarrow> time \<Rightarrow> system" where
  "installed cfg now = \<lparr>sy_world = empty_world cfg now, sy_retries = [], sy_beat = snd (seed_all empty_beat)\<rparr>"

abbreviation system_run :: "system \<Rightarrow> system \<Rightarrow> bool" where
  "system_run \<equiv> system_step\<^sup>*\<^sup>*"

definition reachable :: "system \<Rightarrow> bool" where
  "reachable s \<longleftrightarrow> (\<exists>cfg now. system_run (installed cfg now) s)"

section \<open>Every step is good\<close>

lemma periods_ok_later: "periods_ok now r ps \<Longrightarrow> now \<le> t \<Longrightarrow> periods_ok t r ps"
  by (auto simp: periods_ok_def period_ok_def list_all_iff split: option.splits)

lemma good_tick:
  assumes "w_now w \<le> t" shows "good w (w\<lparr>w_now := t\<rparr>)"
proof -
  have "histories_ok (w\<lparr>w_now := t\<rparr>)" if "histories_ok w"
    using that periods_ok_later[OF _ assms] by (simp add: histories_ok_def rows_hold_def)
  then show ?thesis using assms by (auto simp: good_def state_ok_def evolves_def db_parts cidrs_ok_def nets_ok_def)
qed

lemma good_user: "good w (w\<lparr>w_users := add_row u (w_users w)\<rparr>)"
  by (rule good_other_tables) (simp_all add: db_parts)

lemma settle_world [simp]: "sy_world (settle j n res w' s) = w'"
  by (simp add: settle_def split: sum.split option.split)

lemma with_jobs_good [simp]: "good (with_jobs js w) w' = good w w'"
  by (simp add: with_jobs_def)

lemma step_good: "system_step s s' \<Longrightarrow> good (sy_world s) (sy_world s')"
proof (induction rule: system_step.induct)
  case (work s before j after env res w')
  then show ?case using good_run_job[of "with_jobs (before @ after) (sy_world s)" env 0 j] by simp
next
  case (redelivered j s env res w')
  then show ?case using good_run_job[of "sy_world s" env 0 j] by simp
next
  case (retry s before j n due after env res w')
  then show ?case using good_run_job[of "sy_world s" env n j] by simp
qed (simp_all add: good_handle good_handle_api good_tick good_user)

lemma run_good: "system_run s s' \<Longrightarrow> good (sy_world s) (sy_world s')"
  by (induction rule: rtranclp_induct) (auto intro: good_trans step_good)

definition retries_ok :: "(job \<times> nat \<times> time) list \<Rightarrow> bool" where
  "retries_ok rs \<longleftrightarrow> (\<forall>(j, n, due)\<in>set rs. 0 < n \<and> n \<le> max_retries \<and> (\<exists>k force. j = Perform_whois_lookup k force))"

lemma settle_retries:
  assumes "retries_ok (sy_retries s)" "run_job env n j w = (res, w')" shows "retries_ok (sy_retries (settle j n res w' s))"
  using assms run_job_retry[of env n j w _ w'] by (auto simp: settle_def retries_ok_def split: sum.split option.split)

lemma step_retries: "system_step s s' \<Longrightarrow> retries_ok (sy_retries s) \<Longrightarrow> retries_ok (sy_retries s')"
proof (induction rule: system_step.induct)
  case (retry s before j n due after env res w')
  then have "retries_ok (sy_retries (s\<lparr>sy_retries := before @ after\<rparr>))" by (auto simp: retries_ok_def)
  then show ?case by (rule settle_retries) (rule retry.hyps)
qed (auto intro: settle_retries)

lemma installed_ok: "state_ok (sy_world (installed cfg now))"
  by (simp add: installed_def state_ok_def empty_world_ok cidrs_ok_def nets_ok_def cidrs_unique_def histories_ok_def)
     (simp add: empty_world_def rows_hold_def rows_unique_def empty_table_def get_row_def table_ok_def)

lemma beat_kept: "system_step s s' \<Longrightarrow> sy_beat s' = sy_beat s"
  by (induction rule: system_step.induct) (simp_all add: settle_def split: sum.split option.split)

lemma installed_beat: "beat_ok (sy_beat (installed cfg now))"
proof -
  have "table_ok (bt_intervals empty_beat)" "table_ok (bt_crontabs empty_beat)" "table_ok (bt_tasks empty_beat)"
    by (simp_all add: empty_beat_def)
  moreover have "unique_on pt_name (bt_tasks empty_beat)" by (simp add: empty_beat_def rows_unique_def empty_table_def get_row_def)
  ultimately have ok: "beat_ok empty_beat" by (simp add: beat_ok_def)
  have "fst (seed_all empty_beat) = Inr ()" by code_simp
  then have "seed_all empty_beat = (Inr (), snd (seed_all empty_beat))" by (metis prod.collapse)
  then obtain db1 db2 where steps: "create_periodic_task poll_seed empty_beat = (Inr (), db1)"
    "create_periodic_task validation_seed db1 = (Inr (), db2)" "create_periodic_task purge_seed db2 = (Inr (), snd (seed_all empty_beat))"
    using seed_all_steps by blast
  then have "beat_ok (snd (seed_all empty_beat))" using create_spec ok by blast
  then show ?thesis by (simp add: installed_def)
qed

definition system_ok :: "system \<Rightarrow> bool" where
  "system_ok s \<longleftrightarrow> state_ok (sy_world s) \<and> retries_ok (sy_retries s) \<and> beat_ok (sy_beat s)"

lemma run_system_ok: "system_run s s' \<Longrightarrow> system_ok s \<Longrightarrow> system_ok s'"
  by (induction rule: rtranclp_induct) (auto simp: system_ok_def dest: step_good step_retries beat_kept simp: good_def)

section \<open>Properties\<close>

text \<open>C9: In every state the system can reach, whatever was requested, worked on, repeated, lost or answered before, the
  database is consistent (no dangling reference, unique addresses, networks, server names and log sources), every
  network is stored in canonical form, the classification history of every address is a sequence of disjoint periods
  of which the open one agrees with the flag of the address, and only WHOIS lookups wait for a retry, at most their third.\<close>

theorem reachable_states_ok:
  assumes "reachable s"
  shows "db_ok (sy_world s) \<and> cidrs_ok (sy_world s) \<and> histories_ok (sy_world s) \<and> retries_ok (sy_retries s) \<and> beat_ok (sy_beat s)"
proof -
  obtain cfg now where "system_run (installed cfg now) s" using assms by (auto simp: reachable_def)
  moreover have "system_ok (installed cfg now)"
    using installed_ok installed_beat by (simp add: system_ok_def retries_ok_def installed_def)
  ultimately have "system_ok s" by (rule run_system_ok)
  then show ?thesis by (simp add: system_ok_def state_ok_def)
qed


text \<open>C13: A key of the address table never comes to mean another address: along any run an address that is still there under
  its key has the same text, version and first sighting, and its last sighting has not moved back.\<close>

theorem addresses_keep_identity:
  assumes "state_ok (sy_world s)" "system_run s s'"
    and "get_row k (w_ips (sy_world s)) = Some r" "get_row k (w_ips (sy_world s')) = Some r'"
  shows "ia_address r' = ia_address r \<and> ia_version r' = ia_version r \<and> ia_first_seen_at r' = ia_first_seen_at r
    \<and> ia_last_seen_at r \<le> ia_last_seen_at r'"
proof -
  have "table_ok (w_ips (sy_world s))" using assms(1) by (simp add: state_ok_def db_parts)
  then have "k \<le> tb_seq (w_ips (sy_world s))" using get_row_seq[OF _ assms(3)] by blast
  moreover have "ips_evolve (w_ips (sy_world s)) (w_ips (sy_world s'))" using run_good[OF assms(2)] assms(1) by (simp add: good_def evolves_def)
  ultimately have "same_address r r'" using assms(3,4) unfolding ips_evolve_def by fastforce
  then show ?thesis by (simp add: same_address_def)
qed

section \<open>Examples\<close>

text \<open>The purge button on a fresh installation; and the address of the classification example with its job queued
  and a lookup waiting for its third attempt.\<close>

definition first_request :: system where
  "first_request = (installed default_settings 0)\<lparr>sy_world :=
     snd (handle site_environment Settings_purge (site_request (Some 7) ''POST'') (sy_world (installed default_settings 0)))\<rparr>"

definition busy_system :: system where
  "busy_system = \<lparr>sy_world = iran_world\<lparr>w_jobs := [Poll_all_log_sources, Classify_ip 1]\<rparr>,
     sy_retries = [(Perform_whois_lookup 1 False, 2, 600)], sy_beat = empty_beat\<rparr>"

lemma first_request_run: "system_run (installed default_settings 0) first_request"
  unfolding first_request_def by (rule r_into_rtranclp) (rule system_step.page)

lemma busy_system_ok: "state_ok (sy_world busy_system)" "retries_ok (sy_retries busy_system)"
proof -
  have "db_ok iran_world" unfolding db_ok_check by code_simp
  then have "state_ok iran_world" using iran_world_cidrs_ok iran_world_histories_ok by (simp add: state_ok_def)
  then show "state_ok (sy_world busy_system)" by (simp add: busy_system_def)
  show "retries_ok (sy_retries busy_system)" by (auto simp: busy_system_def retries_ok_def max_retries_def)
qed

theorem reachable_states_ok_witness:
  "db_ok (sy_world first_request) \<and> histories_ok (sy_world first_request) \<and> beat_ok (sy_beat first_request)"
  using reachable_states_ok[of first_request] first_request_run unfolding reachable_def by blast


theorem addresses_keep_identity_witness:
  "\<forall>env. \<exists>r'. get_row 1 (w_ips (sy_world (settle (Classify_ip 1) 0 (fst (run_job env 0 (Classify_ip 1) (with_jobs [Poll_all_log_sources] iran_world)))
        (snd (run_job env 0 (Classify_ip 1) (with_jobs [Poll_all_log_sources] iran_world))) busy_system))) = Some r'
     \<and> ia_address r' = ia_address iran_ip"
proof
  fix env
  let ?run = "run_job env 0 (Classify_ip 1) (with_jobs [Poll_all_log_sources] iran_world)"
  let ?s = "settle (Classify_ip 1) 0 (fst ?run) (snd ?run) busy_system"
  have jobs: "w_jobs (sy_world busy_system) = [Poll_all_log_sources] @ Classify_ip 1 # []" by (simp add: busy_system_def)
  have "with_jobs ([Poll_all_log_sources] @ []) (sy_world busy_system) = with_jobs [Poll_all_log_sources] iran_world"
    by (simp add: busy_system_def with_jobs_def)
  then have "system_step busy_system ?s" using system_step.work[OF jobs, of env "fst ?run" "snd ?run"] by (metis prod.collapse)
  then have run: "system_run busy_system ?s" by blast
  have "get_row 1 (w_ips (snd (classify_ip 1 (with_jobs [Poll_all_log_sources] iran_world)))) \<noteq> None" by code_simp
  then obtain r' where r': "get_row 1 (w_ips (sy_world ?s)) = Some r'" by auto
  have "get_row 1 (w_ips (sy_world busy_system)) = Some iran_ip" using iran_world_rows(2) by (simp add: busy_system_def)
  from addresses_keep_identity[OF busy_system_ok(1) run this r'] r'
  show "\<exists>r'. get_row 1 (w_ips (sy_world ?s)) = Some r' \<and> ia_address r' = ia_address iran_ip" by blast
qed

end
