(* ===== verification/Draining.thy ===== *)
theory Draining
  imports World System "HOL-Library.Multiset"
begin

text \<open>
  The queues run empty: a task only ever sends jobs further down a fixed order of job kinds, and retries are
  bounded, so working off what is queued ends whatever the outside world answers.
\<close>

section \<open>What a task may send\<close>

fun job_rank :: "job \<Rightarrow> nat" where
  "job_rank Poll_all_log_sources = max_retries + 4"
| "job_rank (Poll_log_source _) = max_retries + 3"
| "job_rank (Process_new_ip _) = max_retries + 2"
| "job_rank (Perform_whois_lookup _ _) = max_retries + 1"
| "job_rank _ = 0"

definition sends :: "nat \<Rightarrow> world \<Rightarrow> world \<Rightarrow> bool" where
  "sends n w w' \<longleftrightarrow> (\<exists>js. w_jobs w' = w_jobs w @ js \<and> (\<forall>j\<in>set js. job_rank j < n))"

lemma sends_same: "w_jobs w' = w_jobs w \<Longrightarrow> sends n w w'"
  by (simp add: sends_def)

lemma sends_refl [simp]: "sends n w w"
  by (simp add: sends_same)

lemma sends_cache [simp]: "sends n w (w'\<lparr>w_cache := c\<rparr>) = sends n w w'" "sends n (w\<lparr>w_cache := c\<rparr>) w' = sends n w w'"
  by (simp_all add: sends_def)

lemma sends_delay: "sends n w w' \<Longrightarrow> job_rank j < n \<Longrightarrow> sends n w (delay j w')"
  by (auto simp: sends_def delay_def)

lemma sends_delays: "sends n w w' \<Longrightarrow> \<forall>j\<in>set js. job_rank j < n \<Longrightarrow> sends n w (delays js w')"
  by (auto simp: sends_def delays_def)

lemma sends_lock:
  assumes "\<And>c. sends n w (snd (body (w\<lparr>w_cache := c\<rparr>)))" shows "sends n w (snd (redis_lock key timeout body w))"
  by (rule lock_rule) (simp_all add: assms sends_same)

lemma sends_skip: "sends n w (snd (m w)) \<Longrightarrow> sends n w (snd (skip_if_held m w))"
  by (auto simp: skip_if_held_def split: prod.split sum.split py_exn.split)

section \<open>Tasks that send nothing\<close>

lemma classify_jobs [simp]: "w_jobs (snd (classify k ip w)) = w_jobs w"
  by (simp add: classify_def Let_def split: sum.split)

lemma classify_all_jobs [simp]: "w_jobs (snd (classify_all xs w)) = w_jobs w"
proof (induction xs arbitrary: w)
  case (Cons x xs)
  obtain k ip where x: "x = (k, ip)" by (cases x)
  show ?case using classify_jobs[of k ip w] Cons by (auto simp: x simp del: classify_jobs split: prod.split sum.split) (metis snd_conv)+
qed simp

lemma save_network_jobs: "save_new_network r w = (res, w') \<Longrightarrow> w_jobs w' = w_jobs w"
  by (subst save_new_network_frame) simp_all

lemma upsert_jobs [simp]: "w_jobs (snd (upsert_network src en w)) = w_jobs w"
  by (auto simp: upsert_network_def Let_def dest: save_network_jobs split: sum.split option.split list.split prod.split)

lemma upsert_all_jobs [simp]: "w_jobs (snd (upsert_all src ens w)) = w_jobs w"
proof (induction ens arbitrary: w)
  case (Cons en ens)
  show ?case using upsert_jobs[of src en w] Cons by (auto simp del: upsert_jobs split: prod.split sum.split) (metis snd_conv)+
qed simp

lemma validation_jobs [simp]: "w_jobs (snd (validation_run response p w)) = w_jobs w"
proof (cases "provider_fetch response p w")
  case (Inr ens)
  let ?src = "provider_source p"
  obtain r w1 where u: "upsert_all ?src ens w = (r, w1)" by (cases "upsert_all ?src ens w")
  have w1: "w_jobs w1 = w_jobs w" using upsert_all_jobs[of ?src ens w] u by simp
  have "w_jobs w3 = w_jobs w" if "classify_all xs (w1\<lparr>w_cidrs := t\<rparr>) = (r3, w3)" for xs t r3 w3
    using classify_all_jobs[of xs "w1\<lparr>w_cidrs := t\<rparr>"] that w1 by simp
  then show ?thesis using Inr u w1
    by (auto simp: validation_run_def validate_with_def Let_def split: sum.split prod.split)
qed (simp add: validation_run_def validate_with_def)

lemma monthly_jobs [simp]: "w_jobs (snd (run_monthly_iran_validation response w)) = w_jobs w"
proof -
  have "w_jobs w' = w_jobs w" if "validation_run response p w = (r, w')" for p r w' using validation_jobs[of response p w] that by simp
  then show ?thesis by (auto simp: run_monthly_iran_validation_def split: sum.split prod.split)
qed

lemma purge_jobs [simp]:
  "w_jobs (snd (purge_old_request_events w)) = w_jobs w" "w_jobs (snd (purge_old_whois_records w)) = w_jobs w"
  "w_jobs (snd (purge_stale_ips w)) = w_jobs w"
  by (simp_all add: purge_old_request_events_def purge_old_whois_records_def purge_stale_ips_def delete_ips_def Let_def)

lemma purge_data_jobs [simp]: "w_jobs (snd (purge_old_data w)) = w_jobs w"
proof -
  obtain s where "purge_old_data w = (Inr s, snd (purge_stale_ips (trimmed w)))" using purge_old_data_steps by blast
  then show ?thesis by (simp add: trimmed_def)
qed

lemma geo_jobs [simp]: "w_jobs (snd (geo_enrich g k ip w)) = w_jobs w"
  by (simp add: geo_enrich_def split: sum.split option.split)

lemma register_jobs [simp]: "w_jobs (snd (register_logs k fs w)) = w_jobs w"
proof (induction fs arbitrary: w)
  case (Cons f fs)
  have "w_jobs w' = w_jobs w" if "register_logs k fs (w\<lparr>w_sources := t\<rparr>) = (n, w')" for t n w'
    using Cons[of "w\<lparr>w_sources := t\<rparr>"] that by simp
  then show ?case by (auto split: prod.split)
qed simp

section \<open>What each task sends\<close>

lemma bump_jobs [simp]: "w_jobs (snd (bump_last_seen l d w)) = w_jobs w"
  by (induction l d w rule: bump_last_seen.induct) (auto split: option.split)

lemma sends_sightings:
  assumes "max_retries + 2 < n" shows "sends n w (snd (record_sightings_bulk xs w))"
proof (cases "latest_seen_at [] xs")
  case l: (Inr latest)
  define existing where "existing = existing_ips (map fst latest) w"
  define new where "new = filter (\<lambda>(a, _). a \<notin> fst ` set existing) latest"
  show ?thesis
  proof (cases "new_ip_rows new (w_now w)")
    case (Inl e)
    then show ?thesis using l by (simp add: record_sightings_bulk_def Let_def new_def existing_def)
  next
    case (Inr rows)
    define w1 where "w1 = w\<lparr>w_ips := create_ips rows (w_ips w)\<rparr>"
    define ex where "ex = (if rows \<noteq> [] then existing_ips (map fst latest) w1 else existing)"
    obtain r w2 where b: "bump_last_seen latest ex w1 = (r, w2)" by (cases "bump_last_seen latest ex w1")
    have "w_jobs w2 = w_jobs w" using bump_jobs[of latest ex w1] unfolding b by (simp add: w1_def)
    then have "sends n w w2" by (rule sends_same)
    moreover have "\<forall>j\<in>set (concat (map (\<lambda>(a, _). case map_of d a of None \<Rightarrow> [] | Some (k, _) \<Rightarrow> [Process_new_ip k]) new)). job_rank j < n" for d
      using assms by (auto split: option.splits)
    ultimately have s: "sends n w (delays (concat (map (\<lambda>(a, _). case map_of d a of None \<Rightarrow> [] | Some (k, _) \<Rightarrow> [Process_new_ip k]) new)) w2)" for d
      by (rule sends_delays)
    have "record_sightings_bulk xs w = (if xs = [] then (Inr [], w) else case r of Inl e \<Rightarrow> (Inl e, w2)
        | Inr d \<Rightarrow> (Inr d, delays (concat (map (\<lambda>(a, _). case map_of d a of None \<Rightarrow> [] | Some (k, _) \<Rightarrow> [Process_new_ip k]) new)) w2))"
      using l Inr b
      by (cases "rows = []"; cases r) (simp_all add: record_sightings_bulk_def Let_def new_def ex_def w1_def existing_def)
    then show ?thesis using s \<open>sends n w w2\<close> by (cases r) auto
  qed
qed (simp add: record_sightings_bulk_def)

lemma sends_poll: "sends (max_retries + 3) w (snd (poll_log_source decode h k w))"
proof -
  have store: "sends (max_retries + 3) w (snd (store_events src k ps w))" for src ps w
  proof -
    let ?xs = "map (\<lambda>p. (pl_remote_addr p, pl_timestamp p)) ps"
    obtain r w1 where r: "record_sightings_bulk ?xs w = (r, w1)" by (cases "record_sightings_bulk ?xs w")
    then have "sends (max_retries + 3) w w1" using sends_sightings[of "max_retries + 3" w ?xs] by simp
    then show ?thesis using r by (auto simp: store_events_def sends_def split: sum.split)
  qed
  have poll: "sends (max_retries + 3) w (snd (reader_poll decode h k src w))" for src w
  proof -
    have saved: "sends m w (save_source k f w1) = sends m w w1" for m f w1 by (simp add: sends_def save_source_def)
    show ?thesis
    proof (cases "get_row (ls_server src) (w_servers w)")
      case (Some server)
      let ?poll = "poll_log h server (ls_path src) (ls_inode src) (if ls_inode src \<noteq> None then Some (ls_byte_offset src) else None)"
      consider e where "?poll = Inl e" | "?poll = Inr None" | chunk where "?poll = Inr (Some chunk)" by (cases ?poll) auto
      then show ?thesis
      proof cases
        case (3 chunk)
        show ?thesis
        proof (cases "compiled_pattern (ls_format src)")
          case (Inr pattern)
          let ?parsed = "parsed_of pattern (complete_lines decode (lc_data chunk))"
          obtain r w1 where "store_events src k ?parsed w = (r, w1)" by (cases "store_events src k ?parsed w")
          then show ?thesis using Some 3 Inr store[of w src ?parsed]
            by (cases r) (simp_all add: reader_poll_def Let_def parse_lines_eq saved)
        qed (use Some 3 in \<open>simp add: reader_poll_def\<close>)
      qed (use Some in \<open>simp_all add: reader_poll_def saved\<close>)
    qed (simp add: reader_poll_def)
  qed
  have "sends (max_retries + 3) w (snd (case reader_poll decode h k src (w\<lparr>w_cache := c\<rparr>) of (Inl e, w') \<Rightarrow> (Inl e, w') | (Inr _, w') \<Rightarrow> (Inr (), w')))"
    for src c using poll[of "w\<lparr>w_cache := c\<rparr>" src] by (auto split: prod.split sum.split)
  then show ?thesis by (auto simp: poll_log_source_def intro!: sends_skip sends_lock split: option.split)
qed

lemma sends_whois: "sends (max_retries + 1 - n) w (snd (perform_whois_lookup h n k force w))" if "n \<le> max_retries"
proof (cases "get_row k (w_ips w)")
  case (Some ip)
  have run: "sends (max_retries + 1 - n) w (snd (run_lookup h n k ip w))" for w
    using that by (auto simp: run_lookup_def Let_def sends_def delays_def split: sum.split prod.split)
  let ?lock = "redis_lock (lock_key ''whois:'' (ia_address ip)) (seconds (st_whois_timeout (w_settings w) + 30)) (run_lookup h n k ip) w"
  have "sends (max_retries + 1 - n) w (snd (run_lookup h n k ip (w\<lparr>w_cache := c\<rparr>)))" for c using run[of "w\<lparr>w_cache := c\<rparr>"] by simp
  then have "sends (max_retries + 1 - n) w (snd ?lock)" by (rule sends_lock)
  then show ?thesis using Some by (auto simp: perform_whois_lookup_def sends_same split: prod.split sum.split py_exn.split)
qed (simp add: perform_whois_lookup_def sends_same)

lemma sends_test: "w_jobs (snd (test_server_connection h k u w)) = w_jobs w"
proof (cases "get_row k (w_servers w)")
  case (Some server)
  obtain r w1 where lock: "redis_lock (lock_key ''ssh:test:'' (nat_str k)) (seconds (st_ssh_connect_timeout (w_settings w) + 30))
      (\<lambda>w. (test_connection h server, w)) w = (r, w1)" (is "?lock = _") by (cases ?lock)
  have "w_jobs (snd ?lock) = w_jobs w" by (rule lock_rule) simp_all
  then show ?thesis using Some lock
    by (simp add: test_server_connection_def Let_def split: sum.split py_exn.split)
qed (simp add: test_server_connection_def)

lemma sends_discover: "w_jobs (snd (discover_server_logs h k u w)) = w_jobs w"
proof (cases "get_row k (w_servers w)")
  case (Some server)
  obtain r w1 where lock: "redis_lock (lock_key ''ssh:discover:'' (nat_str k)) (seconds (st_ssh_connect_timeout (w_settings w) + 60))
      (\<lambda>w'. case discover_logs h server (sv_log_search_paths server) of
         Inl (SSHConnectionError e) \<Rightarrow> (Inr None, record_audit_log ''server.discover_logs'' (Some (server_object k server)) FAILURE
           [(''error'', JStr e)] (resolve_user u w) None (save_server k (\<lambda>s. s\<lparr>sv_last_error := e\<rparr>) w'))
       | Inl e \<Rightarrow> (Inl e, w')
       | Inr files \<Rightarrow> (Inr (Some files), w')) w = (r, w1)" (is "?lock = _") by (cases ?lock)
  have "w_jobs (snd ?lock) = w_jobs w" by (rule lock_rule) (simp_all split: sum.split py_exn.split)
  moreover have "w_jobs w2 = w_jobs w1" if "register_logs k files w1 = (n, w2)" for files n w2
    using register_jobs[of k files w1] that by simp
  ultimately show ?thesis using Some lock
    by (auto simp: discover_server_logs_def Let_def split: sum.split py_exn.split option.split prod.split)
qed (simp add: discover_server_logs_def)

lemma sends_rest:
  "sends 0 w (snd (enrich_ip g k w))" "sends 0 w (snd (classify_ip k w))"
proof -
  have "sends 0 w (snd (case geo_enrich g k ip (w\<lparr>w_cache := c\<rparr>) of (Inl e, w') \<Rightarrow> (Inl e, w') | (Inr _, w') \<Rightarrow> (Inr (), w')))" for ip c
    using geo_jobs[of g k ip "w\<lparr>w_cache := c\<rparr>"] by (auto simp: sends_same simp del: geo_jobs split: prod.split sum.split)
  then show "sends 0 w (snd (enrich_ip g k w))" by (auto simp: enrich_ip_def intro!: sends_skip sends_lock split: option.split)
  have "sends 0 w (snd (case classify k ip (w\<lparr>w_cache := c\<rparr>) of (Inl e, w') \<Rightarrow> (Inl e, w') | (Inr _, w') \<Rightarrow> (Inr (), w')))" for ip c
    using classify_jobs[of k ip "w\<lparr>w_cache := c\<rparr>"] by (auto simp: sends_same simp del: classify_jobs split: prod.split sum.split)
  then show "sends 0 w (snd (classify_ip k w))" by (auto simp: classify_ip_def intro!: sends_skip sends_lock split: option.split)
qed

lemma sends_process: "sends (max_retries + 2) w (snd (process_new_ip k w))"
  by (auto simp: process_new_ip_def Let_def intro!: sends_skip sends_lock sends_delay split: option.split)

lemma sends_poll_all: "sends (max_retries + 4) w (snd (poll_all_log_sources w))"
  by (auto simp: poll_all_log_sources_def intro!: sends_delays)

lemma run_job_sends:
  assumes "n \<le> max_retries" "0 < n \<longrightarrow> (\<exists>k force. j = Perform_whois_lookup k force)"
  shows "sends (job_rank j - n) w (snd (run_job e n j w))"
  using assms by (cases j) (simp_all add: sends_whois[simplified] sends_poll[simplified] sends_poll_all[simplified]
    sends_process[simplified] sends_rest sends_same sends_test sends_discover)

section \<open>Working off the queues\<close>

text \<open>A worker takes a queued job, or waits for a retry that is due and takes that.\<close>

inductive drain_step :: "system \<Rightarrow> system \<Rightarrow> bool" where
  queued: "w_jobs (sy_world s) = before @ j # after \<Longrightarrow> run_job env 0 j (with_jobs (before @ after) (sy_world s)) = (res, w') \<Longrightarrow>
    drain_step s (settle j 0 res w' s)"
| waiting: "sy_retries s = before @ (j, n, due) # after \<Longrightarrow> w_now (sy_world s) \<le> t \<Longrightarrow> due \<le> t \<Longrightarrow>
    run_job env n j ((sy_world s)\<lparr>w_now := t\<rparr>) = (res, w') \<Longrightarrow>
    drain_step s (settle j n res w' (s\<lparr>sy_retries := before @ after\<rparr>))"

inductive_cases drain_stepE: "drain_step s s'"

text \<open>There is a step exactly while something is queued or waits: a state without one has empty queues.\<close>

lemma drain_step_enabled: "(\<exists>s'. drain_step s s') \<longleftrightarrow> w_jobs (sy_world s) \<noteq> [] \<or> sy_retries s \<noteq> []"
proof
  assume "\<exists>s'. drain_step s s'"
  then show "w_jobs (sy_world s) \<noteq> [] \<or> sy_retries s \<noteq> []" by (auto elim!: drain_stepE)
next
  assume "w_jobs (sy_world s) \<noteq> [] \<or> sy_retries s \<noteq> []"
  then consider j js where "w_jobs (sy_world s) = [] @ j # js" | j n due rs where "sy_retries s = [] @ (j, n, due) # rs"
    by (metis append_Nil list.exhaust prod_cases3)
  then show "\<exists>s'. drain_step s s'"
  proof cases
    case 1
    show ?thesis by (rule exI, rule drain_step.queued[OF 1]) (rule surjective_pairing)
  next
    case 2
    show ?thesis
      by (rule exI, rule drain_step.waiting[OF 2, where t = "max (w_now (sy_world s)) _"]) (rule max.cobounded1 max.cobounded2 surjective_pairing)+
  qed
qed

lemma drain_step_run: "drain_step s s' \<Longrightarrow> system_run s s'"
proof (induction rule: drain_step.induct)
  case (queued s before j after env res w')
  then show ?case by (intro r_into_rtranclp system_step.work)
next
  case (waiting s before j n due after t env res w')
  let ?s = "s\<lparr>sy_world := (sy_world s)\<lparr>w_now := t\<rparr>\<rparr>"
  have "system_step s ?s" by (rule system_step.tick) (rule waiting.hyps)
  moreover have "system_step ?s (settle j n res w' (?s\<lparr>sy_retries := before @ after\<rparr>))"
    using system_step.retry[of ?s before j n due after env res w'] waiting.hyps by simp
  moreover have "settle j n res w' (?s\<lparr>sy_retries := before @ after\<rparr>) = settle j n res w' (s\<lparr>sy_retries := before @ after\<rparr>)"
    by (simp add: settle_def split: sum.split option.split)
  ultimately show ?case by (metis rtranclp.rtrancl_refl rtranclp.rtrancl_into_rtrancl)
qed

lemma drain_step_retries: "drain_step s s' \<Longrightarrow> retries_ok (sy_retries s) \<Longrightarrow> retries_ok (sy_retries s')"
proof (induction rule: drain_step.induct)
  case (waiting s before j n due after t env res w')
  then have "retries_ok (sy_retries (s\<lparr>sy_retries := before @ after\<rparr>))" by (auto simp: retries_ok_def)
  then show ?case by (rule settle_retries) (rule waiting.hyps)
qed (auto intro: settle_retries)

text \<open>The work ahead, as a bag of ranks.\<close>

definition work_ahead :: "system \<Rightarrow> nat multiset" where
  "work_ahead s = mset (map job_rank (w_jobs (sy_world s))) + mset (map (\<lambda>(j, n, due). job_rank j - n) (sy_retries s))"

lemma settle_work:
  assumes run: "run_job env n j w = (res, w')" and n: "n \<le> max_retries" "0 < n \<longrightarrow> (\<exists>k force. j = Perform_whois_lookup k force)"
  shows "\<exists>K. work_ahead (settle j n res w' s) = work_ahead (s\<lparr>sy_world := w\<rparr>) + K \<and> (\<forall>m\<in>#K. m < job_rank j - n)"
proof -
  obtain js where js: "w_jobs w' = w_jobs w @ js" "\<forall>i\<in>set js. job_rank i < job_rank j - n"
    using run_job_sends[OF n, of w env] run by (auto simp: sends_def)
  show ?thesis
  proof (cases "\<exists>c. res = Inr (Some c)")
    case True
    then obtain c where c: "res = Inr (Some c)" by blast
    then have "job_rank j - Suc n < job_rank j - n" using run_job_retry[of env n j w c w'] run by auto
    then show ?thesis using js c
      by (intro exI[of _ "mset (map job_rank js) + {#job_rank j - Suc n#}"]) (auto simp: work_ahead_def settle_def)
  next
    case False
    then show ?thesis using js
      by (intro exI[of _ "mset (map job_rank js)"]) (auto simp: work_ahead_def settle_def split: sum.split option.split)
  qed
qed

lemma work_shrinks:
  assumes "work_ahead s = I + {#m#}" "work_ahead s' = I + K" "\<forall>k\<in>#K. k < m"
  shows "(work_ahead s', work_ahead s) \<in> mult {(x, y :: nat). x < y}"
  unfolding assms(1,2) by (rule one_step_implies_mult) (use assms(3) in auto)

lemma drain_step_decreases:
  "drain_step s s' \<Longrightarrow> retries_ok (sy_retries s) \<Longrightarrow> (work_ahead s', work_ahead s) \<in> mult {(x, y :: nat). x < y}"
proof (induction rule: drain_step.induct)
  case (queued s before j after env res w')
  obtain K where K: "work_ahead (settle j 0 res w' s) = work_ahead (s\<lparr>sy_world := with_jobs (before @ after) (sy_world s)\<rparr>) + K"
    "\<forall>m\<in>#K. m < job_rank j" using settle_work[OF queued.hyps(2), of s] by auto
  have "work_ahead s = work_ahead (s\<lparr>sy_world := with_jobs (before @ after) (sy_world s)\<rparr>) + {#job_rank j#}"
    using queued.hyps(1) by (simp add: work_ahead_def with_jobs_def)
  then show ?case using K by (rule work_shrinks)
next
  case (waiting s before j n due after t env res w')
  let ?s = "s\<lparr>sy_retries := before @ after\<rparr>" let ?w = "(sy_world s)\<lparr>w_now := t\<rparr>"
  have n: "n \<le> max_retries" "0 < n \<longrightarrow> (\<exists>k force. j = Perform_whois_lookup k force)" using waiting by (auto simp: retries_ok_def)
  obtain K where K: "work_ahead (settle j n res w' ?s) = work_ahead (?s\<lparr>sy_world := ?w\<rparr>) + K" "\<forall>m\<in>#K. m < job_rank j - n"
    using settle_work[OF waiting.hyps(4) n, of ?s] by auto
  have "work_ahead s = work_ahead (?s\<lparr>sy_world := ?w\<rparr>) + {#job_rank j - n#}"
    using waiting.hyps(1) by (simp add: work_ahead_def)
  then show ?case using K by (rule work_shrinks)
qed

lemma work_wf: "wf (mult {(x, y :: nat). x < y})"
  by (intro wf_mult wf_less)

lemma drain_step_exists:
  assumes "w_jobs (sy_world s) \<noteq> [] \<or> sy_retries s \<noteq> []" shows "\<exists>s'. drain_step s s'"
proof (cases "w_jobs (sy_world s)")
  case (Cons j js)
  then have "w_jobs (sy_world s) = [] @ j # js" by simp
  from drain_step.queued[OF this surjective_pairing] show ?thesis by blast
next
  case Nil
  then obtain j n due rs where "sy_retries s = [] @ (j, n, due) # rs" using assms by (cases "sy_retries s") auto
  from drain_step.waiting[OF this _ _ surjective_pairing, of "max (w_now (sy_world s)) due"] show ?thesis by auto
qed

section \<open>Properties\<close>

text \<open>C10: From any state the system can reach, working off what is queued ends, whatever the outside world answers and in
  whatever order the workers take the jobs: there is no infinite run of jobs and retries without a new request, a
  new tick of the scheduler or a redelivery.\<close>

theorem work_ends:
  assumes "retries_ok (sy_retries s)"
  shows "\<nexists>f. f 0 = s \<and> (\<forall>i. drain_step (f i) (f (Suc i)))"
proof
  assume "\<exists>f. f 0 = s \<and> (\<forall>i. drain_step (f i) (f (Suc i)))"
  then obtain f where f: "f 0 = s" "\<And>i. drain_step (f i) (f (Suc i))" by blast
  have ok: "retries_ok (sy_retries (f i))" for i
    by (induction i) (use assms f drain_step_retries in blast)+
  have "(work_ahead (f (Suc i)), work_ahead (f i)) \<in> mult {(x, y :: nat). x < y}" for i
    by (rule drain_step_decreases[OF f(2) ok])
  then have "\<exists>g. \<forall>i. (g (Suc i), g i) \<in> mult {(x, y :: nat). x < y}" by (intro exI[of _ "\<lambda>i. work_ahead (f i)"]) blast
  then show False using work_wf unfolding wf_iff_no_infinite_down_chain by blast
qed


theorem work_ends_witness: "\<nexists>f. f 0 = busy_system \<and> (\<forall>i. drain_step (f i) (f (Suc i)))"
  by (rule work_ends[OF busy_system_ok(2)])


end
