(* ===== verification/Migrations.thy ===== *)
theory Migrations
  imports Schedule "HOL-Library.Multiset"
begin

text \<open>
  Models and migrations as the application writes them: a model is a table with typed columns, indexes and
  constraints, a migration a list of operations on the models of its own app, run in one transaction once
  its dependencies are there. What is compared is what reaches the database or the forms; help texts, labels, verbose
  names and validators are left out, and so are the names of indexes, which are generated.
\<close>

section \<open>Models\<close>

datatype literal = Num int | Str string | Flag bool | Call string

datatype on_delete = Cascade | Set_null

type_synonym model_key = "string \<times> string"

datatype field_type =
    Big_auto | Char_field nat | Email_field nat | Text_field | Boolean_field | Positive_small | Positive_integer | Positive_big
  | Big_integer | Float_field | Date_time | Json_field | Generic_ip | Cidr_field | Encrypted_text
  | Foreign_key model_key on_delete string | Many_to_many model_key

record field =
  fd_type :: field_type
  fd_null :: bool
  fd_blank :: bool
  fd_unique :: bool
  fd_db_index :: bool
  fd_default :: "literal option"
  fd_choices :: "literal list"
  fd_auto_now :: bool
  fd_auto_now_add :: bool
  fd_editable :: bool

definition field_of :: "field_type \<Rightarrow> field" where
  "field_of t = \<lparr>fd_type = t, fd_null = False, fd_blank = False, fd_unique = False, fd_db_index = False, fd_default = None,
     fd_choices = [], fd_auto_now = False, fd_auto_now_add = False, fd_editable = True\<rparr>"

definition blank :: "field \<Rightarrow> field" where "blank f = f\<lparr>fd_blank := True\<rparr>"

definition optional :: "field \<Rightarrow> field" where "optional f = f\<lparr>fd_null := True, fd_blank := True\<rparr>"

definition with_default :: "literal \<Rightarrow> field \<Rightarrow> field" where "with_default d f = f\<lparr>fd_default := Some d\<rparr>"

definition unique_field :: "field \<Rightarrow> field" where "unique_field f = f\<lparr>fd_unique := True\<rparr>"

definition choices :: "literal list \<Rightarrow> field \<Rightarrow> field" where "choices cs f = f\<lparr>fd_choices := cs\<rparr>"

type_synonym columns = "(string \<times> field) list"

record model =
  md_table :: string
  md_ordering :: "string list"
  md_fields :: columns
  md_indexes :: "string list list"
  md_constraints :: "(string \<times> string list) list"

section \<open>Operations\<close>

datatype operation =
    Create_model string model
  | Add_field string string field
  | Add_index string "string list"
  | Add_constraint string string "string list"
  | Run_python seed

record migration =
  mg_app :: string
  mg_name :: string
  mg_dependencies :: "model_key list"
  mg_operations :: "operation list"

type_synonym schema = "model_key \<Rightarrow> model option"

text \<open>Migrations and models of other packages.\<close>

record packages =
  pk_migrations :: "model_key list"
  pk_models :: "model_key list"

definition column_of :: "string \<Rightarrow> string" where
  "column_of f = (case f of c # cs \<Rightarrow> if c = CHR ''-'' then cs else f | [] \<Rightarrow> [])"

definition has_columns :: "model \<Rightarrow> string list \<Rightarrow> bool" where
  "has_columns m fs \<longleftrightarrow> list_all (\<lambda>f. column_of f \<in> fst ` set (md_fields m)) fs"

fun field_target :: "field_type \<Rightarrow> model_key option" where
  "field_target (Foreign_key k _ _) = Some k"
| "field_target (Many_to_many k) = Some k"
| "field_target _ = None"

definition targets_of :: "columns \<Rightarrow> model_key list" where
  "targets_of fs = List.map_filter (\<lambda>(_, f). field_target (fd_type f)) fs"

fun op_targets :: "operation \<Rightarrow> model_key list" where
  "op_targets (Create_model _ m) = targets_of (md_fields m)"
| "op_targets (Add_field _ n f) = targets_of [(n, f)]"
| "op_targets _ = []"

text \<open>A model is looked up in the project state by its app and its name in lower case; \<open>ex\<close> are the models
  of other packages.\<close>

definition model_present :: "(model_key \<Rightarrow> bool) \<Rightarrow> schema \<Rightarrow> model_key \<Rightarrow> bool" where
  "model_present ex s k \<longleftrightarrow> ex k \<or> s k \<noteq> None"

definition on_model :: "string \<Rightarrow> string \<Rightarrow> (model \<Rightarrow> model res) \<Rightarrow> schema \<Rightarrow> schema res" where
  "on_model app name f s =
     (case s (app, name) of
        None \<Rightarrow> Inl KeyError
      | Some m \<Rightarrow> res_bind (f m) (\<lambda>m'. Inr (s((app, name) \<mapsto> m'))))"

definition no_column :: py_exn where "no_column = RuntimeError ''FieldDoesNotExist''"

definition duplicate :: py_exn where "duplicate = RuntimeError ''ProgrammingError''"

fun apply_operation :: "(model_key \<Rightarrow> bool) \<Rightarrow> string \<Rightarrow> operation \<Rightarrow> schema \<Rightarrow> schema res" where
  "apply_operation ex app (Create_model name m) s =
     (let s' = s((app, py_lower name) \<mapsto> m)
      in if s (app, py_lower name) \<noteq> None \<or> \<not> distinct (map fst (md_fields m)) then Inl duplicate
         else if \<not> list_all (model_present ex s') (targets_of (md_fields m)) then Inl ValueError
         else if \<not> list_all (has_columns m) (md_indexes m @ map snd (md_constraints m)) then Inl no_column
         else Inr s')"
| "apply_operation ex app (Add_field name col f) s =
     (if \<not> list_all (model_present ex s) (targets_of [(col, f)]) then Inl ValueError
      else on_model app name (\<lambda>m.
        if col \<in> fst ` set (md_fields m) then Inl duplicate else Inr (m\<lparr>md_fields := md_fields m @ [(col, f)]\<rparr>)) s)"
| "apply_operation ex app (Add_index name fs) s =
     on_model app name (\<lambda>m. if has_columns m fs then Inr (m\<lparr>md_indexes := md_indexes m @ [fs]\<rparr>) else Inl no_column) s"
| "apply_operation ex app (Add_constraint name con fs) s =
     on_model app name (\<lambda>m.
        if con \<in> fst ` set (md_constraints m) then Inl duplicate
        else if has_columns m fs then Inr (m\<lparr>md_constraints := md_constraints m @ [(con, fs)]\<rparr>) else Inl no_column) s"
| "apply_operation ex app (Run_python _) s = Inr s"

fun apply_operations :: "(model_key \<Rightarrow> bool) \<Rightarrow> string \<Rightarrow> operation list \<Rightarrow> schema \<Rightarrow> schema res" where
  "apply_operations ex app [] s = Inr s"
| "apply_operations ex app (p # ps) s = res_bind (apply_operation ex app p s) (apply_operations ex app ps)"

section \<open>Running migrations\<close>

record database_state =
  ds_schema :: schema
  ds_beat :: beat_db
  ds_applied :: "model_key list"

definition fresh_database :: database_state where
  "fresh_database = \<lparr>ds_schema = (\<lambda>_. None), ds_beat = empty_beat, ds_applied = []\<rparr>"

definition mg_key :: "migration \<Rightarrow> model_key" where "mg_key m = (mg_app m, mg_name m)"

definition seeds_of :: "operation list \<Rightarrow> seed list" where
  "seeds_of = List.map_filter (\<lambda>p. case p of Run_python sd \<Rightarrow> Some sd | _ \<Rightarrow> None)"

definition apply_migration :: "packages \<Rightarrow> migration \<Rightarrow> (database_state, unit) effect" where
  "apply_migration pk m db =
     (if \<not> list_all (\<lambda>d. d \<in> set (pk_migrations pk) \<or> d \<in> set (ds_applied db)) (mg_dependencies m)
      then (Inl (RuntimeError ''InconsistentMigrationHistory''), db)
      else (case apply_operations (\<lambda>k. k \<in> set (pk_models pk)) (mg_app m) (mg_operations m) (ds_schema db) of
              Inl e \<Rightarrow> (Inl e, db)
            | Inr s \<Rightarrow>
                (case for_each create_periodic_task (seeds_of (mg_operations m)) (ds_beat db) of
                   (Inl e, _) \<Rightarrow> (Inl e, db)
                 | (Inr _, b) \<Rightarrow>
                     (Inr (), db\<lparr>ds_schema := s, ds_beat := b, ds_applied := ds_applied db @ [mg_key m]\<rparr>))))"

definition migrate :: "packages \<Rightarrow> migration list \<Rightarrow> (database_state, unit) effect" where
  "migrate pk = for_each (apply_migration pk)"


section \<open>An app only sees its own models: lemmas\<close>

definition same_app :: "string \<Rightarrow> schema \<Rightarrow> schema \<Rightarrow> bool" where
  "same_app app s t \<longleftrightarrow> (\<forall>n. s (app, n) = t (app, n))"

definition extends_app :: "string \<Rightarrow> schema \<Rightarrow> schema \<Rightarrow> bool" where
  "extends_app app s s' \<longleftrightarrow> (\<forall>k. fst k \<noteq> app \<longrightarrow> s' k = s k) \<and> (\<forall>k. s k \<noteq> None \<longrightarrow> s' k \<noteq> None)"

lemma extends_app_refl [simp]: "extends_app app s s"
  by (simp add: extends_app_def)

lemma extends_app_trans: "extends_app app s t \<Longrightarrow> extends_app app t u \<Longrightarrow> extends_app app s u"
  by (simp add: extends_app_def)

lemma extends_app_upd [simp]: "extends_app app s (s((app, n) \<mapsto> m))"
  by (simp add: extends_app_def)

lemma operation_extends: "apply_operation ex app p s = Inr s' \<Longrightarrow> extends_app app s s'"
  by (cases p) (auto simp: on_model_def Let_def res_bind_Inr_iff split: if_splits option.splits)

lemma operations_extend: "apply_operations ex app ps s = Inr s' \<Longrightarrow> extends_app app s s'"
  by (induction ps arbitrary: s) (auto simp: res_bind_Inr_iff dest!: operation_extends intro: extends_app_trans)

lemma on_model_transfer:
  assumes "on_model app name f s = Inr s'" "same_app app s t"
  shows "\<exists>t'. on_model app name f t = Inr t' \<and> same_app app s' t'"
  using assms by (auto simp: on_model_def same_app_def res_bind_Inr_iff split: option.splits)

text \<open>What an operation does to the models of its app is decided by these models, as long as the models of
  other apps it refers to are there.\<close>

lemma operation_transfer:
  assumes run: "apply_operation E app p s = Inr s'" and same: "same_app app s t"
    and own: "\<forall>n. E (app, n) \<longrightarrow> F (app, n)"
    and other: "\<forall>k\<in>set (op_targets p). fst k \<noteq> app \<longrightarrow> model_present F t k"
  shows "\<exists>t'. apply_operation F app p t = Inr t' \<and> same_app app s' t'"
proof -
  have there: "model_present F t' k" if "model_present E s0 k" "same_app app s0 t'" "fst k \<noteq> app \<longrightarrow> model_present F t' k" for s0 t' k
    using that own by (cases k) (auto simp: model_present_def same_app_def)
  show ?thesis
  proof (cases p)
    case (Create_model name m)
    let ?s = "s((app, py_lower name) \<mapsto> m)" and ?t = "t((app, py_lower name) \<mapsto> m)"
    have up: "same_app app ?s ?t" using same by (simp add: same_app_def)
    have "model_present F ?t k" if "k \<in> set (targets_of (md_fields m))" for k
      using there[OF _ up, of k] run other that Create_model
      by (auto simp: Let_def list_all_iff model_present_def split: if_splits)
    then show ?thesis using run same up Create_model
      by (auto simp: Let_def list_all_iff same_app_def split: if_splits)
  next
    case (Add_field name col f)
    have "model_present F t k" if "k \<in> set (targets_of [(col, f)])" for k
      using there[OF _ same, of k] run other that Add_field by (auto simp: list_all_iff split: if_splits)
    then show ?thesis using run on_model_transfer[OF _ same] Add_field
      by (auto simp: list_all_iff split: if_splits)
  qed (use run on_model_transfer[OF _ same] same in auto)
qed

lemma operations_transfer:
  assumes "apply_operations E app ps s = Inr s'" "same_app app s t" "\<forall>n. E (app, n) \<longrightarrow> F (app, n)"
    and "\<forall>p\<in>set ps. \<forall>k\<in>set (op_targets p). fst k \<noteq> app \<longrightarrow> model_present F t k"
  shows "\<exists>t'. apply_operations F app ps t = Inr t' \<and> same_app app s' t'"
  using assms
proof (induction ps arbitrary: s t)
  case (Cons p ps)
  then obtain s1 where s1: "apply_operation E app p s = Inr s1" "apply_operations E app ps s1 = Inr s'"
    by (auto simp: res_bind_Inr_iff)
  obtain t1 where t1: "apply_operation F app p t = Inr t1" "same_app app s1 t1"
    using operation_transfer[OF s1(1) Cons.prems(2,3)] Cons.prems(4) by auto
  have "model_present F t1 k" if "model_present F t k" for k
    using that operation_extends[OF t1(1)] by (cases k) (auto simp: extends_app_def model_present_def)
  then obtain t' where "apply_operations F app ps t1 = Inr t'" "same_app app s' t'"
    using Cons.IH[OF s1(2) t1(2) Cons.prems(3)] Cons.prems(4) by auto
  then show ?case using t1(1) by simp
qed simp


lemma operations_append:
  "apply_operations ex app (ps @ qs) s = res_bind (apply_operations ex app ps s) (apply_operations ex app qs)"
  by (induction ps arbitrary: s) (auto split: sum.splits simp: res_bind_def)

section \<open>Orders of running them\<close>

fun ordered :: "model_key list \<Rightarrow> migration list \<Rightarrow> bool" where
  "ordered applied [] = True"
| "ordered applied (m # ms) = (set (mg_dependencies m) \<subseteq> set applied \<and> ordered (mg_key m # applied) ms)"

text \<open>What a run may be: every migration once, each after the ones it depends on.\<close>

definition plan_of :: "packages \<Rightarrow> migration list \<Rightarrow> migration list \<Rightarrow> bool" where
  "plan_of pk ms plan \<longleftrightarrow> distinct plan \<and> set plan = set ms \<and> ordered (pk_migrations pk) plan"

lemma ordered_append: "ordered a (p @ q) \<longleftrightarrow> ordered a p \<and> ordered (rev (map mg_key p) @ a) q"
  by (induction p arbitrary: a) auto

lemma ordered_dependency:
  assumes "ordered a (p @ m # q)" "d \<in> set (mg_dependencies m)" shows "d \<in> set a \<or> d \<in> mg_key ` set p"
  using assms by (auto simp: ordered_append)

text \<open>A list is determined by its elements when each but the first has to come after its neighbour in another list.\<close>

lemma chain_unique:
  assumes "distinct c" "distinct ys" "set ys = set c"
    and "\<And>c1 x y c2 a b. c = c1 @ x # y # c2 \<Longrightarrow> ys = a @ y # b \<Longrightarrow> x \<in> set a"
  shows "ys = c"
  using assms
proof (induction c arbitrary: ys)
  case (Cons x c)
  obtain y zs where ys: "ys = y # zs" using Cons.prems(3) by (cases ys) auto
  have "y = x"
  proof (rule ccontr)
    assume "y \<noteq> x"
    then obtain c1 c2 where c: "c = c1 @ y # c2" using Cons.prems(3) ys by (auto dest!: split_list)
    obtain d1 z where "x # c1 = d1 @ [z]" by (metis list.distinct(1) rev_exhaust)
    then have "x # c = d1 @ z # y # c2" using c by (metis append.assoc append_Cons append_Nil)
    from Cons.prems(4)[OF this, of "[]" zs] show False using ys by simp
  qed
  moreover have "zs = c"
  proof (rule Cons.IH)
    show "distinct c" "distinct zs" "set zs = set c" using Cons.prems(1-3) ys \<open>y = x\<close> by auto
    fix c1 u v c2 a b assume "c = c1 @ u # v # c2" "zs = a @ v # b"
    then show "u \<in> set a" using Cons.prems(1) Cons.prems(4)[of "x # c1" u v c2 "x # a" b] ys \<open>y = x\<close> by auto
  qed
  ultimately show ?case using ys by simp
qed simp

section \<open>Running a plan: lemmas\<close>

lemma apply_migrationD:
  assumes "apply_migration pk m db = (Inr u, db')"
  shows "apply_operations (\<lambda>k. k \<in> set (pk_models pk)) (mg_app m) (mg_operations m) (ds_schema db) = Inr (ds_schema db')"
    "for_each create_periodic_task (seeds_of (mg_operations m)) (ds_beat db) = (Inr (), ds_beat db')"
    "ds_applied db' = ds_applied db @ [mg_key m]"
  using assms by (auto simp: apply_migration_def split: if_splits sum.splits prod.splits)

lemma migrate_snoc:
  "migrate pk (p @ [m]) db = (case migrate pk p db of (Inl e, db') \<Rightarrow> (Inl e, db') | (Inr _, db') \<Rightarrow> apply_migration pk m db')"
proof (induction p arbitrary: db)
  case Nil
  obtain r d where "apply_migration pk m db = (r, d)" by (cases "apply_migration pk m db")
  then show ?case by (cases r) (simp_all add: migrate_def bnd_def)
next
  case (Cons x p)
  show ?case
  proof (cases "apply_migration pk x db")
    case (Pair r d)
    then show ?thesis using Cons[of d] by (cases r) (simp_all add: migrate_def bnd_def)
  qed
qed

lemma migrate_snocD:
  assumes "migrate pk (p @ [m]) db = (Inr (), db')"
  obtains db1 where "migrate pk p db = (Inr (), db1)" "apply_migration pk m db1 = (Inr (), db')"
  using assms by (auto simp: migrate_snoc split: prod.splits sum.splits)

fun op_creates :: "string \<Rightarrow> operation \<Rightarrow> model_key list" where
  "op_creates app (Create_model n _) = [(app, py_lower n)]"
| "op_creates app _ = []"

definition creates :: "migration \<Rightarrow> model_key list" where
  "creates m = concat (map (op_creates (mg_app m)) (mg_operations m))"

lemma operations_create:
  "apply_operations ex app ps s = Inr s' \<Longrightarrow> k \<in> set (concat (map (op_creates app) ps)) \<Longrightarrow> s' k \<noteq> None"
proof (induction ps arbitrary: s)
  case (Cons p ps)
  then obtain s1 where s1: "apply_operation ex app p s = Inr s1" "apply_operations ex app ps s1 = Inr s'"
    by (auto simp: res_bind_Inr_iff)
  show ?case
  proof (cases "k \<in> set (op_creates app p)")
    case True
    then have "s1 k \<noteq> None" using s1(1) by (cases p) (auto simp: Let_def split: if_splits)
    then show ?thesis using operations_extend[OF s1(2)] by (cases k) (auto simp: extends_app_def)
  qed (use Cons s1 in auto)
qed simp

lemma migrate_creates:
  "migrate pk p db0 = (Inr (), db) \<Longrightarrow> m \<in> set p \<Longrightarrow> k \<in> set (creates m) \<Longrightarrow> ds_schema db k \<noteq> None"
proof (induction p arbitrary: db rule: rev_induct)
  case (snoc x p)
  then obtain db1 where d: "migrate pk p db0 = (Inr (), db1)" "apply_migration pk x db1 = (Inr (), db)"
    by (blast elim: migrate_snocD)
  note a = apply_migrationD(1)[OF d(2)]
  show ?case
  proof (cases "m = x")
    case True
    then show ?thesis using operations_create[OF a, of k] snoc.prems(3) by (simp add: creates_def)
  next
    case False
    then have "ds_schema db1 k \<noteq> None" using snoc d(1) by simp
    then show ?thesis using operations_extend[OF a] by (cases k) (auto simp: extends_app_def)
  qed
qed simp


lemma operations_only_create:
  "apply_operations ex app ps s = Inr s' \<Longrightarrow> s' k \<noteq> None \<Longrightarrow> s k \<noteq> None \<or> k \<in> set (concat (map (op_creates app) ps))"
proof (induction ps arbitrary: s)
  case (Cons p ps)
  then obtain s1 where s1: "apply_operation ex app p s = Inr s1" "apply_operations ex app ps s1 = Inr s'"
    by (auto simp: res_bind_Inr_iff)
  have "s k \<noteq> None \<or> k \<in> set (op_creates app p)" if "s1 k \<noteq> None"
    using s1(1) that by (cases p) (auto simp: on_model_def Let_def res_bind_Inr_iff split: if_splits option.splits)
  then show ?case using Cons.IH[OF s1(2) Cons.prems(2)] by auto
qed simp

lemma migrate_only_creates:
  "migrate pk p fresh_database = (Inr (), db) \<Longrightarrow> ds_schema db k \<noteq> None \<Longrightarrow> \<exists>m\<in>set p. k \<in> set (creates m)"
proof (induction p arbitrary: db rule: rev_induct)
  case Nil
  then show ?case by (auto simp: migrate_def fresh_database_def)
next
  case (snoc x p)
  then obtain db1 where d: "migrate pk p fresh_database = (Inr (), db1)" "apply_migration pk x db1 = (Inr (), db)"
    by (blast elim: migrate_snocD)
  from operations_only_create[OF apply_migrationD(1)[OF d(2)] snoc.prems(2)] show ?case
    using snoc.IH[OF d(1)] by (auto simp: creates_def)
qed

section \<open>Seeds in any order: lemmas\<close>

definition schedules_single :: "beat_db \<Rightarrow> bool" where
  "schedules_single b \<longleftrightarrow> (\<forall>n p. count_rows (\<lambda>_ r. r = every_row n p) (bt_intervals b) \<le> 1) \<and>
     (\<forall>m h d. count_rows (\<lambda>_. same_crontab (crontab_row m h d)) (bt_crontabs b) \<le> 1)"

lemma get_one_single:
  assumes "count_rows (\<lambda>_. P) t \<le> 1"
  shows "\<exists>k t'. get_one_or_create P r t = Inr (k, t') \<and> (t' = t \<or> count_rows (\<lambda>_. P) t = 0 \<and> t' = add_row r t)"
  using assms by (cases "select_rows (\<lambda>_. P) t")
    (auto simp: get_one_or_create_def get_or_create_def count_rows_def insert_row_def add_row_def)

lemma count_add_row: "count_rows P (add_row r t) = count_rows P t + (if P (Suc (tb_seq t)) r then 1 else 0)"
  by (simp add: count_rows_def select_add_row)

lemma find_schedule_single:
  assumes "schedules_single b"
  shows "\<exists>ks b'. find_schedule sched b = Inr (ks, b') \<and> schedules_single b'"
proof (cases sched)
  case (Every n p)
  then obtain k t' where g: "get_one_or_create (\<lambda>r. r = every_row n p) (every_row n p) (bt_intervals b) = Inr (k, t')"
    "t' = bt_intervals b \<or> count_rows (\<lambda>_ r. r = every_row n p) (bt_intervals b) = 0 \<and> t' = add_row (every_row n p) (bt_intervals b)"
    using get_one_single[of "\<lambda>r. r = every_row n p" "bt_intervals b" "every_row n p"] assms by (auto simp: schedules_single_def)
  then have "schedules_single (b\<lparr>bt_intervals := t'\<rparr>)"
    using assms by (auto simp: schedules_single_def count_add_row every_row_def)
  then show ?thesis using g(1) Every by (simp add: find_schedule_def)
next
  case (Crontab m h d)
  let ?P = "same_crontab (crontab_row m h d)"
  obtain k t' where g: "get_one_or_create ?P (crontab_row m h d) (bt_crontabs b) = Inr (k, t')"
    "t' = bt_crontabs b \<or> count_rows (\<lambda>_. ?P) (bt_crontabs b) = 0 \<and> t' = add_row (crontab_row m h d) (bt_crontabs b)"
    using get_one_single[of ?P "bt_crontabs b" "crontab_row m h d"] assms by (auto simp: schedules_single_def)
  have "same_crontab (crontab_row m' h' d') (crontab_row m h d) \<longleftrightarrow> m' = m \<and> h' = h \<and> d' = d" for m' h' d'
    by (auto simp: same_crontab_def crontab_row_def)
  then have "schedules_single (b\<lparr>bt_crontabs := t'\<rparr>)"
    using g(2) assms by (auto simp: schedules_single_def count_add_row)
  then show ?thesis using g(1) Crontab by (simp add: find_schedule_def)
qed

text \<open>The task a seed describes is there, on its schedule.\<close>

definition scheduled :: "seed \<Rightarrow> beat_db \<Rightarrow> bool" where
  "scheduled sd b \<longleftrightarrow> (\<exists>k r. get_row k (bt_tasks b) = Some r \<and> pt_name r = sd_name sd \<and> pt_task r = sd_task sd \<and>
     pt_queue r = sd_queue sd \<and> pt_enabled r \<and> runs_on sd r b)"

definition seeded_with :: "seed list \<Rightarrow> beat_db \<Rightarrow> bool" where
  "seeded_with sds b \<longleftrightarrow> beat_ok b \<and> schedules_single b \<and> (\<forall>sd\<in>set sds. scheduled sd b) \<and>
     (\<forall>k r. get_row k (bt_tasks b) = Some r \<longrightarrow> pt_name r \<in> sd_name ` set sds)"

lemma scheduled_grows: "scheduled sd b \<Longrightarrow> grows b b' \<Longrightarrow> scheduled sd b'"
  unfolding scheduled_def using runs_on_grows by (meson grows_def keeps_rows_def)

lemma seed_one:
  assumes inv: "seeded_with sds b" and new: "sd_name sd \<notin> sd_name ` set sds"
  shows "\<exists>b'. create_periodic_task sd b = (Inr (), b') \<and> seeded_with (sds @ [sd]) b'"
proof -
  have ok: "beat_ok b" "schedules_single b" using inv by (simp_all add: seeded_with_def)
  obtain ks b1 where f: "find_schedule (sd_schedule sd) b = Inr (ks, b1)" "schedules_single b1"
    using find_schedule_single[OF ok(2)] by blast
  define b' where "b' = b1\<lparr>bt_tasks := snd (get_or_create (\<lambda>r. pt_name r = sd_name sd) (task_row sd ks) (bt_tasks b1))\<rparr>"
  have run: "create_periodic_task sd b = (Inr (), b')" by (simp add: create_periodic_task_def f(1) b'_def)
  note c = create_spec[OF ok(1) run]
  have "pt_name r \<noteq> sd_name sd" if "get_row k (bt_tasks b) = Some r" for k r
    using that inv new by (metis seeded_with_def)
  then have "\<not> named (sd_name sd) b" by (auto simp: named_def)
  then have "\<not> (\<exists>k r. get_row k (bt_tasks b) = Some r \<and> pt_name r = sd_name sd)" by (simp add: named_def)
  then have "scheduled sd b'" using c unfolding took_def scheduled_def by blast
  moreover have "schedules_single b'" using f(2) by (simp add: b'_def schedules_single_def)
  moreover have "scheduled x b'" if "x \<in> set sds" for x
    using scheduled_grows[of x b b'] that inv c by (simp add: seeded_with_def)
  moreover have "pt_name r \<in> sd_name ` set (sds @ [sd])" if "get_row k (bt_tasks b') = Some r" for k r
  proof (cases "pt_name r = sd_name sd")
    case False
    then have "get_row k (bt_tasks b) = Some r" using that c unfolding adds_only_def by blast
    then show ?thesis using inv unfolding seeded_with_def by (metis Un_iff image_Un set_append)
  qed simp
  ultimately show ?thesis using run c by (auto simp: seeded_with_def)
qed

lemma seed_list:
  assumes "seeded_with sds b" "distinct (map sd_name (sds @ xs))"
  shows "\<exists>b'. for_each create_periodic_task xs b = (Inr (), b') \<and> seeded_with (sds @ xs) b'"
  using assms
proof (induction xs arbitrary: sds b)
  case (Cons x xs)
  obtain b1 where b1: "create_periodic_task x b = (Inr (), b1)" "seeded_with (sds @ [x]) b1"
    using seed_one[OF Cons.prems(1), of x] Cons.prems(2) by auto
  then show ?case using Cons.IH[OF b1(2)] Cons.prems(2) by (simp add: bnd_def)
qed simp

lemma seeded_with_nothing: "seeded_with [] empty_beat"
  by (simp add: seeded_with_def beat_ok_def empty_beat_def schedules_single_def count_rows_def select_rows_def
      empty_table_def table_ok_def rows_unique_def get_row_def)

section \<open>What a project promises\<close>

text \<open>Everything a migration depends on, within a number of steps.\<close>

fun required_keys :: "migration list \<Rightarrow> nat \<Rightarrow> model_key \<Rightarrow> model_key list" where
  "required_keys ms 0 k = []"
| "required_keys ms (Suc n) k =
     (let ds = concat (map mg_dependencies (filter (\<lambda>m. mg_key m = k) ms)) in ds @ concat (map (required_keys ms n) ds))"

definition app_history :: "string \<Rightarrow> migration list \<Rightarrow> operation list" where
  "app_history app ms = concat (map mg_operations (filter (\<lambda>m. mg_app m = app) ms))"

definition dependencies :: "migration list \<Rightarrow> (model_key \<times> model_key) set" where
  "dependencies ms = {(d, mg_key m) |d m. m \<in> set ms \<and> d \<in> set (mg_dependencies m)}"

lemma required_keys_trancl: "d \<in> set (required_keys ms n k) \<Longrightarrow> (d, k) \<in> (dependencies ms)\<^sup>+"
proof (induction n arbitrary: d k)
  case (Suc n)
  have one: "(x, k) \<in> dependencies ms" if "m \<in> set ms" "mg_key m = k" "x \<in> set (mg_dependencies m)" for x m
    using that unfolding dependencies_def by blast
  from Suc.prems consider m where "m \<in> set ms" "mg_key m = k" "d \<in> set (mg_dependencies m)"
    | m x where "m \<in> set ms" "mg_key m = k" "x \<in> set (mg_dependencies m)" "d \<in> set (required_keys ms n x)"
    by (auto simp: Let_def)
  then show ?case
  proof cases
    case 1
    then show ?thesis using one by (blast intro: r_into_trancl)
  next
    case 2
    then show ?thesis using one Suc.IH by (blast intro: trancl_into_trancl)
  qed
qed simp

text \<open>The migrations of one app form a chain, which builds the models of the app when the models of
  other apps are taken as given; and a migration that refers to a model of another app depends, directly
  or not, on the migration that creates it.\<close>

locale project =
  fixes pk :: packages and ms :: "migration list" and built :: schema
  assumes keys: "distinct (map mg_key ms)"
    and seed_names: "distinct (map sd_name (concat (map (\<lambda>m. seeds_of (mg_operations m)) ms)))"
    and own_apps: "m \<in> set ms \<Longrightarrow> (mg_app m, n) \<notin> set (pk_models pk)"
    and foreign_keys: "m \<in> set ms \<Longrightarrow> mg_key m \<notin> set (pk_migrations pk)"
    and chained: "filter (\<lambda>m. mg_app m = app) ms = c1 @ x # y # c2 \<Longrightarrow> mg_key x \<in> set (mg_dependencies y)"
    and builds: "\<exists>s. apply_operations (\<lambda>k. fst k \<noteq> app) app (app_history app ms) (\<lambda>_. None) = Inr s \<and> same_app app s built"
    and creators: "m \<in> set ms \<Longrightarrow> p \<in> set (mg_operations m) \<Longrightarrow> k \<in> set (op_targets p) \<Longrightarrow> fst k \<noteq> mg_app m \<Longrightarrow>
      k \<in> set (pk_models pk) \<or> (\<exists>m'\<in>set ms. k \<in> set (creates m') \<and> (mg_key m', mg_key m) \<in> (dependencies ms)\<^sup>+)"
begin

lemma key_inject: "m \<in> set ms \<Longrightarrow> m' \<in> set ms \<Longrightarrow> mg_key m = mg_key m' \<Longrightarrow> m = m'"
  using keys by (auto simp: distinct_map inj_on_def)

text \<open>Everything a migration depends on has run before it.\<close>

lemma run_before:
  assumes plan: "plan_of pk ms (p @ m # q)" and d: "(mg_key m', mg_key m) \<in> (dependencies ms)\<^sup>+" "m' \<in> set ms"
  shows "m' \<in> set p"
proof -
  have ord: "ordered (pk_migrations pk) (p @ m # q)" and sub: "set (p @ m # q) = set ms"
    using plan by (simp_all add: plan_of_def)
  have "k \<in> mg_key ` set p \<or> k \<in> set (pk_migrations pk)"
    if "(k, j) \<in> (dependencies ms)\<^sup>+" "j = mg_key m \<or> j \<in> mg_key ` set p \<or> j \<in> set (pk_migrations pk)" for k j
    using that
  proof (induction rule: converse_trancl_induct)
    case (base k)
    then obtain n where n: "n \<in> set ms" "j = mg_key n" "k \<in> set (mg_dependencies n)" by (auto simp: dependencies_def)
    then consider "n = m" | "n \<in> set p"
      using base(2) key_inject[of n m] key_inject[of n] foreign_keys[OF n(1)] sub by auto
    then show ?case
    proof cases
      case 1
      then show ?thesis using ordered_dependency[OF ord, of k] n(3) by auto
    next
      case 2
      then obtain a b where "p = a @ n # b" by (auto dest!: split_list)
      then show ?thesis using ordered_dependency[of "pk_migrations pk" a n "b @ m # q" k] ord n(3) by auto
    qed
  next
    case (step k l)
    then obtain n where n: "n \<in> set ms" "l = mg_key n" "k \<in> set (mg_dependencies n)" by (auto simp: dependencies_def)
    have "l \<in> mg_key ` set p" using step(3)[OF step(4)] foreign_keys[OF n(1)] n(2) by simp
    then have "n \<in> set p" using n key_inject sub by auto
    then obtain a b where "p = a @ n # b" by (auto dest!: split_list)
    then show ?case using ordered_dependency[of "pk_migrations pk" a n "b @ m # q" k] ord n(3) by auto
  qed
  from this[OF d(1)] show ?thesis using foreign_keys[OF d(2)] key_inject[OF d(2)] sub by auto
qed

lemma plan_chain:
  assumes plan: "plan_of pk ms plan"
  shows "filter (\<lambda>m. mg_app m = app) plan = filter (\<lambda>m. mg_app m = app) ms"
proof (rule chain_unique)
  show "distinct (filter (\<lambda>m. mg_app m = app) ms)" using keys by (simp add: distinct_map)
  show "distinct (filter (\<lambda>m. mg_app m = app) plan)" "set (filter (\<lambda>m. mg_app m = app) plan) = set (filter (\<lambda>m. mg_app m = app) ms)"
    using plan by (simp_all add: plan_of_def)
  fix c1 x y c2 a b
  assume c: "filter (\<lambda>m. mg_app m = app) ms = c1 @ x # y # c2" and f: "filter (\<lambda>m. mg_app m = app) plan = a @ y # b"
  have "y \<in> set (filter (\<lambda>m. mg_app m = app) plan)" unfolding f by simp
  then obtain p q where p: "plan = p @ y # q" and y: "mg_app y = app" by (auto dest!: split_list)
  have d: "distinct plan" using plan by (simp add: plan_of_def)
  then have "distinct (a @ y # b)" unfolding f[symmetric] by simp
  then have a: "a = filter (\<lambda>m. mg_app m = app) p"
    using f[unfolded p] y append_Cons_eq_iff[of y a b "filter (\<lambda>m. mg_app m = app) p" "filter (\<lambda>m. mg_app m = app) q"]
    by simp
  have "x \<in> set (filter (\<lambda>m. mg_app m = app) ms)" "y \<in> set (filter (\<lambda>m. mg_app m = app) ms)" unfolding c by simp_all
  then have in_ms: "x \<in> set ms" "y \<in> set ms" "mg_app x = app" by simp_all
  then have "(mg_key x, mg_key y) \<in> dependencies ms" using chained[OF c] unfolding dependencies_def by blast
  then have "(mg_key x, mg_key y) \<in> (dependencies ms)\<^sup>+" by (rule r_into_trancl)
  then have "x \<in> set p" using run_before[of p y q x] plan in_ms(1) p by simp
  then show "x \<in> set a" using in_ms(3) a by simp
qed

lemma run_own:
  assumes "migrate pk p fresh_database = (Inr (), db)" "set p \<subseteq> set ms" "\<exists>m\<in>set ms. mg_app m = app"
  shows "\<exists>s. apply_operations (\<lambda>k. fst k \<noteq> app) app (app_history app p) (\<lambda>_. None) = Inr s \<and> same_app app s (ds_schema db)"
  using assms(1,2)
proof (induction p arbitrary: db rule: rev_induct)
  case Nil
  then show ?case by (auto simp: app_history_def migrate_def fresh_database_def same_app_def)
next
  case (snoc m p)
  then obtain db1 where d: "migrate pk p fresh_database = (Inr (), db1)" "apply_migration pk m db1 = (Inr (), db)"
    by (blast elim: migrate_snocD)
  obtain s where s: "apply_operations (\<lambda>k. fst k \<noteq> app) app (app_history app p) (\<lambda>_. None) = Inr s"
    "same_app app s (ds_schema db1)" using snoc.IH[OF d(1)] snoc.prems(2) by auto
  note a = apply_migrationD(1)[OF d(2)]
  show ?case
  proof (cases "mg_app m = app")
    case True
    have "\<exists>t. apply_operations (\<lambda>k. fst k \<noteq> app) app (mg_operations m) s = Inr t \<and> same_app app (ds_schema db) t"
    proof (rule operations_transfer)
      show "apply_operations (\<lambda>k. k \<in> set (pk_models pk)) app (mg_operations m) (ds_schema db1) = Inr (ds_schema db)"
        using a True by simp
      show "same_app app (ds_schema db1) s" using s(2) by (simp add: same_app_def)
      show "\<forall>n. (app, n) \<in> set (pk_models pk) \<longrightarrow> fst (app, n) \<noteq> app" using own_apps assms(3) by auto
    qed (simp add: model_present_def)
    then show ?thesis using s(1) True by (auto simp: app_history_def operations_append same_app_def)
  next
    case False
    then have "same_app app s (ds_schema db)"
      using s(2) operations_extend[OF a] by (simp add: same_app_def extends_app_def)
    then show ?thesis using s(1) False by (auto simp: app_history_def)
  qed
qed

lemma plan_step:
  assumes plan: "plan_of pk ms (p @ m # q)" and run: "migrate pk p fresh_database = (Inr (), db)"
  shows "\<exists>s. apply_operations (\<lambda>k. k \<in> set (pk_models pk)) (mg_app m) (mg_operations m) (ds_schema db) = Inr s"
proof -
  let ?app = "mg_app m"
  have sub: "set (p @ m # q) = set ms" using plan by (simp add: plan_of_def)
  then have m: "m \<in> set ms" by auto
  obtain s where s: "apply_operations (\<lambda>k. fst k \<noteq> ?app) ?app (app_history ?app p) (\<lambda>_. None) = Inr s" "same_app ?app s (ds_schema db)"
    using run_own[OF run, of ?app] sub m by auto
  have "app_history ?app ms = app_history ?app p @ mg_operations m @ app_history ?app q"
    unfolding app_history_def plan_chain[OF plan, symmetric] by simp
  then obtain s' where s': "apply_operations (\<lambda>k. fst k \<noteq> ?app) ?app (mg_operations m) s = Inr s'"
    using builds[of ?app] s(1) by (auto simp: operations_append res_bind_Inr_iff)
  have "\<exists>t. apply_operations (\<lambda>k. k \<in> set (pk_models pk)) ?app (mg_operations m) (ds_schema db) = Inr t \<and> same_app ?app s' t"
  proof (rule operations_transfer[OF s' s(2)])
    show "\<forall>n. fst (?app, n) \<noteq> ?app \<longrightarrow> (?app, n) \<in> set (pk_models pk)" by simp
    show "\<forall>op\<in>set (mg_operations m). \<forall>k\<in>set (op_targets op). fst k \<noteq> ?app \<longrightarrow> model_present (\<lambda>k. k \<in> set (pk_models pk)) (ds_schema db) k"
    proof (intro ballI impI)
      fix op k assume "op \<in> set (mg_operations m)" "k \<in> set (op_targets op)" "fst k \<noteq> ?app"
      then consider "k \<in> set (pk_models pk)" | m' where "m' \<in> set p" "k \<in> set (creates m')"
        using creators[OF m] run_before[OF plan] by blast
      then show "model_present (\<lambda>k. k \<in> set (pk_models pk)) (ds_schema db) k"
        using migrate_creates[OF run] by cases (auto simp: model_present_def)
    qed
  qed
  then show ?thesis by blast
qed

definition seeds_in :: "migration list \<Rightarrow> seed list" where
  "seeds_in p = concat (map (\<lambda>m. seeds_of (mg_operations m)) p)"

lemma seed_names_mset:
  "mset (map sd_name (seeds_in p)) = sum_mset (image_mset (\<lambda>m. mset (map sd_name (seeds_of (mg_operations m)))) (mset p))"
  by (induction p) (simp_all add: seeds_in_def)

lemma run_prefix:
  assumes "plan_of pk ms (p @ q)"
  shows "\<exists>db. migrate pk p fresh_database = (Inr (), db) \<and> ds_applied db = map mg_key p \<and> seeded_with (seeds_in p) (ds_beat db)"
  using assms
proof (induction p arbitrary: q rule: rev_induct)
  case Nil
  then show ?case by (simp add: migrate_def fresh_database_def seeds_in_def seeded_with_nothing)
next
  case (snoc m p)
  then have plan: "plan_of pk ms (p @ m # q)" by simp
  obtain db where db: "migrate pk p fresh_database = (Inr (), db)" "ds_applied db = map mg_key p"
    "seeded_with (seeds_in p) (ds_beat db)" using snoc.IH[OF plan] by blast
  obtain s where s: "apply_operations (\<lambda>k. k \<in> set (pk_models pk)) (mg_app m) (mg_operations m) (ds_schema db) = Inr s"
    using plan_step[OF plan db(1)] by blast
  have "mset (p @ m # q) = mset ms"
    using plan keys set_eq_iff_mset_eq_distinct[of "p @ m # q" ms] unfolding plan_of_def distinct_map by blast
  then have "mset (map sd_name (seeds_in (p @ m # q))) = mset (map sd_name (seeds_in ms))" by (simp only: seed_names_mset)
  then have "distinct (map sd_name (seeds_in (p @ m # q)))" using seed_names mset_eq_imp_distinct_iff by (metis seeds_in_def)
  moreover have "seeds_in (p @ m # q) = (seeds_in p @ seeds_of (mg_operations m)) @ seeds_in q" by (simp add: seeds_in_def)
  ultimately have "distinct (map sd_name (seeds_in p @ seeds_of (mg_operations m)))" by (metis distinct_append map_append)
  then obtain b where b: "for_each create_periodic_task (seeds_of (mg_operations m)) (ds_beat db) = (Inr (), b)"
    "seeded_with (seeds_in p @ seeds_of (mg_operations m)) b" using seed_list[OF db(3)] by blast
  have deps: "list_all (\<lambda>d. d \<in> set (pk_migrations pk) \<or> d \<in> set (ds_applied db)) (mg_dependencies m)"
    using ordered_dependency[of "pk_migrations pk" p m q] plan db(2) by (auto simp: plan_of_def list_all_iff)
  show ?case
    using db s b deps by (simp add: migrate_snoc apply_migration_def seeds_in_def)
qed

theorem every_plan_builds:
  assumes plan: "plan_of pk ms plan"
  shows "\<exists>db. migrate pk plan fresh_database = (Inr (), db) \<and>
    (\<forall>m\<in>set ms. same_app (mg_app m) (ds_schema db) built) \<and>
    (\<forall>k. ds_schema db k \<noteq> None \<longrightarrow> (\<exists>m\<in>set ms. k \<in> set (creates m))) \<and>
    (\<forall>m\<in>set ms. \<forall>sd\<in>set (seeds_of (mg_operations m)). scheduled sd (ds_beat db))"
proof -
  obtain db where db: "migrate pk plan fresh_database = (Inr (), db)" "seeded_with (seeds_in plan) (ds_beat db)"
    using run_prefix[of plan "[]"] plan by auto
  have sub: "set plan = set ms" using plan by (simp add: plan_of_def)
  have "same_app (mg_app m) (ds_schema db) built" if m: "m \<in> set ms" for m
  proof -
    have "app_history (mg_app m) plan = app_history (mg_app m) ms" by (simp add: app_history_def plan_chain[OF plan])
    moreover have "\<exists>m'\<in>set ms. mg_app m' = mg_app m" using m by blast
    ultimately show ?thesis using run_own[OF db(1), of "mg_app m"] builds[of "mg_app m"] sub by (auto simp: same_app_def)
  qed
  moreover have "scheduled sd (ds_beat db)" if "m \<in> set ms" "sd \<in> set (seeds_of (mg_operations m))" for m sd
    using db(2) that sub by (auto simp: seeded_with_def seeds_in_def)
  ultimately show ?thesis using db(1) migrate_only_creates[OF db(1)] sub by blast
qed

end

end
