(* ===== verification/Schema.thy ===== *)
theory Schema
  imports Migrations Log_Reader
begin

text \<open>
  The model classes of the apps as declarations, and their migrations. The main result: however the
  migrations are ordered, running them on an empty database builds exactly the declared models, and seeds the
  periodic tasks.
\<close>

section \<open>Apps\<close>

record app_config =
  ac_name :: string
  ac_label :: string
  ac_default_auto_field :: string

definition users_config :: app_config where
  "users_config = \<lparr>ac_name = ''apps.users'', ac_label = ''users'', ac_default_auto_field = ''django.db.models.BigAutoField''\<rparr>"

definition dashboard_config :: app_config where
  "dashboard_config = \<lparr>ac_name = ''apps.dashboard'', ac_label = ''dashboard'', ac_default_auto_field = ''django.db.models.BigAutoField''\<rparr>"

definition servers_config :: app_config where
  "servers_config = \<lparr>ac_name = ''apps.servers'', ac_label = ''servers'', ac_default_auto_field = ''django.db.models.BigAutoField''\<rparr>"

definition logs_config :: app_config where
  "logs_config = \<lparr>ac_name = ''apps.logs'', ac_label = ''logs'', ac_default_auto_field = ''django.db.models.BigAutoField''\<rparr>"

definition ips_config :: app_config where
  "ips_config = \<lparr>ac_name = ''apps.ips'', ac_label = ''ips'', ac_default_auto_field = ''django.db.models.BigAutoField''\<rparr>"

definition whois_config :: app_config where
  "whois_config = \<lparr>ac_name = ''apps.whois'', ac_label = ''whois'', ac_default_auto_field = ''django.db.models.BigAutoField''\<rparr>"

definition geo_config :: app_config where
  "geo_config = \<lparr>ac_name = ''apps.geo'', ac_label = ''geo'', ac_default_auto_field = ''django.db.models.BigAutoField''\<rparr>"

definition incidents_config :: app_config where
  "incidents_config = \<lparr>ac_name = ''apps.incidents'', ac_label = ''incidents'', ac_default_auto_field = ''django.db.models.BigAutoField''\<rparr>"

definition iran_config :: app_config where
  "iran_config = \<lparr>ac_name = ''apps.iran'', ac_label = ''iran'', ac_default_auto_field = ''django.db.models.BigAutoField''\<rparr>"

definition api_config :: app_config where
  "api_config = \<lparr>ac_name = ''apps.api'', ac_label = ''api'', ac_default_auto_field = ''django.db.models.BigAutoField''\<rparr>"

definition app_configs :: "app_config list" where
  "app_configs =
     [users_config, dashboard_config, servers_config, logs_config, ips_config, whois_config, geo_config, incidents_config,
      iran_config, api_config]"

text \<open>The primary key every model gets: the configuration of its app decides, then the settings.\<close>

definition default_auto_field :: string where "default_auto_field = ''django.db.models.BigAutoField''"

definition auto_field :: "string \<Rightarrow> field_type" where
  "auto_field label =
     (if (case find (\<lambda>c. ac_label c = label) app_configs of None \<Rightarrow> default_auto_field | Some c \<Rightarrow> ac_default_auto_field c)
         = ''django.db.models.BigAutoField'' then Big_auto else Big_integer)"

definition auth_user_model :: model_key where "auth_user_model = (''users'', ''user'')"

section \<open>Model classes\<close>

definition time_stamped :: columns where
  "time_stamped = [(''created_at'', (field_of Date_time)\<lparr>fd_auto_now_add := True\<rparr>),
                   (''updated_at'', (field_of Date_time)\<lparr>fd_auto_now := True\<rparr>)]"

definition declared :: "string \<Rightarrow> string \<Rightarrow> string list \<Rightarrow> columns \<Rightarrow> string list list \<Rightarrow> (string \<times> string list) list \<Rightarrow> model" where
  "declared app table ord cols indexes constraints =
     \<lparr>md_table = table, md_ordering = ord,
      md_fields = (''id'', field_of (auto_field app)) # cols,
      md_indexes = indexes, md_constraints = constraints\<rparr>"

definition server_class :: model where
  "server_class = declared ''servers'' ''servers'' [''name'']
     (time_stamped @
      [(''name'', unique_field (field_of (Char_field 100))),
       (''hostname'', field_of (Char_field 255)),
       (''ip_address'', optional (field_of Generic_ip)),
       (''ssh_port'', with_default (Num 22) (field_of Positive_integer)),
       (''ssh_username'', field_of (Char_field 100)),
       (''ssh_auth_type'', with_default (Str ''ssh_key'') (choices [Str ''ssh_key'', Str ''password''] (field_of (Char_field 10)))),
       (''ssh_private_key'', blank (field_of Encrypted_text)),
       (''log_search_paths'', with_default (Call ''list'') (blank (field_of Json_field))),
       (''enabled'', with_default (Flag True) (field_of Boolean_field)),
       (''last_connected_at'', optional (field_of Date_time)),
       (''last_error'', blank (field_of Text_field))])
     [[''enabled'']] []"

definition log_source_class :: model where
  "log_source_class = declared ''logs'' ''log_sources'' [''server__name'', ''path'']
     (time_stamped @
      [(''server'', field_of (Foreign_key (''servers'', ''server'') Cascade ''log_sources'')),
       (''name'', field_of (Char_field 255)),
       (''path'', field_of (Char_field 1024)),
       (''format'', with_default (Str ''combined'') (field_of (Char_field 50))),
       (''enabled'', with_default (Flag False) (field_of Boolean_field)),
       (''inode'', optional (field_of Big_integer)),
       (''byte_offset'', with_default (Num 0) (field_of Big_integer)),
       (''last_read_at'', optional (field_of Date_time)),
       (''last_event_at'', optional (field_of Date_time)),
       (''last_error'', blank (field_of Text_field))])
     [[''server'', ''enabled'']] [(''unique_log_source_per_server_path'', [''server'', ''path''])]"

definition ip_address_class :: model where
  "ip_address_class = declared ''ips'' ''ip_addresses'' [''-last_seen_at'']
     (time_stamped @
      [(''address'', unique_field (field_of Generic_ip)),
       (''version'', choices [Num 4, Num 6] (field_of Positive_small)),
       (''country_code'', blank (field_of (Char_field 2))),
       (''country_name'', blank (field_of (Char_field 100))),
       (''continent'', blank (field_of (Char_field 2))),
       (''latitude'', optional (field_of Float_field)),
       (''longitude'', optional (field_of Float_field)),
       (''asn'', optional (field_of Positive_big)),
       (''organization'', blank (field_of (Char_field 255))),
       (''network'', blank (field_of (Char_field 255))),
       (''cidr'', optional (field_of Cidr_field)),
       (''whois_status'', with_default (Str ''never_checked'')
          (choices [Str ''never_checked'', Str ''ok'', Str ''error''] (field_of (Char_field 15)))),
       (''whois_checked_at'', optional (field_of Date_time)),
       (''whois_next_check_at'', optional (field_of Date_time)),
       (''whois_country'', blank (field_of (Char_field 2))),
       (''whois_error'', blank (field_of Text_field)),
       (''is_iran'', with_default (Flag False) (field_of Boolean_field)),
       (''iran_checked_at'', optional (field_of Date_time)),
       (''iran_match_cidr'', optional (field_of Cidr_field)),
       (''first_seen_at'', field_of Date_time),
       (''last_seen_at'', field_of Date_time)])
     [[''-last_seen_at''], [''is_iran''], [''country_code''], [''asn'']] []"

definition request_event_class :: model where
  "request_event_class = declared ''incidents'' ''request_events'' [''-timestamp'']
     [(''server'', field_of (Foreign_key (''servers'', ''server'') Cascade ''request_events'')),
      (''log_source'', field_of (Foreign_key (''logs'', ''logsource'') Cascade ''request_events'')),
      (''ip'', field_of (Foreign_key (''ips'', ''ipaddress'') Cascade ''request_events'')),
      (''timestamp'', field_of Date_time),
      (''host'', blank (field_of (Char_field 255))),
      (''method'', blank (field_of (Char_field 16))),
      (''uri'', blank (field_of (Char_field 2048))),
      (''status'', field_of Positive_small),
      (''bytes'', with_default (Num 0) (field_of Positive_big)),
      (''request_time'', optional (field_of Float_field)),
      (''user_agent'', blank (field_of (Char_field 512))),
      (''referer'', blank (field_of (Char_field 2048))),
      (''raw_line'', field_of Text_field),
      (''created_at'', (field_of Date_time)\<lparr>fd_auto_now_add := True\<rparr>)]
     [[''-timestamp''], [''ip'', ''-timestamp''], [''server'', ''-timestamp''], [''status'']] []"

definition whois_record_class :: model where
  "whois_record_class = declared ''whois'' ''whois_records'' [''-queried_at'']
     [(''ip'', field_of (Foreign_key (''ips'', ''ipaddress'') Cascade ''whois_records'')),
      (''queried_at'', field_of Date_time),
      (''whois_server'', blank (field_of (Char_field 255))),
      (''raw_response'', field_of Text_field),
      (''parsed_data'', with_default (Call ''dict'') (blank (field_of Json_field))),
      (''response_hash'', blank (field_of (Char_field 64))),
      (''created_at'', (field_of Date_time)\<lparr>fd_auto_now_add := True\<rparr>)]
     [[''ip'', ''-queried_at''], [''-queried_at'']] []"

definition country_network_class :: model where
  "country_network_class = declared ''iran'' ''country_networks'' [''country_code'', ''cidr'']
     (time_stamped @
      [(''country_code'', field_of (Char_field 2)),
       (''cidr'', field_of Cidr_field),
       (''network'', blank (field_of (Char_field 255))),
       (''prefix_length'', (field_of Positive_small)\<lparr>fd_editable := False\<rparr>),
       (''source'', with_default (Str ''manual'') (field_of (Char_field 50))),
       (''valid_from'', optional (field_of Date_time)),
       (''valid_until'', optional (field_of Date_time)),
       (''last_verified_at'', optional (field_of Date_time)),
       (''enabled'', with_default (Flag True) (field_of Boolean_field))])
     [[''country_code''], [''enabled'']] [(''unique_country_cidr'', [''country_code'', ''cidr''])]"

definition country_history_class :: model where
  "country_history_class = declared ''iran'' ''ip_country_history'' [''-valid_from'']
     [(''ip'', field_of (Foreign_key (''ips'', ''ipaddress'') Cascade ''country_history'')),
      (''country_code'', field_of (Char_field 2)),
      (''source'', field_of (Char_field 50)),
      (''cidr'', optional (field_of Cidr_field)),
      (''valid_from'', field_of Date_time),
      (''valid_until'', optional (field_of Date_time)),
      (''confidence'', with_default (Num 1) (field_of Float_field)),
      (''created_at'', (field_of Date_time)\<lparr>fd_auto_now_add := True\<rparr>)]
     [[''ip'', ''-valid_from''], [''country_code'']] []"

text \<open>\<open>AbstractUser\<close> belongs to Django: its columns are an argument.\<close>

definition user_class :: "columns \<Rightarrow> model" where
  "user_class abstract_user = declared ''users'' ''users'' [''username''] abstract_user [] []"

definition audit_entry_class :: model where
  "audit_entry_class = declared ''users'' ''audit_log_entries'' [''-created_at'']
     (time_stamped @
      [(''user'', optional (field_of (Foreign_key auth_user_model Set_null ''audit_log_entries''))),
       (''action'', (field_of (Char_field 100))\<lparr>fd_db_index := True\<rparr>),
       (''object_type'', blank (field_of (Char_field 100))),
       (''object_id'', blank (field_of (Char_field 100))),
       (''object_repr'', blank (field_of (Char_field 255))),
       (''ip_address'', optional (field_of Generic_ip)),
       (''result'', with_default (Str ''success'') (choices [Str ''success'', Str ''failure''] (field_of (Char_field 10)))),
       (''metadata'', with_default (Call ''dict'') (blank (field_of Json_field)))])
     [[''action'', ''-created_at''], [''object_type'', ''object_id'']] []"

text \<open>The models of the apps, by label and name in lower case.\<close>

definition declared_models :: "columns \<Rightarrow> (model_key \<times> model) list" where
  "declared_models abstract_user =
     [(auth_user_model, user_class abstract_user),
      ((''users'', ''auditlogentry''), audit_entry_class),
      ((''servers'', ''server''), server_class),
      ((''logs'', ''logsource''), log_source_class),
      ((''ips'', ''ipaddress''), ip_address_class),
      ((''incidents'', ''requestevent''), request_event_class),
      ((''whois'', ''whoisrecord''), whois_record_class),
      ((''iran'', ''countrynetwork''), country_network_class),
      ((''iran'', ''ipcountryhistory''), country_history_class)]"


section \<open>Migrations\<close>

definition id_column :: "string \<times> field" where "id_column = (''id'', field_of Big_auto)"

definition servers_0001 :: migration where
  "servers_0001 = \<lparr>mg_app = ''servers'', mg_name = ''0001_initial'', mg_dependencies = [],
     mg_operations =
       [Create_model ''Server''
          \<lparr>md_table = ''servers'', md_ordering = [''name''],
           md_fields =
             [id_column,
              (''created_at'', (field_of Date_time)\<lparr>fd_auto_now_add := True\<rparr>),
              (''updated_at'', (field_of Date_time)\<lparr>fd_auto_now := True\<rparr>),
              (''name'', unique_field (field_of (Char_field 100))),
              (''hostname'', field_of (Char_field 255)),
              (''ip_address'', optional (field_of Generic_ip)),
              (''ssh_port'', with_default (Num 22) (field_of Positive_integer)),
              (''ssh_username'', field_of (Char_field 100)),
              (''ssh_auth_type'', with_default (Str ''ssh_key'') (choices [Str ''ssh_key'', Str ''password''] (field_of (Char_field 10)))),
              (''ssh_private_key'', blank (field_of Encrypted_text)),
              (''log_search_paths'', with_default (Call ''list'') (blank (field_of Json_field))),
              (''enabled'', with_default (Flag True) (field_of Boolean_field)),
              (''last_connected_at'', optional (field_of Date_time)),
              (''last_error'', blank (field_of Text_field))],
           md_indexes = [[''enabled'']], md_constraints = []\<rparr>]\<rparr>"

definition logs_0001 :: migration where
  "logs_0001 = \<lparr>mg_app = ''logs'', mg_name = ''0001_initial'', mg_dependencies = [(''servers'', ''0001_initial'')],
     mg_operations =
       [Create_model ''LogSource''
          \<lparr>md_table = ''log_sources'', md_ordering = [''server__name'', ''path''],
           md_fields =
             [id_column,
              (''created_at'', (field_of Date_time)\<lparr>fd_auto_now_add := True\<rparr>),
              (''updated_at'', (field_of Date_time)\<lparr>fd_auto_now := True\<rparr>),
              (''name'', field_of (Char_field 255)),
              (''path'', field_of (Char_field 1024)),
              (''format'', with_default (Str ''combined'') (field_of (Char_field 50))),
              (''enabled'', with_default (Flag False) (field_of Boolean_field)),
              (''inode'', optional (field_of Big_integer)),
              (''byte_offset'', with_default (Num 0) (field_of Big_integer)),
              (''last_read_at'', optional (field_of Date_time)),
              (''last_event_at'', optional (field_of Date_time)),
              (''last_error'', blank (field_of Text_field)),
              (''server'', field_of (Foreign_key (''servers'', ''server'') Cascade ''log_sources''))],
           md_indexes = [[''server'', ''enabled'']], md_constraints = []\<rparr>,
        Add_constraint ''logsource'' ''unique_log_source_per_server_path'' [''server'', ''path'']]\<rparr>"

definition logs_0002 :: migration where
  "logs_0002 = \<lparr>mg_app = ''logs'', mg_name = ''0002_seed_poll_periodic_task'',
     mg_dependencies = [(''logs'', ''0001_initial''), (''django_celery_beat'', ''0001_initial'')],
     mg_operations = [Run_python poll_seed]\<rparr>"

definition ips_0001 :: migration where
  "ips_0001 = \<lparr>mg_app = ''ips'', mg_name = ''0001_initial'', mg_dependencies = [],
     mg_operations =
       [Create_model ''IPAddress''
          \<lparr>md_table = ''ip_addresses'', md_ordering = [''-last_seen_at''],
           md_fields =
             [id_column,
              (''created_at'', (field_of Date_time)\<lparr>fd_auto_now_add := True\<rparr>),
              (''updated_at'', (field_of Date_time)\<lparr>fd_auto_now := True\<rparr>),
              (''address'', unique_field (field_of Generic_ip)),
              (''version'', choices [Num 4, Num 6] (field_of Positive_small)),
              (''first_seen_at'', field_of Date_time),
              (''last_seen_at'', field_of Date_time)],
           md_indexes = [[''-last_seen_at'']], md_constraints = []\<rparr>]\<rparr>"

definition ips_0002 :: migration where
  "ips_0002 = \<lparr>mg_app = ''ips'', mg_name = ''0002_add_intelligence_fields'', mg_dependencies = [(''ips'', ''0001_initial'')],
     mg_operations =
       [Add_field ''ipaddress'' ''asn'' (optional (field_of Positive_big)),
        Add_field ''ipaddress'' ''cidr'' (optional (field_of Cidr_field)),
        Add_field ''ipaddress'' ''continent'' (blank (field_of (Char_field 2))),
        Add_field ''ipaddress'' ''country_code'' (blank (field_of (Char_field 2))),
        Add_field ''ipaddress'' ''country_name'' (blank (field_of (Char_field 100))),
        Add_field ''ipaddress'' ''iran_checked_at'' (optional (field_of Date_time)),
        Add_field ''ipaddress'' ''iran_match_cidr'' (optional (field_of Cidr_field)),
        Add_field ''ipaddress'' ''is_iran'' (with_default (Flag False) (field_of Boolean_field)),
        Add_field ''ipaddress'' ''latitude'' (optional (field_of Float_field)),
        Add_field ''ipaddress'' ''longitude'' (optional (field_of Float_field)),
        Add_field ''ipaddress'' ''network'' (blank (field_of (Char_field 255))),
        Add_field ''ipaddress'' ''organization'' (blank (field_of (Char_field 255))),
        Add_field ''ipaddress'' ''whois_checked_at'' (optional (field_of Date_time)),
        Add_field ''ipaddress'' ''whois_country'' (blank (field_of (Char_field 2))),
        Add_field ''ipaddress'' ''whois_next_check_at'' (optional (field_of Date_time)),
        Add_field ''ipaddress'' ''whois_status'' (with_default (Str ''never_checked'')
          (choices [Str ''never_checked'', Str ''ok'', Str ''error''] (field_of (Char_field 15)))),
        Add_index ''ipaddress'' [''is_iran''],
        Add_index ''ipaddress'' [''country_code''],
        Add_index ''ipaddress'' [''asn'']]\<rparr>"

definition ips_0003 :: migration where
  "ips_0003 = \<lparr>mg_app = ''ips'', mg_name = ''0003_ipaddress_whois_error'', mg_dependencies = [(''ips'', ''0002_add_intelligence_fields'')],
     mg_operations = [Add_field ''ipaddress'' ''whois_error'' (blank (field_of Text_field))]\<rparr>"

definition ips_0004 :: migration where
  "ips_0004 = \<lparr>mg_app = ''ips'', mg_name = ''0004_seed_purge_task'',
     mg_dependencies = [(''ips'', ''0003_ipaddress_whois_error''), (''django_celery_beat'', ''0001_initial'')],
     mg_operations = [Run_python purge_seed]\<rparr>"

definition incidents_0001 :: migration where
  "incidents_0001 = \<lparr>mg_app = ''incidents'', mg_name = ''0001_initial'',
     mg_dependencies = [(''ips'', ''0001_initial''), (''logs'', ''0001_initial''), (''servers'', ''0001_initial'')],
     mg_operations =
       [Create_model ''RequestEvent''
          \<lparr>md_table = ''request_events'', md_ordering = [''-timestamp''],
           md_fields =
             [id_column,
              (''timestamp'', field_of Date_time),
              (''host'', blank (field_of (Char_field 255))),
              (''method'', blank (field_of (Char_field 16))),
              (''uri'', blank (field_of (Char_field 2048))),
              (''status'', field_of Positive_small),
              (''bytes'', with_default (Num 0) (field_of Positive_big)),
              (''request_time'', optional (field_of Float_field)),
              (''user_agent'', blank (field_of (Char_field 512))),
              (''referer'', blank (field_of (Char_field 2048))),
              (''raw_line'', field_of Text_field),
              (''created_at'', (field_of Date_time)\<lparr>fd_auto_now_add := True\<rparr>),
              (''ip'', field_of (Foreign_key (''ips'', ''ipaddress'') Cascade ''request_events'')),
              (''log_source'', field_of (Foreign_key (''logs'', ''logsource'') Cascade ''request_events'')),
              (''server'', field_of (Foreign_key (''servers'', ''server'') Cascade ''request_events''))],
           md_indexes = [[''-timestamp''], [''ip'', ''-timestamp''], [''server'', ''-timestamp''], [''status'']],
           md_constraints = []\<rparr>]\<rparr>"

definition whois_0001 :: migration where
  "whois_0001 = \<lparr>mg_app = ''whois'', mg_name = ''0001_initial'', mg_dependencies = [(''ips'', ''0003_ipaddress_whois_error'')],
     mg_operations =
       [Create_model ''WhoisRecord''
          \<lparr>md_table = ''whois_records'', md_ordering = [''-queried_at''],
           md_fields =
             [id_column,
              (''queried_at'', field_of Date_time),
              (''whois_server'', blank (field_of (Char_field 255))),
              (''raw_response'', field_of Text_field),
              (''parsed_data'', with_default (Call ''dict'') (blank (field_of Json_field))),
              (''response_hash'', blank (field_of (Char_field 64))),
              (''created_at'', (field_of Date_time)\<lparr>fd_auto_now_add := True\<rparr>),
              (''ip'', field_of (Foreign_key (''ips'', ''ipaddress'') Cascade ''whois_records''))],
           md_indexes = [[''ip'', ''-queried_at''], [''-queried_at'']], md_constraints = []\<rparr>]\<rparr>"

definition iran_0001 :: migration where
  "iran_0001 = \<lparr>mg_app = ''iran'', mg_name = ''0001_initial'', mg_dependencies = [(''ips'', ''0003_ipaddress_whois_error'')],
     mg_operations =
       [Create_model ''IPCountryHistory''
          \<lparr>md_table = ''ip_country_history'', md_ordering = [''-valid_from''],
           md_fields =
             [id_column,
              (''country_code'', field_of (Char_field 2)),
              (''source'', field_of (Char_field 50)),
              (''cidr'', optional (field_of Cidr_field)),
              (''valid_from'', field_of Date_time),
              (''valid_until'', optional (field_of Date_time)),
              (''confidence'', with_default (Num 1) (field_of Float_field)),
              (''created_at'', (field_of Date_time)\<lparr>fd_auto_now_add := True\<rparr>)],
           md_indexes = [], md_constraints = []\<rparr>,
        Create_model ''CountryNetwork''
          \<lparr>md_table = ''country_networks'', md_ordering = [''country_code'', ''cidr''],
           md_fields =
             [id_column,
              (''created_at'', (field_of Date_time)\<lparr>fd_auto_now_add := True\<rparr>),
              (''updated_at'', (field_of Date_time)\<lparr>fd_auto_now := True\<rparr>),
              (''country_code'', field_of (Char_field 2)),
              (''cidr'', field_of Cidr_field),
              (''network'', blank (field_of (Char_field 255))),
              (''prefix_length'', (field_of Positive_small)\<lparr>fd_editable := False\<rparr>),
              (''source'', with_default (Str ''manual'') (field_of (Char_field 50))),
              (''valid_from'', optional (field_of Date_time)),
              (''valid_until'', optional (field_of Date_time)),
              (''last_verified_at'', optional (field_of Date_time)),
              (''enabled'', with_default (Flag True) (field_of Boolean_field))],
           md_indexes = [[''country_code''], [''enabled'']], md_constraints = []\<rparr>,
        Add_constraint ''countrynetwork'' ''unique_country_cidr'' [''country_code'', ''cidr''],
        Add_field ''ipcountryhistory'' ''ip'' (field_of (Foreign_key (''ips'', ''ipaddress'') Cascade ''country_history'')),
        Add_index ''ipcountryhistory'' [''ip'', ''-valid_from''],
        Add_index ''ipcountryhistory'' [''country_code'']]\<rparr>"

definition iran_0002 :: migration where
  "iran_0002 = \<lparr>mg_app = ''iran'', mg_name = ''0002_seed_monthly_validation_task'',
     mg_dependencies = [(''iran'', ''0001_initial''), (''django_celery_beat'', ''0001_initial'')],
     mg_operations = [Run_python validation_seed]\<rparr>"

definition users_0001 :: migration where
  "users_0001 = \<lparr>mg_app = ''users'', mg_name = ''0001_initial'',
     mg_dependencies = [(''auth'', ''0012_alter_user_first_name_max_length'')],
     mg_operations =
       [Create_model ''User''
          \<lparr>md_table = ''users'', md_ordering = [''username''],
           md_fields =
             [id_column,
              (''password'', field_of (Char_field 128)),
              (''last_login'', optional (field_of Date_time)),
              (''is_superuser'', with_default (Flag False) (field_of Boolean_field)),
              (''username'', unique_field (field_of (Char_field 150))),
              (''first_name'', blank (field_of (Char_field 150))),
              (''last_name'', blank (field_of (Char_field 150))),
              (''email'', blank (field_of (Email_field 254))),
              (''is_staff'', with_default (Flag False) (field_of Boolean_field)),
              (''is_active'', with_default (Flag True) (field_of Boolean_field)),
              (''date_joined'', with_default (Call ''timezone.now'') (field_of Date_time)),
              (''groups'', blank (field_of (Many_to_many (''auth'', ''group'')))),
              (''user_permissions'', blank (field_of (Many_to_many (''auth'', ''permission''))))],
           md_indexes = [], md_constraints = []\<rparr>,
        Create_model ''AuditLogEntry''
          \<lparr>md_table = ''audit_log_entries'', md_ordering = [''-created_at''],
           md_fields =
             [id_column,
              (''created_at'', (field_of Date_time)\<lparr>fd_auto_now_add := True\<rparr>),
              (''updated_at'', (field_of Date_time)\<lparr>fd_auto_now := True\<rparr>),
              (''action'', (field_of (Char_field 100))\<lparr>fd_db_index := True\<rparr>),
              (''object_type'', blank (field_of (Char_field 100))),
              (''object_id'', blank (field_of (Char_field 100))),
              (''object_repr'', blank (field_of (Char_field 255))),
              (''ip_address'', optional (field_of Generic_ip)),
              (''result'', with_default (Str ''success'') (choices [Str ''success'', Str ''failure''] (field_of (Char_field 10)))),
              (''metadata'', with_default (Call ''dict'') (blank (field_of Json_field))),
              (''user'', optional (field_of (Foreign_key auth_user_model Set_null ''audit_log_entries'')))],
           md_indexes = [[''action'', ''-created_at''], [''object_type'', ''object_id'']], md_constraints = []\<rparr>]\<rparr>"

definition project_migrations :: "migration list" where
  "project_migrations =
     [users_0001, servers_0001, logs_0001, logs_0002, ips_0001, ips_0002, ips_0003, ips_0004,
      whois_0001, incidents_0001, iran_0001, iran_0002]"


text \<open>What they need of other packages.\<close>

definition needed_packages :: packages where
  "needed_packages =
     \<lparr>pk_migrations = [(''auth'', ''0012_alter_user_first_name_max_length''), (''django_celery_beat'', ''0001_initial'')],
      pk_models = [(''auth'', ''group''), (''auth'', ''permission'')]\<rparr>"

text \<open>The models an app ends up with when its migrations run on their own.\<close>

definition built_schema :: schema where
  "built_schema k =
     (case apply_operations (\<lambda>j. fst j \<noteq> fst k) (fst k) (app_history (fst k) project_migrations) (\<lambda>_. None) of
        Inl _ \<Rightarrow> None | Inr s \<Rightarrow> s k)"

section \<open>The project keeps its promises\<close>

lemma successively_neighbours: "successively P (c1 @ x # y # c2) \<Longrightarrow> P x y"
  by (simp add: successively_append_iff)

lemma project_checks:
  "distinct (map mg_key project_migrations)"
  "distinct (map sd_name (concat (map (\<lambda>m. seeds_of (mg_operations m)) project_migrations)))"
  "list_all (\<lambda>m. list_all (\<lambda>k. fst k \<noteq> mg_app m) (pk_models needed_packages)) project_migrations"
  "list_all (\<lambda>m. mg_key m \<notin> set (pk_migrations needed_packages)) project_migrations"
  "list_all (\<lambda>m. successively (\<lambda>x y. mg_key x \<in> set (mg_dependencies y))
     (filter (\<lambda>x. mg_app x = mg_app m) project_migrations)) project_migrations"
  "list_all (\<lambda>m. case apply_operations (\<lambda>k. fst k \<noteq> mg_app m) (mg_app m) (app_history (mg_app m) project_migrations) (\<lambda>_. None) of
     Inl _ \<Rightarrow> False | Inr _ \<Rightarrow> True) project_migrations"
  "list_all (\<lambda>m. list_all (\<lambda>p. list_all (\<lambda>k. fst k = mg_app m \<or> k \<in> set (pk_models needed_packages) \<or>
      list_ex (\<lambda>m'. k \<in> set (creates m') \<and> mg_key m' \<in> set (required_keys project_migrations 4 (mg_key m))) project_migrations)
      (op_targets p)) (mg_operations m)) project_migrations"
  by code_simp+

interpretation ipscout: project needed_packages project_migrations built_schema
proof unfold_locales
  show "distinct (map mg_key project_migrations)"
    "distinct (map sd_name (concat (map (\<lambda>m. seeds_of (mg_operations m)) project_migrations)))"
    by (rule project_checks)+
next
  fix m n assume "m \<in> set project_migrations"
  then show "(mg_app m, n) \<notin> set (pk_models needed_packages)" using project_checks(3) unfolding list_all_iff by (metis fst_conv)
next
  fix m assume "m \<in> set project_migrations"
  then show "mg_key m \<notin> set (pk_migrations needed_packages)" using project_checks(4) by (simp add: list_all_iff)
next
  fix app c1 x y c2
  assume f: "filter (\<lambda>m. mg_app m = app) project_migrations = c1 @ x # y # c2"
  have "x \<in> set (filter (\<lambda>m. mg_app m = app) project_migrations)" unfolding f by simp
  then have "successively (\<lambda>x y. mg_key x \<in> set (mg_dependencies y)) (filter (\<lambda>m. mg_app m = app) project_migrations)"
    using project_checks(5) by (auto simp: list_all_iff)
  then show "mg_key x \<in> set (mg_dependencies y)" unfolding f by (rule successively_neighbours)
next
  fix app
  show "\<exists>s. apply_operations (\<lambda>k. fst k \<noteq> app) app (app_history app project_migrations) (\<lambda>_. None) = Inr s \<and> same_app app s built_schema"
  proof (cases "\<exists>m\<in>set project_migrations. mg_app m = app")
    case True
    then have "case apply_operations (\<lambda>k. fst k \<noteq> app) app (app_history app project_migrations) (\<lambda>_. None) of
        Inl _ \<Rightarrow> False | Inr _ \<Rightarrow> True"
      using project_checks(6) unfolding list_all_iff by blast
    then show ?thesis by (auto simp: same_app_def built_schema_def split: sum.splits)
  next
    case False
    then have "app_history app project_migrations = []" by (simp add: app_history_def)
    then show ?thesis by (simp add: same_app_def built_schema_def)
  qed
next
  fix m p k
  assume "m \<in> set project_migrations" "p \<in> set (mg_operations m)" "k \<in> set (op_targets p)" "fst k \<noteq> mg_app m"
  then show "k \<in> set (pk_models needed_packages) \<or>
      (\<exists>m'\<in>set project_migrations. k \<in> set (creates m') \<and> (mg_key m', mg_key m) \<in> (dependencies project_migrations)\<^sup>+)"
    using project_checks(7) required_keys_trancl unfolding list_all_iff list_ex_iff by blast
qed

section \<open>What is built is what is declared\<close>

definition same_columns :: "columns \<Rightarrow> columns \<Rightarrow> bool" where
  "same_columns xs ys \<longleftrightarrow> distinct (map fst xs) \<and> distinct (map fst ys) \<and> set xs = set ys"

text \<open>Equal up to the order of the columns.\<close>

definition same_model :: "model \<Rightarrow> model \<Rightarrow> bool" where
  "same_model a b \<longleftrightarrow> md_table a = md_table b \<and> md_ordering a = md_ordering b \<and>
     same_columns (md_fields a) (md_fields b) \<and> md_indexes a = md_indexes b \<and> md_constraints a = md_constraints b"

text \<open>The columns the documentation of Django gives for \<open>AbstractUser\<close>.\<close>

definition documented_user :: columns where
  "documented_user =
     [(''password'', field_of (Char_field 128)),
      (''last_login'', optional (field_of Date_time)),
      (''is_superuser'', with_default (Flag False) (field_of Boolean_field)),
      (''groups'', blank (field_of (Many_to_many (''auth'', ''group'')))),
      (''user_permissions'', blank (field_of (Many_to_many (''auth'', ''permission'')))),
      (''username'', unique_field (field_of (Char_field 150))),
      (''first_name'', blank (field_of (Char_field 150))),
      (''last_name'', blank (field_of (Char_field 150))),
      (''email'', blank (field_of (Email_field 254))),
      (''is_staff'', with_default (Flag False) (field_of Boolean_field)),
      (''is_active'', with_default (Flag True) (field_of Boolean_field)),
      (''date_joined'', with_default (Call ''timezone.now'') (field_of Date_time))]"

lemma built_is_declared:
  "list_all (\<lambda>(k, m). case built_schema k of None \<Rightarrow> False | Some m' \<Rightarrow> same_model m' m) (declared_models documented_user)"
  by code_simp

lemma creates_declared:
  "list_all (\<lambda>m. list_all (\<lambda>k. k \<in> fst ` set (declared_models []) \<and> fst k = mg_app m) (creates m)) project_migrations"
  by code_simp

lemma same_columns_trans: "same_columns a b \<Longrightarrow> same_columns b c \<Longrightarrow> same_columns a c"
  by (simp add: same_columns_def)

lemma user_class_columns:
  assumes "same_columns abstract_user documented_user"
  shows "same_model m (user_class documented_user) \<Longrightarrow> same_model m (user_class abstract_user)"
  using assms by (force simp: same_model_def user_class_def declared_def same_columns_def)

lemma declared_built:
  assumes "same_columns abstract_user documented_user" "map_of (declared_models abstract_user) k = Some m"
  shows "\<exists>m'. built_schema k = Some m' \<and> same_model m' m"
proof -
  obtain ms where ms: "declared_models u = (auth_user_model, user_class u) # ms" for u
    by (simp add: declared_models_def)
  have built: "\<exists>m'. built_schema k = Some m' \<and> same_model m' m" if "(k, m) \<in> set (declared_models documented_user)" for k m
    using built_is_declared that by (auto simp: list_all_iff split: option.splits)
  from assms(2) consider "k = auth_user_model" "m = user_class abstract_user" | "(k, m) \<in> set ms"
    by (auto simp: ms split: if_splits dest: map_of_SomeD)
  then show ?thesis
  proof cases
    case 1
    then show ?thesis using built[of auth_user_model "user_class documented_user"] user_class_columns[OF assms(1)] by (auto simp: ms)
  next
    case 2
    then show ?thesis using built[of k m] by (simp add: ms)
  qed
qed

lemma declared_keys:
  "fst ` set (declared_models u) = fst ` set (declared_models [])"
  "list_all (\<lambda>k. list_ex (\<lambda>m. mg_app m = fst k) project_migrations) (map fst (declared_models []))"
  "list_all (\<lambda>sd. list_ex (\<lambda>m. sd \<in> set (seeds_of (mg_operations m))) project_migrations) seeds"
  by (simp add: declared_models_def) code_simp+

section \<open>Properties\<close>


text \<open>The order in which the apps are named in the settings, with the history of an app in one go where it can be.\<close>

definition settings_plan :: "migration list" where
  "settings_plan = [ips_0001, ips_0002, servers_0001, ips_0003, users_0001, logs_0001, incidents_0001, iran_0001, iran_0002,
     whois_0001, logs_0002, ips_0004]"



section \<open>Rows and columns\<close>

text \<open>What a column takes, as PostgreSQL and the field classes of Django decide it.\<close>

datatype cell = Null_cell | Text_cell string | Int_cell int | Float_cell string | Time_cell time | Key_cell pk

fun type_accepts :: "field_type \<Rightarrow> cell \<Rightarrow> bool" where
  "type_accepts (Char_field n) (Text_cell s) = (length s \<le> n \<and> nul_free s)"
| "type_accepts Text_field (Text_cell s) = nul_free s"
| "type_accepts Positive_small (Int_cell i) = (0 \<le> i \<and> i < 2 ^ 15)"
| "type_accepts Positive_integer (Int_cell i) = (0 \<le> i \<and> i < 2 ^ 31)"
| "type_accepts Positive_big (Int_cell i) = (0 \<le> i \<and> i < 2 ^ 63)"
| "type_accepts Big_integer (Int_cell i) = (- (2 ^ 63) \<le> i \<and> i < 2 ^ 63)"
| "type_accepts Float_field (Float_cell _) = True"
| "type_accepts Date_time (Time_cell _) = True"
| "type_accepts (Foreign_key _ _ _) (Key_cell _) = True"
| "type_accepts Big_auto (Key_cell _) = True"
| "type_accepts _ _ = False"

definition field_accepts :: "field \<Rightarrow> cell \<Rightarrow> bool" where
  "field_accepts f c = (if c = Null_cell then fd_null f else type_accepts (fd_type f) c)"

definition row_fits :: "model \<Rightarrow> (string \<times> cell) list \<Rightarrow> bool" where
  "row_fits m cells \<longleftrightarrow>
     list_all (\<lambda>(name, f). case map_of cells name of Some c \<Rightarrow> field_accepts f c | None \<Rightarrow> fd_type f = Big_auto) (md_fields m)"

definition event_cells :: "event \<Rightarrow> (string \<times> cell) list" where
  "event_cells e =
     [(''server'', Key_cell (ev_server e)), (''log_source'', Key_cell (ev_log_source e)), (''ip'', Key_cell (ev_ip e)),
      (''timestamp'', Time_cell (ev_timestamp e)), (''host'', Text_cell (ev_host e)), (''method'', Text_cell (ev_method e)),
      (''uri'', Text_cell (ev_uri e)), (''status'', Int_cell (ev_status e)), (''bytes'', Int_cell (ev_bytes e)),
      (''request_time'', (case ev_request_time e of None \<Rightarrow> Null_cell | Some t \<Rightarrow> Float_cell t)),
      (''user_agent'', Text_cell (ev_user_agent e)), (''referer'', Text_cell (ev_referer e)),
      (''raw_line'', Text_cell (ev_raw_line e)), (''created_at'', Time_cell (ev_created_at e))]"

text \<open>C37: The columns the model of an event declares take the event the reader builds from a line, whatever
  the line holds, exactly when its byte count fits 63 bits and no text of it has a NUL: the cuts the
  reader makes are those of the columns, and the status of three digits always fits.\<close>

theorem event_columns_fit:
  assumes "compiled_pattern f = Inr pattern" "parse_line pattern line = Inr p"
  shows "row_fits request_event_class (event_cells (event_of server source ip now p)) \<longleftrightarrow>
    storable_event (event_of server source ip now p)"
proof -
  have "auto_field ''incidents'' = Big_auto" by code_simp
  moreover have "0 \<le> pl_status p" "pl_status p < 32768" using parsed_status_small[OF assms] by simp_all
  ultimately show ?thesis
    by (auto simp: row_fits_def request_event_class_def declared_def event_cells_def event_of_def field_accepts_def
        storable_event_def blank_def optional_def with_default_def field_of_def split: option.splits)
qed


lemma tail_line_parses:
  "case compiled_pattern tail_format of Inl _ \<Rightarrow> False
   | Inr q \<Rightarrow> (case parse_line q tail_line of Inl _ \<Rightarrow> False | Inr p \<Rightarrow> storable_line p \<and> pl_status p = 503)"
  by code_simp

theorem event_columns_fit_witness:
  "\<exists>q p. compiled_pattern tail_format = Inr q \<and> parse_line q tail_line = Inr p \<and> pl_status p = 503 \<and>
     row_fits request_event_class (event_cells (event_of 1 1 1 0 p))"
proof -
  obtain q p where q: "compiled_pattern tail_format = Inr q" "parse_line q tail_line = Inr p" "storable_line p" "pl_status p = 503"
    using tail_line_parses by (auto split: sum.splits)
  then show ?thesis using event_columns_fit[OF q(1,2), of 1 1 1 0] by (intro exI[of _ q] exI[of _ p]) simp
qed

end
