(* ===== verification/Urls.thy ===== *)
theory Urls
  imports Site
begin

text \<open>
  The URL tables of the applications as they are written (\<open>urls.py\<close> of every application under the prefixes
  of \<open>config/urls.py\<close>), resolving a path to a view and reversing a name to a path. Login, logout, the
  admin and the REST interface are views of other packages or theories.
\<close>

section \<open>Patterns\<close>

text \<open>A pattern is text with places for a primary key; below the prefix of another package, anything.\<close>

datatype url_part = Fixed char | Int_pk | Anything

function url_parts :: "string \<Rightarrow> url_part list" where
  "url_parts [] = []"
| "url_parts (c # cs) =
     (if starts_with ''<int:pk>'' (c # cs) then Int_pk # url_parts (drop 7 cs) else Fixed c # url_parts cs)"
  by pat_completeness auto
termination by (relation "measure length") auto

fun url_match :: "url_part list \<Rightarrow> string \<Rightarrow> nat list option" where
  "url_match [] s = (if s = [] then Some [] else None)"
| "url_match (Fixed c # ps) s = (case s of [] \<Rightarrow> None | x # xs \<Rightarrow> if x = c then url_match ps xs else None)"
| "url_match (Int_pk # ps) s =
     (let d = takeWhile ascii_digit s
      in if d = [] then None else map_option (Cons (digits_val d)) (url_match ps (dropWhile ascii_digit s)))"
| "url_match (Anything # ps) s = Some []"

fun url_build :: "url_part list \<Rightarrow> nat list \<Rightarrow> string option" where
  "url_build [] ks = (if ks = [] then Some [] else None)"
| "url_build (Fixed c # ps) ks = map_option (Cons c) (url_build ps ks)"
| "url_build (Int_pk # ps) ks = (case ks of [] \<Rightarrow> None | k # ks' \<Rightarrow> map_option (append (nat_str k)) (url_build ps ks'))"
| "url_build (Anything # ps) ks = None"

section \<open>Tables\<close>

datatype target = Site_route route | Package_view string

record url_entry =
  ue_parts :: "url_part list"
  ue_name :: string
  ue_view :: "nat list \<Rightarrow> target option"

type_synonym url_path = "string \<times> string \<times> (nat list \<Rightarrow> target option)"

definition plain_view :: "route \<Rightarrow> nat list \<Rightarrow> target option" where
  "plain_view r ks = (if ks = [] then Some (Site_route r) else None)"

definition pk_view :: "(pk \<Rightarrow> route) \<Rightarrow> nat list \<Rightarrow> target option" where
  "pk_view f ks = (case ks of [k] \<Rightarrow> Some (Site_route (f k)) | _ \<Rightarrow> None)"

definition package_view :: "string \<Rightarrow> nat list \<Rightarrow> target option" where
  "package_view name ks = Some (Package_view name)"

definition dashboard_urls :: "url_path list" where
  "dashboard_urls =
     [('''', ''index'', plain_view Dashboard_index),
      (''map/'', ''map'', plain_view Dashboard_map),
      (''workers/'', ''workers'', plain_view Dashboard_workers),
      (''search/'', ''search'', plain_view Dashboard_search),
      (''settings/whois/'', ''settings-whois'', plain_view Settings_whois),
      (''settings/retention/'', ''settings-retention'', plain_view Settings_retention),
      (''settings/retention/purge/'', ''settings-retention-purge'', plain_view Settings_purge),
      (''settings/geoip/'', ''settings-geoip'', plain_view Settings_geoip),
      (''settings/iran-sources/'', ''settings-iran-sources'', plain_view Settings_iran),
      (''settings/users/'', ''settings-users'', plain_view Settings_users)]"

definition users_urls :: "url_path list" where
  "users_urls =
     [(''login/'', ''login'', package_view ''LoginView''),
      (''logout/'', ''logout'', package_view ''LogoutView''),
      (''audit-log/'', ''audit-log'', plain_view Users_audit_log)]"

definition servers_urls :: "url_path list" where
  "servers_urls =
     [('''', ''list'', plain_view Servers_list),
      (''add/'', ''create'', plain_view Servers_create),
      (''<int:pk>/'', ''detail'', pk_view Servers_detail),
      (''<int:pk>/edit/'', ''update'', pk_view Servers_update),
      (''<int:pk>/delete/'', ''delete'', pk_view Servers_delete),
      (''<int:pk>/toggle/'', ''toggle-enabled'', pk_view Servers_toggle),
      (''<int:pk>/status-badge/'', ''status-badge'', pk_view Servers_badge),
      (''<int:pk>/test-connection/'', ''test-connection'', pk_view Servers_test),
      (''<int:pk>/discover-logs/'', ''discover-logs'', pk_view Servers_discover)]"

definition logs_urls :: "url_path list" where
  "logs_urls =
     [('''', ''list'', plain_view Logs_list),
      (''readers/'', ''readers'', plain_view Logs_readers),
      (''<int:pk>/toggle/'', ''toggle-enabled'', pk_view Logs_toggle),
      (''<int:pk>/poll/'', ''poll-now'', pk_view Logs_poll)]"

definition ips_urls :: "url_path list" where
  "ips_urls =
     [('''', ''list'', plain_view Ips_list),
      (''countries/'', ''countries'', plain_view Ips_countries),
      (''asns/'', ''asns'', plain_view Ips_asns),
      (''<int:pk>/'', ''detail'', pk_view Ips_detail),
      (''<int:pk>/whois-status/'', ''whois-status-cell'', pk_view Ips_whois_cell),
      (''<int:pk>/force-whois/'', ''force-whois'', pk_view Ips_force_whois),
      (''<int:pk>/iran-status/'', ''iran-status-cell'', pk_view Ips_iran_cell),
      (''<int:pk>/recalculate-iran/'', ''recalculate-iran'', pk_view Ips_recalculate)]"

definition whois_urls :: "url_path list" where
  "whois_urls =
     [('''', ''list'', plain_view Whois_list),
      (''<int:pk>/'', ''detail'', pk_view Whois_detail)]"

definition iran_urls :: "url_path list" where
  "iran_urls =
     [(''ips/'', ''iranian-ips'', plain_view Iran_ips),
      (''cidrs/'', ''cidrs'', plain_view Iran_cidrs),
      (''cidrs/add/'', ''cidr-add'', plain_view Iran_cidr_add),
      (''cidrs/<int:pk>/toggle/'', ''cidr-toggle-enabled'', pk_view Iran_cidr_toggle),
      (''changes/'', ''changes'', plain_view Iran_changes),
      (''exports/'', ''export'', plain_view Iran_export),
      (''exports/download/'', ''export-download'', plain_view Iran_download)]"

definition incidents_urls :: "url_path list" where
  "incidents_urls =
     [(''overview/'', ''overview'', plain_view Incidents_overview),
      (''ips/'', ''ip-table'', plain_view Incidents_table),
      (''timeline/'', ''timeline'', plain_view Incidents_timeline)]"

definition include_urls :: "string \<Rightarrow> string \<Rightarrow> url_path list \<Rightarrow> url_entry list" where
  "include_urls path namespace urls =
     map (\<lambda>(pattern, name, view). \<lparr>ue_parts = url_parts (path @ pattern), ue_name = namespace @ '':'' @ name, ue_view = view\<rparr>) urls"

definition delegated :: "string \<Rightarrow> string \<Rightarrow> url_entry" where
  "delegated path name = \<lparr>ue_parts = url_parts path @ [Anything], ue_name = name, ue_view = package_view name\<rparr>"

definition url_table :: "url_entry list" where
  "url_table =
     [delegated ''admin/'' ''admin''] @
     include_urls '''' ''dashboard'' dashboard_urls @
     include_urls ''accounts/'' ''users'' users_urls @
     include_urls ''servers/'' ''servers'' servers_urls @
     include_urls ''logs/'' ''logs'' logs_urls @
     include_urls ''ips/'' ''ips'' ips_urls @
     include_urls ''whois/'' ''whois'' whois_urls @
     include_urls ''iran/'' ''iran'' iran_urls @
     include_urls ''incidents/'' ''incidents'' incidents_urls @
     [delegated ''api/v1/'' ''api'']"

text \<open>The first entry that matches decides; the leading slash belongs to the root.\<close>

fun first_match :: "url_entry list \<Rightarrow> string \<Rightarrow> target option" where
  "first_match [] path = None"
| "first_match (e # es) path =
     (case url_match (ue_parts e) path of None \<Rightarrow> first_match es path | Some ks \<Rightarrow> ue_view e ks)"

text \<open>With debugging on, the debug toolbar and the uploaded files are served behind everything else.\<close>

definition debug_urls :: "url_entry list" where
  "debug_urls = [delegated ''__debug__/'' ''djdt'', delegated ''media/'' ''media'']"

definition root_urls :: "bool \<Rightarrow> url_entry list" where
  "root_urls debug = url_table @ (if debug then debug_urls else [])"

lemma root_urls_same: "first_match url_table path = Some v \<Longrightarrow> first_match (root_urls debug) path = Some v"
proof -
  have "first_match (es @ fs) path = Some v" if "first_match es path = Some v" for es fs
    using that by (induction es) (auto split: option.split option.split_asm)
  then show "first_match url_table path = Some v \<Longrightarrow> first_match (root_urls debug) path = Some v"
    by (auto simp: root_urls_def)
qed

definition resolve_url :: "string \<Rightarrow> target option" where
  "resolve_url path = (case path of c # cs \<Rightarrow> if c = CHR ''/'' then first_match url_table cs else None | [] \<Rightarrow> None)"

definition reverse_url :: "string \<Rightarrow> nat list \<Rightarrow> string option" where
  "reverse_url name ks =
     Option.bind (find (\<lambda>e. ue_name e = name) url_table) (\<lambda>e. map_option (Cons (CHR ''/'')) (url_build (ue_parts e) ks))"

fun route_args :: "route \<Rightarrow> nat list" where
  "route_args (Servers_detail k) = [k]" | "route_args (Servers_update k) = [k]" | "route_args (Servers_delete k) = [k]"
| "route_args (Servers_toggle k) = [k]" | "route_args (Servers_badge k) = [k]" | "route_args (Servers_test k) = [k]"
| "route_args (Servers_discover k) = [k]" | "route_args (Logs_toggle k) = [k]" | "route_args (Logs_poll k) = [k]"
| "route_args (Ips_detail k) = [k]" | "route_args (Ips_whois_cell k) = [k]" | "route_args (Ips_force_whois k) = [k]"
| "route_args (Ips_iran_cell k) = [k]" | "route_args (Ips_recalculate k) = [k]" | "route_args (Whois_detail k) = [k]"
| "route_args (Iran_cidr_toggle k) = [k]"
| "route_args _ = []"

text \<open>What every template is given to draw the navigation.\<close>

definition nav_context :: "(string \<times> nav_node list) list" where "nav_context = [(''nav_tree'', nav_tree)]"

section \<open>No pattern hides another: lemmas\<close>

text \<open>Whether two patterns may have a path in common, erring on the side of caution.\<close>

fun may_overlap :: "url_part list \<Rightarrow> url_part list \<Rightarrow> bool" where
  "may_overlap (Anything # _) _ = True"
| "may_overlap _ (Anything # _) = True"
| "may_overlap [] [] = True"
| "may_overlap (Fixed c # ps) (Fixed d # qs) = (c = d \<and> may_overlap ps qs)"
| "may_overlap (Int_pk # ps) (Int_pk # qs) = may_overlap ps qs"
| "may_overlap (Int_pk # _) (Fixed d # _) = ascii_digit d"
| "may_overlap (Fixed c # _) (Int_pk # _) = ascii_digit c"
| "may_overlap _ _ = False"

text \<open>A key is followed by something that cannot belong to it.\<close>

fun separated :: "url_part list \<Rightarrow> bool" where
  "separated (Int_pk # Fixed c # ps) = (\<not> ascii_digit c \<and> separated (Fixed c # ps))"
| "separated (Int_pk # ps) = (ps = [])"
| "separated (_ # ps) = separated ps"
| "separated [] = True"

lemma digits_run:
  assumes "s = [] \<or> \<not> ascii_digit (hd s)"
  shows "takeWhile ascii_digit (nat_str k @ s) = nat_str k" "dropWhile ascii_digit (nat_str k @ s) = s"
proof -
  have d: "\<And>c. c \<in> set (nat_str k) \<Longrightarrow> ascii_digit c" using nat_str_digits[of k] by (simp add: list_all_iff)
  have "takeWhile ascii_digit s = []" "dropWhile ascii_digit s = s" using assms by (cases s; simp)+
  then show "takeWhile ascii_digit (nat_str k @ s) = nat_str k" "dropWhile ascii_digit (nat_str k @ s) = s"
    using takeWhile_append2[of "nat_str k" ascii_digit s] dropWhile_append2[of "nat_str k" ascii_digit s] d by simp_all
qed

lemma build_head:
  assumes "separated (Int_pk # ps)" "url_build ps ks = Some u"
  shows "u = [] \<or> \<not> ascii_digit (hd u)"
proof (cases ps)
  case (Cons p qs)
  then show ?thesis using assms by (cases p) auto
qed (use assms in \<open>auto split: if_splits\<close>)

lemma nat_str_nonempty: "nat_str k \<noteq> []"
  using ascii_digits_nat_str[of k] by (simp add: ascii_digits_def)

lemma match_build:
  assumes "separated ps" "url_build ps ks = Some u" shows "url_match ps u = Some ks"
  using assms
proof (induction ps ks arbitrary: u rule: url_build.induct)
  case (2 c ps ks)
  then show ?case by (cases ps) auto
next
  case (3 ps ks)
  then obtain k ks' v where k: "ks = k # ks'" "url_build ps ks' = Some v" "u = nat_str k @ v" by (auto split: list.splits)
  have h: "v = [] \<or> \<not> ascii_digit (hd v)" by (rule build_head[OF 3(2) k(2)])
  have "separated ps" using 3(2) by (cases ps rule: list.exhaust; cases "hd ps") auto
  then have "url_match ps v = Some ks'" using 3(1)[OF k(1) _ k(2)] by simp
  then show ?case using k digits_run[OF h, of k] nat_str_nonempty by (simp add: Let_def)
qed (auto split: if_splits)

lemma nat_str_head: "\<exists>c cs. nat_str k = c # cs \<and> ascii_digit c"
  using nat_str_nonempty[of k] nat_str_digits[of k] by (cases "nat_str k") auto

lemma no_overlap:
  assumes "\<not> may_overlap ps qs" "separated ps" "separated qs" "url_build ps ks = Some u"
  shows "url_match qs u = None"
  using assms
proof (induction ps qs arbitrary: ks u rule: may_overlap.induct)
  case (4 c ps d qs)
  then obtain v where v: "url_build ps ks = Some v" "u = c # v" by auto
  have "separated ps" "separated qs" using 4(3,4) by (cases ps; simp)+
  then show ?case using 4 v by auto
next
  case (5 ps qs)
  then obtain k ks' v where k: "ks = k # ks'" "url_build ps ks' = Some v" "u = nat_str k @ v" by (auto split: list.splits)
  have h: "v = [] \<or> \<not> ascii_digit (hd v)" by (rule build_head[OF 5(3) k(2)])
  have "separated ps" using 5(3) by (cases ps rule: list.exhaust; cases "hd ps") auto
  moreover have "separated qs" using 5(4) by (cases qs rule: list.exhaust; cases "hd qs") auto
  ultimately have "url_match qs v = None" using 5(1,2) k(2) by simp
  then show ?case using k digits_run[OF h, of k] by (simp add: Let_def)
next
  case (6 ps d qs)
  then obtain k v where "u = nat_str k @ v" by (auto split: list.splits)
  then show ?case using nat_str_head[of k] 6(1) by auto
next
  case (7 c ps qs)
  then show ?case by (auto simp: Let_def)
qed (auto split: list.splits if_splits simp: Let_def nat_str_nonempty)

lemma table_separated: "list_all (\<lambda>e. separated (ue_parts e)) url_table"
  by code_simp

lemma table_disjoint: "sorted_wrt (\<lambda>e f. \<not> may_overlap (ue_parts f) (ue_parts e)) url_table"
  by code_simp

lemma first_match_entry:
  assumes "sorted_wrt (\<lambda>e f. \<not> may_overlap (ue_parts f) (ue_parts e)) es" "list_all (\<lambda>e. separated (ue_parts e)) es"
    and "e \<in> set es" "url_build (ue_parts e) ks = Some u"
  shows "first_match es u = ue_view e ks"
  using assms(1-3)
proof (induction es)
  case (Cons f es)
  show ?case
  proof (cases "f = e")
    case True
    then show ?thesis using match_build[OF _ assms(4)] Cons.prems(2) by simp
  next
    case False
    then have "\<not> may_overlap (ue_parts e) (ue_parts f)" "separated (ue_parts e)" "separated (ue_parts f)"
      using Cons.prems by (auto simp: list_all_iff)
    then have "url_match (ue_parts f) u = None" using assms(4) by (rule no_overlap)
    then show ?thesis using Cons False by simp
  qed
qed simp

definition all_routes :: "pk \<Rightarrow> route list" where
  "all_routes k =
     [Dashboard_index, Dashboard_map, Dashboard_workers, Dashboard_search, Settings_whois, Settings_retention, Settings_purge,
      Settings_geoip, Settings_iran, Settings_users, Users_audit_log, Servers_list, Servers_create, Servers_detail k,
      Servers_update k, Servers_delete k, Servers_toggle k, Servers_badge k, Servers_test k, Servers_discover k, Logs_list,
      Logs_readers, Logs_toggle k, Logs_poll k, Ips_list, Ips_countries, Ips_asns, Ips_detail k, Ips_whois_cell k,
      Ips_force_whois k, Ips_iran_cell k, Ips_recalculate k, Whois_list, Whois_detail k, Iran_ips, Iran_cidrs, Iran_cidr_add,
      Iran_cidr_toggle k, Iran_changes, Iran_export, Iran_download, Incidents_overview, Incidents_table, Incidents_timeline]"

definition entry_of :: "url_entry list \<Rightarrow> route \<Rightarrow> bool" where
  "entry_of t r =
     (case find (\<lambda>e. ue_name e = url_name r) t of
        None \<Rightarrow> False
      | Some e \<Rightarrow> ue_view e (route_args r) = Some (Site_route r) \<and> url_build (ue_parts e) (route_args r) \<noteq> None)"

lemma routes_listed: "r \<in> set (all_routes (case route_args r of k # _ \<Rightarrow> k | [] \<Rightarrow> 0))"
  by (cases r) (simp_all add: all_routes_def)

lemma entries_listed: "let t = url_table in list_all (entry_of t) (all_routes k)"
  by code_simp

lemma route_entry:
  "\<exists>e ks. find (\<lambda>e. ue_name e = url_name r) url_table = Some e \<and> e \<in> set url_table \<and>
     ue_view e (route_args r) = Some (Site_route r) \<and> url_build (ue_parts e) (route_args r) = Some ks"
proof -
  have "entry_of url_table r"
    using entries_listed[unfolded Let_def] routes_listed[of r] by (metis list_all_iff)
  then show ?thesis by (auto simp: entry_of_def find_Some_iff split: option.splits)
qed

text \<open>The links of the navigation, and the pages a search leads to.\<close>

lemma navigation_links:
  "list_all (\<lambda>n. list_all (\<lambda>i. case i of Nav_item _ (Some name) \<Rightarrow> reverse_url name [] \<noteq> None | _ \<Rightarrow> True) (node_items n)) (snd (hd nav_context))"
  by code_simp

lemma search_links:
  "reverse_url ''ips:detail'' [k] = Some (search_url (Ip_page k))"
  "reverse_url ''servers:detail'' [k] = Some (search_url (Server_page k))"
  by code_simp+

section \<open>Properties\<close>

text \<open>C16: Every page of the site has a path, and that path leads back to the page with the keys it was built for:
  no pattern of the tables is hidden by an earlier one, and no two pages share a path.\<close>

theorem urls_roundtrip:
  "\<exists>path. reverse_url (url_name r) (route_args r) = Some path \<and> resolve_url path = Some (Site_route r)"
proof -
  obtain e u where e: "find (\<lambda>e. ue_name e = url_name r) url_table = Some e" "e \<in> set url_table"
    "ue_view e (route_args r) = Some (Site_route r)" "url_build (ue_parts e) (route_args r) = Some u"
    using route_entry by blast
  have "first_match url_table u = Some (Site_route r)"
    using first_match_entry[OF table_disjoint table_separated e(2,4)] e(3) by simp
  then show ?thesis using e(1,4) by (simp add: reverse_url_def resolve_url_def)
qed

end
