(* ===== verification/Admin.thy ===== *)
theory Admin
  imports Config Schema Urls
begin

text \<open>
  The registrations of the admin site (\<open>admin.py\<close> of every application) over the declared models, and the installed
  applications of \<open>config/settings/base.py\<close>. How the admin works is Django's; what a registration names and
  which actions it rules out is the application's. \<open>UserAdmin\<close> belongs to Django and is left out.
\<close>

section \<open>Settings\<close>

definition installed_apps :: "string list" where
  "installed_apps =
     [''django.contrib.admin'', ''django.contrib.auth'', ''django.contrib.contenttypes'', ''django.contrib.sessions'',
      ''django.contrib.messages'', ''django.contrib.staticfiles'', ''django.contrib.humanize'', ''django.contrib.postgres'',
      ''rest_framework'', ''rest_framework_simplejwt'', ''rest_framework_simplejwt.token_blacklist'', ''django_filters'',
      ''corsheaders'', ''drf_spectacular'', ''django_celery_beat'', ''django_celery_results'',
      ''apps.users'', ''apps.dashboard'', ''apps.servers'', ''apps.logs'', ''apps.ips'', ''apps.whois'', ''apps.geo'',
      ''apps.incidents'', ''apps.iran'', ''apps.api'']"

section \<open>Registrations\<close>

record model_admin =
  ma_model :: model_key
  ma_list_display :: "string list"
  ma_list_filter :: "string list"
  ma_search_fields :: "string list"
  ma_readonly_fields :: "string list"
  ma_date_hierarchy :: "string option"
  ma_add_permission :: bool
  ma_change_permission :: bool
  ma_delete_permission :: bool

definition model_admin_of :: "model_key \<Rightarrow> string list \<Rightarrow> model_admin" where
  "model_admin_of k display =
     \<lparr>ma_model = k, ma_list_display = display, ma_list_filter = [], ma_search_fields = [], ma_readonly_fields = [],
      ma_date_hierarchy = None, ma_add_permission = True, ma_change_permission = True, ma_delete_permission = True\<rparr>"

text \<open>\<open>[f.name for f in Model._meta.fields]\<close>.\<close>

definition meta_fields :: "model \<Rightarrow> string list" where
  "meta_fields m = map fst (filter (\<lambda>(_, f). case fd_type f of Many_to_many _ \<Rightarrow> False | _ \<Rightarrow> True) (md_fields m))"

definition read_only :: "model \<Rightarrow> model_admin \<Rightarrow> model_admin" where
  "read_only m ma = ma\<lparr>ma_readonly_fields := meta_fields m, ma_add_permission := False, ma_change_permission := False\<rparr>"

definition request_event_admin :: model_admin where
  "request_event_admin = read_only request_event_class
     ((model_admin_of (''incidents'', ''requestevent'') [''timestamp'', ''ip'', ''server'', ''status'', ''host'', ''method'', ''uri''])
      \<lparr>ma_list_filter := [''status'', ''server''], ma_search_fields := [''ip__address'', ''host'', ''uri''],
       ma_date_hierarchy := Some ''timestamp''\<rparr>)"

definition ip_address_admin :: model_admin where
  "ip_address_admin =
     (model_admin_of (''ips'', ''ipaddress'')
        [''address'', ''version'', ''is_iran'', ''country_code'', ''asn'', ''whois_status'', ''first_seen_at'', ''last_seen_at''])
     \<lparr>ma_list_filter := [''version'', ''is_iran'', ''whois_status''], ma_search_fields := [''address'', ''organization'', ''network''],
      ma_readonly_fields := [''first_seen_at'', ''last_seen_at'', ''created_at'', ''updated_at'']\<rparr>"

definition country_network_admin :: model_admin where
  "country_network_admin =
     (model_admin_of (''iran'', ''countrynetwork'')
        [''country_code'', ''cidr'', ''network'', ''source'', ''enabled'', ''last_verified_at''])
     \<lparr>ma_list_filter := [''country_code'', ''source'', ''enabled''], ma_search_fields := [''cidr'', ''network''],
      ma_readonly_fields := [''prefix_length'', ''last_verified_at'', ''created_at'', ''updated_at'']\<rparr>"

definition country_history_admin :: model_admin where
  "country_history_admin = read_only country_history_class
     ((model_admin_of (''iran'', ''ipcountryhistory'')
         [''ip'', ''country_code'', ''source'', ''cidr'', ''valid_from'', ''valid_until'', ''confidence''])
      \<lparr>ma_list_filter := [''country_code'', ''source''], ma_search_fields := [''ip__address''],
       ma_date_hierarchy := Some ''valid_from''\<rparr>)"

definition log_source_admin :: model_admin where
  "log_source_admin =
     (model_admin_of (''logs'', ''logsource'')
        [''server'', ''path'', ''format'', ''enabled'', ''reader_status'', ''last_read_at'', ''last_event_at''])
     \<lparr>ma_list_filter := [''enabled'', ''server''], ma_search_fields := [''path'', ''name'', ''server__name''],
      ma_readonly_fields := [''inode'', ''byte_offset'', ''last_read_at'', ''last_event_at'', ''last_error'', ''created_at'', ''updated_at'']\<rparr>"

definition server_admin :: model_admin where
  "server_admin =
     (model_admin_of (''servers'', ''server'')
        [''name'', ''hostname'', ''ssh_port'', ''ssh_auth_type'', ''enabled'', ''connection_status'', ''last_connected_at''])
     \<lparr>ma_list_filter := [''enabled'', ''ssh_auth_type''], ma_search_fields := [''name'', ''hostname'', ''ip_address''],
      ma_readonly_fields := [''last_connected_at'', ''last_error'', ''created_at'', ''updated_at'']\<rparr>"

definition audit_entry_admin :: model_admin where
  "audit_entry_admin =
     (model_admin_of (''users'', ''auditlogentry'')
        [''created_at'', ''user'', ''action'', ''object_type'', ''object_repr'', ''result'', ''ip_address''])
     \<lparr>ma_list_filter := [''result'', ''action'', ''object_type''],
      ma_search_fields := [''action'', ''object_type'', ''object_repr'', ''user__username'', ''ip_address''],
      ma_date_hierarchy := Some ''created_at'', ma_add_permission := False, ma_change_permission := False,
      ma_delete_permission := False\<rparr>"

definition whois_record_admin :: model_admin where
  "whois_record_admin = read_only whois_record_class
     ((model_admin_of (''whois'', ''whoisrecord'') [''ip'', ''queried_at'', ''whois_server'', ''response_hash''])
      \<lparr>ma_search_fields := [''ip__address'', ''whois_server''], ma_date_hierarchy := Some ''queried_at''\<rparr>)"

definition registered_admins :: "model_admin list" where
  "registered_admins =
     [request_event_admin, ip_address_admin, country_network_admin, country_history_admin, log_source_admin, server_admin,
      audit_entry_admin, whois_record_admin]"

section \<open>What a registration allows\<close>

datatype admin_action = View_rows | Add_row | Change_row | Delete_row

text \<open>Django asks the registration, which by default asks for a permission of the user.\<close>

definition admin_allows :: "(admin_action \<Rightarrow> model_key \<Rightarrow> bool) \<Rightarrow> model_admin \<Rightarrow> admin_action \<Rightarrow> bool" where
  "admin_allows perms ma act \<longleftrightarrow>
     (case act of View_rows \<Rightarrow> True | Add_row \<Rightarrow> ma_add_permission ma | Change_row \<Rightarrow> ma_change_permission ma
      | Delete_row \<Rightarrow> ma_delete_permission ma) \<and> perms act (ma_model ma)"

section \<open>What a registration names\<close>

function split_lookup :: "string \<Rightarrow> string list" where
  "split_lookup s =
     (case s of
        [] \<Rightarrow> [[]]
      | c # cs \<Rightarrow>
          if starts_with ''__'' s then [] # split_lookup (drop 2 s)
          else (case split_lookup cs of p # ps \<Rightarrow> (c # p) # ps | [] \<Rightarrow> [[c]]))"
  by pat_completeness auto
termination by (relation "measure length") auto

text \<open>A column of the model, or through a foreign key one of another model.\<close>

fun lookup_column :: "(model_key \<times> model) list \<Rightarrow> model_key \<Rightarrow> string list \<Rightarrow> field option" where
  "lookup_column ms k [] = None"
| "lookup_column ms k (c # cs) =
     Option.bind (map_of ms k) (\<lambda>m. Option.bind (map_of (md_fields m) c) (\<lambda>f.
       if cs = [] then Some f
       else (case fd_type f of Foreign_key k' _ _ \<Rightarrow> lookup_column ms k' cs | _ \<Rightarrow> None)))"

text \<open>The properties of the model classes.\<close>

definition model_properties :: "model_key \<Rightarrow> string list" where
  "model_properties k =
     (if k = (''servers'', ''server'') then [''connection_status'']
      else if k = (''logs'', ''logsource'') then [''reader_status''] else [])"

definition names_column :: "(model_key \<times> model) list \<Rightarrow> model_key \<Rightarrow> string \<Rightarrow> bool" where
  "names_column ms k s \<longleftrightarrow> lookup_column ms k (split_lookup s) \<noteq> None"

definition searchable :: "(model_key \<times> model) list \<Rightarrow> model_key \<Rightarrow> string \<Rightarrow> bool" where
  "searchable ms k s \<longleftrightarrow>
     (case lookup_column ms k (split_lookup s) of
        None \<Rightarrow> False
      | Some f \<Rightarrow> (case fd_type f of Char_field _ \<Rightarrow> True | Text_field \<Rightarrow> True | Generic_ip \<Rightarrow> True | Cidr_field \<Rightarrow> True | _ \<Rightarrow> False))"

definition admin_check :: "(model_key \<times> model) list \<Rightarrow> model_admin \<Rightarrow> bool" where
  "admin_check ms ma \<longleftrightarrow>
     list_all (\<lambda>s. names_column ms (ma_model ma) s \<or> s \<in> set (model_properties (ma_model ma)))
       (ma_list_display ma @ ma_readonly_fields ma) \<and>
     list_all (names_column ms (ma_model ma)) (ma_list_filter ma) \<and>
     list_all (searchable ms (ma_model ma)) (ma_search_fields ma) \<and>
     (case ma_date_hierarchy ma of None \<Rightarrow> True
      | Some s \<Rightarrow> (case lookup_column ms (ma_model ma) (split_lookup s) of Some f \<Rightarrow> fd_type f = Date_time | None \<Rightarrow> False))"

section \<open>Facts\<close>

lemma admins_name_columns: "list_all (admin_check (declared_models documented_user)) registered_admins"
  by code_simp

text \<open>The audit log can only be viewed, whatever a user may do; events, records and history cannot be
  written by hand either.\<close>

lemma audit_log_only_viewed: "admin_allows perms audit_entry_admin act \<Longrightarrow> act = View_rows"
  by (cases act) (simp_all add: admin_allows_def audit_entry_admin_def)

lemma recorded_rows_not_written:
  assumes "ma \<in> {request_event_admin, country_history_admin, whois_record_admin}" "admin_allows perms ma act"
  shows "act = View_rows \<or> act = Delete_row"
  using assms by (cases act)
    (auto simp: admin_allows_def request_event_admin_def country_history_admin_def whois_record_admin_def read_only_def)

text \<open>Every application with migrations, an admin or pages is installed, and the middleware that remembers who
  acts runs after the one that finds out.\<close>

lemma applications_installed:
  "list_all (\<lambda>c. ac_name c \<in> set installed_apps) app_configs"
  "list_all (\<lambda>m. list_ex (\<lambda>c. ac_label c = mg_app m) app_configs) project_migrations"
  "list_all (\<lambda>ma. list_ex (\<lambda>c. ac_label c = fst (ma_model ma)) app_configs) registered_admins"
  by code_simp+

lemma audit_after_authentication:
  "\<exists>before between. middleware = before @ ''django.contrib.auth.middleware.AuthenticationMiddleware'' # between @
     [''apps.users.middleware.AuditLogMiddleware'']"
  by (intro exI[of _ "take 5 middleware"] exI[of _ "take 2 (drop 6 middleware)"]) (simp add: middleware_def)

end
