(* ===== verification/Framework.thy ===== *)
theory Framework
  imports Admin "HOL-Library.AList"
begin

text \<open>
  The settings modules as the namespaces Django, Celery and \<open>logging\<close> read (\<open>config/settings\<close>): names bound to nested
  Python values, the values that come from the environment being those of \<open>Config\<close>. On them: what the development,
  production and test modules change, which module a process loads (\<open>manage.py\<close>, \<open>config/celery.py\<close>,
  \<open>config/wsgi.py\<close>, \<open>config/asgi.py\<close>), and the logging configuration with the part of \<open>logging.config.dictConfig\<close>
  that can refuse it.
\<close>

section \<open>Values\<close>

datatype setting = Flag bool | Num int | Text string | Span time | Ratio nat nat | Items "setting list" | Dict "(string \<times> setting) list"

type_synonym names = "(string \<times> setting) list"

definition texts :: "string list \<Rightarrow> setting" where "texts ss = Items (map Text ss)"

definition setting_texts :: "setting \<Rightarrow> string list" where
  "setting_texts s = (case s of Items xs \<Rightarrow> concat (map (\<lambda>x. case x of Text t \<Rightarrow> [t] | _ \<Rightarrow> []) xs) | _ \<Rightarrow> [])"

text \<open>\<open>d[k1][k2]\<close>, and the assignment to it: every dictionary on the way has to be there.\<close>

fun setting_at :: "string list \<Rightarrow> setting \<Rightarrow> setting option" where
  "setting_at [] s = Some s"
| "setting_at (k # ks) (Dict d) = Option.bind (map_of d k) (setting_at ks)"
| "setting_at (k # ks) _ = None"

fun put_at :: "string list \<Rightarrow> setting \<Rightarrow> setting \<Rightarrow> setting option" where
  "put_at [] v s = Some v"
| "put_at [k] v (Dict d) = Some (Dict (AList.update k v d))"
| "put_at (k # ks) v (Dict d) =
     Option.bind (map_of d k) (\<lambda>s. map_option (\<lambda>s'. Dict (AList.update k s' d)) (put_at ks v s))"
| "put_at (k # ks) v _ = None"

definition bind_name :: "string \<Rightarrow> setting \<Rightarrow> names \<Rightarrow> names" where
  "bind_name = AList.update"

definition bind_names :: "names \<Rightarrow> names \<Rightarrow> names" where
  "bind_names new ns = foldl (\<lambda>acc (k, v). bind_name k v acc) ns new"

definition name_texts :: "string \<Rightarrow> names \<Rightarrow> string list" where
  "name_texts k ns = (case map_of ns k of Some s \<Rightarrow> setting_texts s | None \<Rightarrow> [])"

section \<open>The base module\<close>

definition core_names :: "config \<Rightarrow> names" where
  "core_names c =
     [(''SECRET_KEY'', Text (cf_secret_key c)), (''DEBUG'', Flag (cf_debug c)), (''ALLOWED_HOSTS'', texts (cf_allowed_hosts c))]"

definition wiring_names :: "string \<Rightarrow> names" where
  "wiring_names base =
     [(''ROOT_URLCONF'', Text ''config.urls''),
      (''TEMPLATES'', Items [Dict
         [(''BACKEND'', Text ''django.template.backends.django.DjangoTemplates''),
          (''DIRS'', texts [base @ ''/templates'']), (''APP_DIRS'', Flag True),
          (''OPTIONS'', Dict [(''context_processors'', texts
             [''django.template.context_processors.debug'', ''django.template.context_processors.request'',
              ''django.contrib.auth.context_processors.auth'', ''django.contrib.messages.context_processors.messages'',
              ''apps.dashboard.context_processors.nav_context''])])]]),
      (''WSGI_APPLICATION'', Text ''config.wsgi.application''),
      (''ASGI_APPLICATION'', Text ''config.asgi.application'')]"

definition database_dict :: "database \<Rightarrow> names" where
  "database_dict d =
     [(''ENGINE'', Text ''django.db.backends.postgresql''), (''NAME'', Text (db_name d)), (''USER'', Text (db_user d)),
      (''PASSWORD'', Text (db_password d)), (''HOST'', Text (db_host d)), (''PORT'', Text (db_port d))]"

definition database_names :: "config \<Rightarrow> names" where
  "database_names c =
     [(''DATABASES'', Dict [(''default'', Dict (database_dict (cf_database c) @
         [(''CONN_MAX_AGE'', Num (cf_conn_max_age c)), (''ATOMIC_REQUESTS'', Flag False)]))])]"

definition auth_names :: names where
  "auth_names =
     (let validator = (\<lambda>name. ''django.contrib.auth.password_validation.'' @ name) in
     [(''AUTH_PASSWORD_VALIDATORS'', Items
        [Dict [(''NAME'', Text (validator ''UserAttributeSimilarityValidator''))],
         Dict [(''NAME'', Text (validator ''MinimumLengthValidator'')), (''OPTIONS'', Dict [(''min_length'', Num 12)])],
         Dict [(''NAME'', Text (validator ''CommonPasswordValidator''))],
         Dict [(''NAME'', Text (validator ''NumericPasswordValidator''))]]),
      (''LOGIN_URL'', Text ''users:login''), (''LOGIN_REDIRECT_URL'', Text ''dashboard:index''),
      (''LOGOUT_REDIRECT_URL'', Text ''users:login'')])"

definition locale_names :: "config \<Rightarrow> names" where
  "locale_names c =
     [(''LANGUAGE_CODE'', Text ''en-us''), (''TIME_ZONE'', Text (cf_time_zone c)), (''USE_I18N'', Flag True), (''USE_TZ'', Flag True)]"

definition static_names :: "string \<Rightarrow> names" where
  "static_names base =
     [(''STATIC_URL'', Text ''static/''), (''STATICFILES_DIRS'', texts [base @ ''/static'']), (''STATIC_ROOT'', Text (base @ ''/staticfiles'')),
      (''MEDIA_URL'', Text ''media/''), (''MEDIA_ROOT'', Text (base @ ''/media''))]"

definition redis_names :: "config \<Rightarrow> names" where
  "redis_names c =
     [(''REDIS_URL'', Text (cf_redis_url c)),
      (''CACHES'', Dict [(''default'', Dict
         [(''BACKEND'', Text ''django.core.cache.backends.redis.RedisCache''), (''LOCATION'', Text (cf_redis_url c))])])]"

definition celery_names :: "config \<Rightarrow> names" where
  "celery_names c =
     [(''CELERY_BROKER_URL'', Text (cf_redis_url c)), (''CELERY_RESULT_BACKEND'', Text ''django-db''),
      (''CELERY_RESULT_EXTENDED'', Flag True), (''CELERY_TASK_TRACK_STARTED'', Flag True),
      (''CELERY_ACCEPT_CONTENT'', texts [''json'']), (''CELERY_TASK_SERIALIZER'', Text ''json''),
      (''CELERY_RESULT_SERIALIZER'', Text ''json''), (''CELERY_TIMEZONE'', Text (cf_time_zone c)),
      (''CELERY_TASK_DEFAULT_QUEUE'', Text ''maintenance''), (''IPSCOUT_TASK_QUEUE_NAMES'', texts task_queue_names),
      (''CELERY_WORKER_PREFETCH_MULTIPLIER'', Num (cf_prefetch_multiplier c)), (''CELERY_TASK_ACKS_LATE'', Flag True),
      (''CELERY_TASK_REJECT_ON_WORKER_LOST'', Flag True), (''WHOIS_QUEUE_CONCURRENCY'', Num (cf_whois_concurrency c))]"

definition rest_framework :: names where
  "rest_framework =
     [(''DEFAULT_AUTHENTICATION_CLASSES'', texts
         [''rest_framework_simplejwt.authentication.JWTAuthentication'', ''rest_framework.authentication.SessionAuthentication'']),
      (''DEFAULT_PERMISSION_CLASSES'', texts [''rest_framework.permissions.IsAuthenticated'']),
      (''DEFAULT_FILTER_BACKENDS'', texts
         [''django_filters.rest_framework.DjangoFilterBackend'', ''rest_framework.filters.SearchFilter'',
          ''rest_framework.filters.OrderingFilter'']),
      (''DEFAULT_PAGINATION_CLASS'', Text ''rest_framework.pagination.PageNumberPagination''), (''PAGE_SIZE'', Num 50),
      (''DEFAULT_SCHEMA_CLASS'', Text ''drf_spectacular.openapi.AutoSchema''),
      (''DEFAULT_THROTTLE_CLASSES'', texts [''rest_framework.throttling.UserRateThrottle'']),
      (''DEFAULT_THROTTLE_RATES'', Dict [(''user'', Text ''300/min'')])]"

definition simple_jwt :: "config \<Rightarrow> names" where
  "simple_jwt c =
     [(''ACCESS_TOKEN_LIFETIME'', Span (cf_access_token c)), (''REFRESH_TOKEN_LIFETIME'', Span (cf_refresh_token c)),
      (''ROTATE_REFRESH_TOKENS'', Flag True), (''BLACKLIST_AFTER_ROTATION'', Flag True), (''AUTH_HEADER_TYPES'', texts [''Bearer''])]"

definition spectacular_settings :: names where
  "spectacular_settings =
     [(''TITLE'', Text ''IP Scout API''), (''DESCRIPTION'', Text ''503 / IP intelligence platform API.''),
      (''VERSION'', Text ''1.0.0''), (''SERVE_INCLUDE_SCHEMA'', Flag False)]"

definition security_names :: "config \<Rightarrow> names" where
  "security_names c =
     [(''CORS_ALLOWED_ORIGINS'', texts (cf_cors_origins c)), (''CSRF_COOKIE_HTTPONLY'', Flag False),
      (''SESSION_COOKIE_HTTPONLY'', Flag True), (''X_FRAME_OPTIONS'', Text ''DENY''),
      (''SECURE_CONTENT_TYPE_NOSNIFF'', Flag True), (''SESSION_COOKIE_AGE'', Num (cf_session_age c))]"

definition domain_names :: "settings \<Rightarrow> names" where
  "domain_names s =
     [(''WHOIS_BINARY'', Text (st_whois_binary s)), (''WHOIS_TIMEOUT'', Num (st_whois_timeout s)),
      (''WHOIS_CACHE_DAYS'', Num (st_whois_cache_days s)), (''REQUEST_RETENTION_DAYS'', Num (st_request_retention_days s)),
      (''WHOIS_RETENTION_DAYS'', Num (st_whois_retention_days s)), (''IP_RETENTION_DAYS'', Num (st_ip_retention_days s)),
      (''INCIDENT_RETENTION_DAYS'', Num (st_incident_retention_days s)), (''IRAN_CIDR_SOURCE'', Text (st_iran_cidr_source s)),
      (''IRAN_RIPE_STATS_URL'', Text (st_iran_ripe_stats_url s)), (''IRAN_RIPE_STATS_TIMEOUT'', Num (st_iran_ripe_stats_timeout s)),
      (''GEOIP_PROVIDER'', Text (st_geoip_provider s)), (''GEOIP_DATABASE_PATH'', Text (st_geoip_database_path s)),
      (''SSH_CREDENTIAL_ENCRYPTION_KEY'', Text (st_ssh_credential_encryption_key s)),
      (''SSH_CONNECT_TIMEOUT'', Num (st_ssh_connect_timeout s))]"

definition logger_entry :: "string \<Rightarrow> setting" where
  "logger_entry level = Dict [(''handlers'', texts [''console'']), (''level'', Text level), (''propagate'', Flag False)]"

definition logging_config :: "config \<Rightarrow> setting" where
  "logging_config c = Dict
     [(''version'', Num 1), (''disable_existing_loggers'', Flag False),
      (''formatters'', Dict
         [(''structured'', Dict [(''format'', Text
            (''{\"time\": \"%(asctime)s\", \"level\": \"%(levelname)s\", '' @
             ''\"logger\": \"%(name)s\", \"message\": \"%(message)s\"}''))]),
          (''console'', Dict [(''format'', Text ''%(asctime)s %(levelname)-8s %(name)s: %(message)s'')])]),
      (''handlers'', Dict
         [(''console'', Dict [(''class'', Text ''logging.StreamHandler''), (''formatter'', Text (cf_log_format c))])]),
      (''root'', Dict [(''handlers'', texts [''console'']), (''level'', Text (cf_log_level c))]),
      (''loggers'', Dict
         [(''django'', logger_entry (cf_django_log_level c)), (''ipscout'', logger_entry (cf_log_level c))])]"

definition base_names :: "string \<Rightarrow> environ \<Rightarrow> config \<Rightarrow> names" where
  "base_names base e c =
     [(''BASE_DIR'', Text base)] @ core_names c @
     [(''INSTALLED_APPS'', texts installed_apps), (''MIDDLEWARE'', texts (cf_middleware c))] @ wiring_names base @
     [(''DATABASE_URL'', Text (env_str e ''DATABASE_URL'' []))] @ database_names c @
     [(''DEFAULT_AUTO_FIELD'', Text default_auto_field), (''AUTH_USER_MODEL'', Text ''users.User'')] @
     auth_names @ locale_names c @ static_names base @ redis_names c @ celery_names c @
     [(''REST_FRAMEWORK'', Dict rest_framework), (''SIMPLE_JWT'', Dict (simple_jwt c)),
      (''SPECTACULAR_SETTINGS'', Dict spectacular_settings)] @
     security_names c @ domain_names (cf_domain c) @ [(''LOGGING'', logging_config c)]"

definition base_module :: "string \<Rightarrow> environ \<Rightarrow> names res" where
  "base_module base e = res_bind (base_settings e) (\<lambda>c. Inr (base_names base e c))"

section \<open>The modules of the environments\<close>

text \<open>\<open>X[k1][k2] = v\<close> on a name of the module.\<close>

definition put_in :: "string \<Rightarrow> string list \<Rightarrow> setting \<Rightarrow> names \<Rightarrow> names res" where
  "put_in x ks v ns =
     (case Option.bind (map_of ns x) (put_at ks v) of None \<Rightarrow> Inl KeyError | Some s \<Rightarrow> Inr (bind_name x s ns))"

definition development_module :: "string \<Rightarrow> environ \<Rightarrow> names res" where
  "development_module base e =
     res_bind (base_module base e) (\<lambda>ns.
       let ns = bind_names
         [(''DEBUG'', Flag True), (''ALLOWED_HOSTS'', texts [''*'']),
          (''INSTALLED_APPS'', texts (name_texts ''INSTALLED_APPS'' ns @ [''debug_toolbar''])),
          (''MIDDLEWARE'', texts (''debug_toolbar.middleware.DebugToolbarMiddleware'' # name_texts ''MIDDLEWARE'' ns)),
          (''INTERNAL_IPS'', texts [''127.0.0.1'']), (''SESSION_COOKIE_SECURE'', Flag False), (''CSRF_COOKIE_SECURE'', Flag False),
          (''EMAIL_BACKEND'', Text ''django.core.mail.backends.console.EmailBackend'')] ns
       in if env_bool e ''DJANGO_LOG_SQL'' False
          then put_in ''LOGGING'' [''loggers'', ''django.db.backends''] (logger_entry ''DEBUG'') ns else Inr ns)"

definition hsts_names :: "environ \<Rightarrow> names" where
  "hsts_names e =
     [(''SESSION_COOKIE_SECURE'', Flag True), (''CSRF_COOKIE_SECURE'', Flag True),
      (''SECURE_SSL_REDIRECT'', Flag (env_bool e ''SECURE_SSL_REDIRECT'' True)), (''SECURE_HSTS_SECONDS'', Num (60 * 60 * 24 * 30)),
      (''SECURE_HSTS_INCLUDE_SUBDOMAINS'', Flag True), (''SECURE_HSTS_PRELOAD'', Flag True),
      (''SECURE_PROXY_SSL_HEADER'', texts [''HTTP_X_FORWARDED_PROTO'', ''https''])]"

definition storages :: setting where
  "storages = Dict
     [(''default'', Dict [(''BACKEND'', Text ''django.core.files.storage.FileSystemStorage'')]),
      (''staticfiles'', Dict [(''BACKEND'', Text ''whitenoise.storage.CompressedManifestStaticFilesStorage'')])]"

text \<open>What \<open>sentry_sdk.init\<close> is called with, when a DSN is given; what it does is its own.\<close>

definition sentry_arguments :: "environ \<Rightarrow> names option" where
  "sentry_arguments e =
     (let dsn = env_str e ''SENTRY_DSN'' [] in
      if dsn = [] then None
      else Some [(''dsn'', Text dsn), (''integrations'', texts [''DjangoIntegration'', ''CeleryIntegration'']),
                 (''traces_sample_rate'', Ratio 1 10), (''send_default_pii'', Flag False)])"

definition production_module :: "string \<Rightarrow> environ \<Rightarrow> names res" where
  "production_module base e =
     res_bind (base_module base e) (\<lambda>ns.
       let ns = bind_name ''DEBUG'' (Flag False) ns in
       if map_of ns ''SECRET_KEY'' \<in> {Some (Text []), Some (Text insecure_key)}
       then Inl (RuntimeError ''DJANGO_SECRET_KEY must be set to a strong value in production.'')
       else if name_texts ''ALLOWED_HOSTS'' ns = [] then Inl (RuntimeError ''ALLOWED_HOSTS must be set in production.'')
       else
         let ns = bind_name ''MIDDLEWARE''
               (texts (insert_after ''django.middleware.security.SecurityMiddleware''
                  ''whitenoise.middleware.WhiteNoiseMiddleware'' (name_texts ''MIDDLEWARE'' ns))) ns;
             ns = bind_names (hsts_names e) (bind_name ''STORAGES'' storages ns)
         in if map_of ns ''SSH_CREDENTIAL_ENCRYPTION_KEY'' = Some (Text [])
            then Inl (RuntimeError ''SSH_CREDENTIAL_ENCRYPTION_KEY must be set in production.'')
            else Inr (bind_name ''SENTRY_DSN'' (Text (env_str e ''SENTRY_DSN'' [])) ns))"

definition test_module :: "string \<Rightarrow> environ \<Rightarrow> names res" where
  "test_module base e =
     res_bind (base_module base e) (\<lambda>ns.
       res_bind (put_in ''REST_FRAMEWORK'' [''DEFAULT_THROTTLE_CLASSES''] (Items [])
         (bind_names
           [(''DEBUG'', Flag False), (''PASSWORD_HASHERS'', texts [''django.contrib.auth.hashers.MD5PasswordHasher'']),
            (''CELERY_TASK_ALWAYS_EAGER'', Flag True), (''CELERY_TASK_EAGER_PROPAGATES'', Flag True)] ns)) (\<lambda>ns.
       Inr (bind_names
         [(''WHOIS_BINARY'', Text ''/usr/bin/whois''),
          (''SSH_CREDENTIAL_ENCRYPTION_KEY'', Text ''NnoRYXW2HCoNNQfvq6cLLoAz4OH__-_DyNQPpBD0MZA='')] ns)))"

section \<open>Logging\<close>

text \<open>\<open>logging.config.dictConfig\<close>: a handler names a formatter (an empty name is none at all), a logger names
  handlers and a level; a name that is not there raises \<open>ValueError\<close>.\<close>

definition log_levels :: "(string \<times> nat) list" where
  "log_levels =
     [(''CRITICAL'', 50), (''FATAL'', 50), (''ERROR'', 40), (''WARN'', 30), (''WARNING'', 30), (''INFO'', 20), (''DEBUG'', 10), (''NOTSET'', 0)]"

definition dict_of :: "setting option \<Rightarrow> names" where
  "dict_of s = (case s of Some (Dict d) \<Rightarrow> d | _ \<Rightarrow> [])"

definition formatter_known :: "names \<Rightarrow> setting \<Rightarrow> bool" where
  "formatter_known formatters h =
     (case setting_at [''formatter''] h of Some (Text f) \<Rightarrow> f = [] \<or> f \<in> fst ` set formatters | _ \<Rightarrow> True)"

definition logger_known :: "names \<Rightarrow> setting \<Rightarrow> bool" where
  "logger_known handlers l \<longleftrightarrow>
     (case setting_at [''level''] l of Some (Text v) \<Rightarrow> v \<in> fst ` set log_levels | _ \<Rightarrow> True) \<and>
     list_all (\<lambda>h. h \<in> fst ` set handlers) (case setting_at [''handlers''] l of Some hs \<Rightarrow> setting_texts hs | None \<Rightarrow> [])"

definition dict_config :: "setting \<Rightarrow> unit res" where
  "dict_config s =
     (let part = (\<lambda>k. dict_of (setting_at [k] s)) in
      if setting_at [''version''] s = Some (Num 1)
         \<and> list_all (formatter_known (part ''formatters'')) (map snd (part ''handlers''))
         \<and> list_all (logger_known (part ''handlers'')) (map snd (part ''loggers''))
         \<and> logger_known (part ''handlers'') (Dict (part ''root''))
      then Inr () else Inl ValueError)"

text \<open>\<open>callHandlers\<close>: a record goes to the handlers of its logger and of its ancestors up to the first that does
  not propagate. The ancestors of a dotted name are its prefixes and the root.\<close>

definition logger_chain :: "string \<Rightarrow> string list" where
  "logger_chain name =
     (let parts = split_on (CHR ''.'') name in map (\<lambda>i. join_with ''.'' (take i parts)) (rev [1..<Suc (length parts)]))"

fun reached_handlers :: "names \<Rightarrow> string list \<Rightarrow> string list \<Rightarrow> string list" where
  "reached_handlers loggers rs [] = rs"
| "reached_handlers loggers rs (n # ns) =
     (case map_of loggers n of
        None \<Rightarrow> reached_handlers loggers rs ns
      | Some l \<Rightarrow> (case setting_at [''handlers''] l of Some hs \<Rightarrow> setting_texts hs | None \<Rightarrow> []) @
          (if setting_at [''propagate''] l = Some (Flag False) then [] else reached_handlers loggers rs ns))"

definition handlers_of :: "setting \<Rightarrow> string \<Rightarrow> string list" where
  "handlers_of s name =
     reached_handlers (dict_of (setting_at [''loggers''] s))
       (case setting_at [''root'', ''handlers''] s of Some hs \<Rightarrow> setting_texts hs | None \<Rightarrow> []) (logger_chain name)"

section \<open>Processes\<close>

text \<open>Every entry point sets \<open>DJANGO_SETTINGS_MODULE\<close> unless the process has it; \<open>.env\<close> is read later, when
  \<open>config/env.py\<close> is imported by that module, and does not override what the process has.\<close>

datatype entry_point = Manage_py | Celery_app | Wsgi_app | Asgi_app

fun manage_default :: "entry_point \<Rightarrow> string" where
  "manage_default Manage_py = ''config.settings.development''"
| "manage_default Celery_app = ''config.settings.development''"
| "manage_default Wsgi_app = ''config.settings.production''"
| "manage_default Asgi_app = ''config.settings.production''"

definition settings_module :: "entry_point \<Rightarrow> environ \<Rightarrow> string" where
  "settings_module p process = env_str process ''DJANGO_SETTINGS_MODULE'' (manage_default p)"

definition load_dotenv :: "environ \<Rightarrow> environ \<Rightarrow> environ" where
  "load_dotenv file process k = (case process k of Some v \<Rightarrow> Some v | None \<Rightarrow> file k)"

definition import_settings :: "string \<Rightarrow> string \<Rightarrow> environ \<Rightarrow> names res" where
  "import_settings base name e =
     (if name = ''config.settings.base'' then base_module base e
      else if name = ''config.settings.development'' then development_module base e
      else if name = ''config.settings.production'' then production_module base e
      else if name = ''config.settings.test'' then test_module base e
      else Inl (RuntimeError ''ModuleNotFoundError''))"

text \<open>\<open>django.setup()\<close>: the settings are loaded, logging is configured from them, and the installed applications
  are imported. Which packages can be imported is a parameter.\<close>

definition boot :: "(string \<Rightarrow> bool) \<Rightarrow> string \<Rightarrow> entry_point \<Rightarrow> environ \<Rightarrow> environ \<Rightarrow> names res" where
  "boot available base p process file =
     (let e = load_dotenv file (process(''DJANGO_SETTINGS_MODULE'' \<mapsto> settings_module p process)) in
      res_bind (import_settings base (settings_module p process) e) (\<lambda>ns.
        res_bind (case map_of ns ''LOGGING'' of Some s \<Rightarrow> dict_config s | None \<Rightarrow> Inr ()) (\<lambda>_.
        if list_all available (name_texts ''INSTALLED_APPS'' ns) then Inr ns else Inl (RuntimeError ''ModuleNotFoundError''))))"

section \<open>Lemmas on names\<close>

lemma setting_texts_texts [simp]: "setting_texts (texts xs) = xs"
  by (induction xs) (simp_all add: setting_texts_def texts_def)

lemma texts_inject [simp]: "texts xs = texts ys \<longleftrightarrow> xs = ys"
  by (metis setting_texts_texts)

lemma map_of_bind_name [simp]: "map_of (bind_name k v ns) = (map_of ns)(k \<mapsto> v)"
  by (simp add: bind_name_def update_conv')

lemma bind_names_simps [simp]:
  "bind_names [] ns = ns" "bind_names ((k, v) # new) ns = bind_names new (bind_name k v ns)"
  by (simp_all add: bind_names_def)

lemma map_of_bind_names: "map_of (bind_names new ns) k = (case map_of (rev new) k of Some v \<Rightarrow> Some v | None \<Rightarrow> map_of ns k)"
  by (induction new arbitrary: ns) (auto simp: map_add_def split: option.splits)

lemmas names_defs = core_names_def wiring_names_def database_names_def auth_names_def locale_names_def static_names_def
  redis_names_def celery_names_def security_names_def domain_names_def Let_def

lemma base_lookups:
  "map_of (base_names base e c) ''SECRET_KEY'' = Some (Text (cf_secret_key c))"
  "map_of (base_names base e c) ''DEBUG'' = Some (Flag (cf_debug c))"
  "map_of (base_names base e c) ''ALLOWED_HOSTS'' = Some (texts (cf_allowed_hosts c))"
  "map_of (base_names base e c) ''INSTALLED_APPS'' = Some (texts installed_apps)"
  "map_of (base_names base e c) ''MIDDLEWARE'' = Some (texts (cf_middleware c))"
  "map_of (base_names base e c) ''REST_FRAMEWORK'' = Some (Dict rest_framework)"
  "map_of (base_names base e c) ''SSH_CREDENTIAL_ENCRYPTION_KEY'' = Some (Text (st_ssh_credential_encryption_key (cf_domain c)))"
  "map_of (base_names base e c) ''LOGGING'' = Some (logging_config c)"
  by (simp_all add: base_names_def names_defs)

lemma base_texts: "map_of ns k = Some (texts xs) \<Longrightarrow> name_texts k ns = xs"
  by (simp add: name_texts_def)

section \<open>Logging is configured or refused\<close>

definition logging_accepts :: "config \<Rightarrow> bool" where
  "logging_accepts c \<longleftrightarrow> cf_log_format c \<in> {[], ''structured'', ''console''}
     \<and> cf_log_level c \<in> fst ` set log_levels \<and> cf_django_log_level c \<in> fst ` set log_levels"

lemma dict_config_logging: "dict_config (logging_config c) = (if logging_accepts c then Inr () else Inl ValueError)"
  by (simp add: dict_config_def logging_config_def logger_entry_def logging_accepts_def formatter_known_def logger_known_def dict_of_def)

text \<open>A record of any logger of the application reaches the console handler, and reaches it once.\<close>

definition application_logger :: "string \<Rightarrow> bool" where
  "application_logger name \<longleftrightarrow> name = ''ipscout'' \<or> starts_with ''ipscout.'' name"

lemma reached_skip: "\<forall>n\<in>set ns. map_of loggers n = None \<Longrightarrow> reached_handlers loggers rs (ns @ ms) = reached_handlers loggers rs ms"
  by (induction ns) simp_all

lemma application_logger_chain:
  assumes "application_logger name"
  shows "\<exists>ns. logger_chain name = ns @ [''ipscout''] \<and> (\<forall>n\<in>set ns. \<exists>s. n = ''ipscout.'' @ s)"
proof -
  obtain ps where ps: "split_on (CHR ''.'') name = ''ipscout'' # ps"
  proof (cases "name = ''ipscout''")
    case True then show ?thesis using that[of "[]"] by simp
  next
    case False
    then have "take (length ''ipscout.'') name = ''ipscout.''"
      using assms unfolding application_logger_def starts_with_def by blast
    then have "name = ''ipscout.'' @ drop (length ''ipscout.'') name" by (metis append_take_drop_id)
    then obtain s where "name = ''ipscout'' @ CHR ''.'' # s" by simp
    then show ?thesis using that split_on_append_sep[of "CHR ''.''" "''ipscout''" s] by simp
  qed
  let ?up = "\<lambda>i. join_with ''.'' (take i (''ipscout'' # ps))"
  have chain: "logger_chain name = map ?up (rev [2..<Suc (Suc (length ps))]) @ [''ipscout'']"
  proof -
    have "[1..<Suc (length (''ipscout'' # ps))] = 1 # [2..<Suc (Suc (length ps))]"
      by (subst upt_conv_Cons) (simp_all add: numeral_2_eq_2)
    then show ?thesis unfolding logger_chain_def Let_def ps by (simp only: rev.simps map_append list.map) simp
  qed
  have up: "\<exists>s. ?up i = ''ipscout.'' @ s" if i: "i \<in> {2..<Suc (Suc (length ps))}" for i
  proof -
    obtain k q qs where "i = Suc (Suc k)" "ps = q # qs"
      using i by (cases ps; cases i; cases "i - 1") auto
    then show ?thesis by simp
  qed
  have "\<forall>n\<in>set (map ?up (rev [2..<Suc (Suc (length ps))])). \<exists>s. n = ''ipscout.'' @ s"
    using up by (simp only: set_map set_rev set_upt) blast
  then show ?thesis unfolding chain by blast
qed

lemma application_logs_once:
  assumes "application_logger name"
  shows "handlers_of (logging_config c) name = [''console'']"
proof -
  obtain ns where ns: "logger_chain name = ns @ [''ipscout'']" "\<forall>n\<in>set ns. \<exists>s. n = ''ipscout.'' @ s"
    using application_logger_chain[OF assms] by blast
  let ?ls = "[(''django'', logger_entry (cf_django_log_level c)), (''ipscout'', logger_entry (cf_log_level c))]"
  have "\<forall>n\<in>set ns. map_of ?ls n = None" using ns(2) by auto
  from reached_skip[OF this, of "[''console'']" "[''ipscout'']"] show ?thesis
    by (simp add: handlers_of_def ns(1) logging_config_def dict_of_def logger_entry_def)
qed

section \<open>The modules refine the settings of the application\<close>

definition guarded :: "config \<Rightarrow> bool" where
  "guarded c \<longleftrightarrow> cf_secret_key c \<notin> {[], insecure_key} \<and> cf_allowed_hosts c \<noteq> [] \<and> st_ssh_credential_encryption_key (cf_domain c) \<noteq> []"

definition hardened :: "string \<Rightarrow> environ \<Rightarrow> config \<Rightarrow> names" where
  "hardened base e c =
     bind_name ''SENTRY_DSN'' (Text (env_str e ''SENTRY_DSN'' []))
       (bind_names (hsts_names e) (bind_name ''STORAGES'' storages
         (bind_name ''MIDDLEWARE'' (texts (insert_after ''django.middleware.security.SecurityMiddleware''
            ''whitenoise.middleware.WhiteNoiseMiddleware'' (cf_middleware c)))
           (bind_name ''DEBUG'' (Flag False) (base_names base e c)))))"

lemma production_module_eq:
  "production_module base e =
     res_bind (production_settings e) (\<lambda>_. res_bind (base_settings e) (\<lambda>c. Inr (hardened base e c)))"
  by (cases "base_settings e")
    (simp_all add: production_module_def production_settings_def base_module_def Let_def base_lookups name_texts_def
       map_of_bind_names hsts_names_def hardened_def)

lemma production_module_Inr:
  "production_module base e = Inr ns \<longleftrightarrow> (\<exists>c. base_settings e = Inr c \<and> guarded c \<and> ns = hardened base e c)"
  by (auto simp: production_module_eq production_settings_def res_bind_Inr_iff guarded_def split: if_split_asm)

lemma hardened_lookups:
  "map_of (hardened base e c) ''DEBUG'' = Some (Flag False)"
  "map_of (hardened base e c) ''SECRET_KEY'' = Some (Text (cf_secret_key c))"
  "map_of (hardened base e c) ''ALLOWED_HOSTS'' = Some (texts (cf_allowed_hosts c))"
  "map_of (hardened base e c) ''INSTALLED_APPS'' = Some (texts installed_apps)"
  "map_of (hardened base e c) ''SESSION_COOKIE_SECURE'' = Some (Flag True)"
  "map_of (hardened base e c) ''CSRF_COOKIE_SECURE'' = Some (Flag True)"
  "map_of (hardened base e c) ''REST_FRAMEWORK'' = Some (Dict rest_framework)"
  "map_of (hardened base e c) ''LOGGING'' = Some (logging_config c)"
  "map_of (hardened base e c) ''MIDDLEWARE'' = Some (texts (insert_after ''django.middleware.security.SecurityMiddleware''
            ''whitenoise.middleware.WhiteNoiseMiddleware'' (cf_middleware c)))"
  by (simp_all add: hardened_def map_of_bind_names hsts_names_def base_lookups)

lemma hardened_values:
  assumes "base_settings e = Inr c" and ns: "ns = hardened base e c"
  shows "map_of ns ''DEBUG'' = Some (Flag False)" "map_of ns ''SESSION_COOKIE_SECURE'' = Some (Flag True)"
    "map_of ns ''CSRF_COOKIE_SECURE'' = Some (Flag True)"
    "name_texts ''MIDDLEWARE'' ns = [hd middleware, ''whitenoise.middleware.WhiteNoiseMiddleware''] @ tl middleware"
    "last (name_texts ''MIDDLEWARE'' ns) = ''apps.users.middleware.AuditLogMiddleware''"
  using base_settings_values(2)[OF assms(1)] unfolding ns by (simp_all add: hardened_lookups name_texts_def middleware_def)

text \<open>Every module of settings keeps the endpoints of the API behind a login.\<close>

lemma permission_classes:
  "setting_at [''DEFAULT_PERMISSION_CLASSES''] (Dict rest_framework) = Some (texts [''rest_framework.permissions.IsAuthenticated''])"
  by (simp add: rest_framework_def)

lemma test_module_permissions:
  assumes "test_module base e = Inr ns"
  shows "Option.bind (map_of ns ''REST_FRAMEWORK'') (setting_at [''DEFAULT_PERMISSION_CLASSES''])
     = Some (texts [''rest_framework.permissions.IsAuthenticated''])"
  using assms
  by (auto simp: test_module_def base_module_def res_bind_Inr_iff put_in_def base_lookups rest_framework_def update_conv' map_of_bind_names)

lemma development_module_Inr:
  assumes "development_module base e = Inr ns"
  shows "\<exists>c. base_settings e = Inr c \<and> map_of ns ''DEBUG'' = Some (Flag True) \<and> map_of ns ''ALLOWED_HOSTS'' = Some (texts [''*''])
     \<and> name_texts ''INSTALLED_APPS'' ns = installed_apps @ [''debug_toolbar'']"
  using assms
  by (auto simp: development_module_def base_module_def res_bind_Inr_iff put_in_def Let_def map_of_bind_names base_lookups name_texts_def
      split: if_split_asm option.split_asm)

text \<open>A worker or a management command that is not told otherwise by its process runs with debugging on, whatever \<open>.env\<close>
  says, and needs the packages of development.\<close>

lemma worker_defaults_to_development:
  assumes "process ''DJANGO_SETTINGS_MODULE'' = None" "p \<in> {Manage_py, Celery_app}" "boot available base p process file = Inr ns"
  shows "map_of ns ''DEBUG'' = Some (Flag True) \<and> map_of ns ''ALLOWED_HOSTS'' = Some (texts [''*'']) \<and> available ''debug_toolbar''"
proof -
  have "settings_module p process = ''config.settings.development''"
    using assms(1,2) by (auto simp: settings_module_def env_str_def)
  then obtain e where e: "development_module base e = Inr ns" "list_all available (name_texts ''INSTALLED_APPS'' ns)"
    using assms(3) by (auto simp: boot_def import_settings_def Let_def res_bind_Inr_iff split: if_split_asm)
  then show ?thesis using development_module_Inr[OF e(1)] by auto
qed

definition production_environ :: "environ \<Rightarrow> environ \<Rightarrow> environ" where
  "production_environ file process = load_dotenv file (process(''DJANGO_SETTINGS_MODULE'' \<mapsto> ''config.settings.production''))"

lemma web_boot_Inr:
  assumes "process ''DJANGO_SETTINGS_MODULE'' = None" "p \<in> {Wsgi_app, Asgi_app}"
  shows "boot available base p process file = Inr ns \<longleftrightarrow>
    list_all available installed_apps \<and>
    (\<exists>c. base_settings (production_environ file process) = Inr c \<and> guarded c \<and> logging_accepts c
       \<and> ns = hardened base (production_environ file process) c)"
proof -
  have "settings_module p process = ''config.settings.production''"
    using assms by (auto simp: settings_module_def env_str_def)
  then have "boot available base p process file = Inr ns \<longleftrightarrow> production_module base (production_environ file process) = Inr ns \<and>
      (case map_of ns ''LOGGING'' of Some s \<Rightarrow> dict_config s | None \<Rightarrow> Inr ()) = Inr () \<and>
      list_all available (name_texts ''INSTALLED_APPS'' ns)"
    by (auto simp: boot_def import_settings_def production_environ_def Let_def res_bind_Inr_iff split: if_split_asm)
  also have "\<dots> \<longleftrightarrow> list_all available installed_apps \<and>
      (\<exists>c. base_settings (production_environ file process) = Inr c \<and> guarded c \<and> logging_accepts c
         \<and> ns = hardened base (production_environ file process) c)"
    by (auto simp: production_module_Inr hardened_lookups dict_config_logging name_texts_def split: if_split_asm)
  finally show ?thesis .
qed

text \<open>Where a login leads and what stands in front of it are pages of the site.\<close>

lemma login_urls:
  "\<exists>name. map_of auth_names ''LOGIN_URL'' = Some (Text name) \<and> reverse_url name [] = Some ''/accounts/login/''"
  "\<exists>name. map_of auth_names ''LOGIN_REDIRECT_URL'' = Some (Text name) \<and> reverse_url name [] = Some ''/''"
  by (simp_all add: auth_names_def Let_def) (code_simp)+

section \<open>Properties\<close>


text \<open>The documented installation runs the migrations with the packages of production and the settings named in \<open>.env\<close>.\<close>

definition documented_env :: environ where
  "documented_env = map_of [(''DJANGO_SETTINGS_MODULE'', ''config.settings.production''), (''DJANGO_SECRET_KEY'', ''s3cret''),
     (''SSH_CREDENTIAL_ENCRYPTION_KEY'', ''k''), (''ALLOWED_HOSTS'', ''a.ir, b.ir'')]"


text \<open>A name of a format that is not there stops the process before it serves anything.\<close>

lemma unknown_log_format_example:
  "boot (\<lambda>_. True) ''/app'' Wsgi_app (production_env(''LOG_FORMAT'' \<mapsto> ''json'')) (\<lambda>_. None) = Inl ValueError"
  by (simp add: boot_def settings_module_def import_settings_def production_module_eq production_settings_def base_settings_def
      domain_of_env_def database_of_env_def env_int_def env_str_def env_list_def env_bool_def
      production_env_def load_dotenv_def hardened_lookups dict_config_logging logging_accepts_def insecure_key_def Let_def
      py_strip_def py_lstrip_def rstrip_with_def py_ws_def cp_def)

end
