(* ===== verification/Spec2Isabelle.thy ===== *)
theory Spec2Isabelle
  imports Log_Parser Ssh_Service Log_Reader Whois_Tasks Geo Retention Api Config Encrypted_Field System Draining Framework
begin

text \<open>
  IP-Scout watches the access logs of remote nginx servers over SSH, keeps every address that made a request,
  enriches it (WHOIS, geolocation, membership in Iranian networks) and reports on it through a web interface and
  a REST API. It is a Django project with Celery workers; PostgreSQL holds the data, Redis the queues and locks.
  All paths below are relative to \<open>src/\<close>.

  \<^bold>\<open>State.\<close> \<open>World\<close> has one record per model of \<open>apps/*/models.py\<close> and the record \<^typ>\<open>world\<close>: a table per
  model, the Redis locks, the clock, the settings, the queued jobs and the request context. A table (\<open>Store\<close>) maps
  primary keys to rows and counts its sequence, so a deleted key is never given out again. An operation of the
  program is a function \<open>world \<Rightarrow> (error + result) \<times> world\<close>; every raise of the source is an \<open>Inl\<close>, with what was
  written before it. \<open>db_ok\<close> collects the constraints of the schema: foreign keys, unique columns, ordered keys.

  \<^bold>\<open>Python.\<close> \<open>Py_Prelude\<close>, \<open>Py_Regex\<close>, \<open>Py_Datetime\<close>, \<open>Py_Ipaddress\<close> and \<open>Py_Sha256\<close> model what the source uses
  of the language and its library: string methods, \<open>int()\<close>, backtracking regular expressions, \<open>strptime\<close>, the
  \<open>ipaddress\<close> module and SHA-256 over 32-bit words. \<open>Reporting\<close> adds the ordering and counting of query sets and
  the \<open>csv\<close> writer with a reader of its own.

  \<^bold>\<open>Reading logs.\<close> \<open>Log_Parser\<close> (\<open>apps/logs/parsers.py\<close>) compiles an nginx format to a pattern and parses a line;
  the main lemma is that parsing inverts what nginx writes, for every delimited format. \<open>Ssh_Service\<close>
  (\<open>apps/servers/services.py\<close>, \<open>tasks.py\<close>) runs commands on a host that is a parameter: key parsing, quoting (the
  quoted command line is split back by a POSIX shell lexer), connection test, discovery, and the incremental read.
  \<open>Log_Reader\<close> (\<open>apps/logs/services.py\<close>, \<open>tasks.py\<close>) is one cycle of a source; however a growing file is cut into
  polls, every complete line is recorded once and in order, as long as every line fits the columns of an event; one that
  parses but does not fit (a NUL, a byte count above \<open>2^63 - 1\<close>) blocks its source, which is a property of its own.

  \<^bold>\<open>Addresses.\<close> \<open>Ip_Service\<close> (\<open>apps/ips/services.py\<close>): normal forms, batches of sightings, the fan-out of a new
  address. \<open>Whois_Parser\<close> and \<open>Whois_Tasks\<close> (\<open>apps/whois\<close>): the subprocess call, the response, the columns taken from
  it, and the task with its retries. \<open>Geo\<close> (\<open>apps/geo\<close>). \<open>Iran_Cidr\<close> and \<open>Iran_Validation\<close> (\<open>apps/iran\<close>):
  networks, longest-prefix matching, classification as a timeline of periods, and the validation run against a
  provider (a locale, interpreted on both providers). \<open>Retention\<close>: the purges, each an instance of one locale.
  \<open>Locks\<close> (\<open>apps/common/locks.py\<close>): the lock around a body, and many workers on a clock. \<open>Encrypted_Field\<close>
  (\<open>apps/common/fields.py\<close>): the credential column over the contract of Fernet.

  \<^bold>\<open>Interfaces.\<close> \<open>Audit_Log\<close> (\<open>apps/users\<close>): context, middleware, audit entries. \<open>Iran_Export\<close>, \<open>Analytics\<close>,
  \<open>Pages\<close>, \<open>Dashboard\<close>, \<open>Web\<close> and \<open>Site\<close>: every view of the site with its guards, as the data it hands to its
  template, and the table of routes. \<open>Site_Laws\<close> and \<open>Site_Data\<close> prove laws of all requests with one locale,
  \<open>view_law\<close>: it carries a law through the login, the method guard and the lookup of a row, and is interpreted on
  accountability, on consistency and (in \<open>System\<close>) on what a request leaves alone. \<open>Api\<close> (\<open>apps/api\<close>): serializers,
  query sets and endpoints behind negotiation, authentication and throttling; answers do not depend on stored
  credentials. \<open>Urls\<close> (\<open>urls.py\<close> of every application): the URL tables, resolving and reversing; no pattern hides
  another.

  \<^bold>\<open>Schema and settings.\<close> \<open>Migrations\<close> has the operations of Django's migrations and an executor on an abstract
  schema; its locale \<open>project\<close> shows that every order that respects the dependencies builds the same schema. \<open>Schema\<close>
  instantiates it with the migrations of \<open>apps/*/migrations\<close> and the declarations of \<open>apps/*/models.py\<close>: the tables built
  are those declared, and the columns of an event take what the reader writes. \<open>Admin\<close> (\<open>apps/*/admin.py\<close>): the
  registrations, checked against the declared columns, and what they allow. \<open>Config\<close> (\<open>config/env.py\<close>, \<open>config/settings\<close>):
  environment, database URL, the settings that depend on them and the guards of production. \<open>Framework\<close>: the settings
  modules as namespaces of nested values, the logging configuration, and which settings a process starts with.

  \<^bold>\<open>The system.\<close> \<open>Schedule\<close> holds the periodic tasks seeded by the data migrations. \<open>Task_Laws\<close> proves of every task,
  whatever the outside answers, that it keeps the invariant \<open>state_ok\<close> (consistent database, canonical networks,
  classification periods that agree with the flags), only appends to the audit log and keeps the identity of
  addresses. \<open>System\<close> composes everything into a step relation: pages, API calls, workers, redelivery after a lost
  worker (\<open>acks_late\<close>), retries, the scheduler and time, in any order; its properties hold of every reachable state
  and every run. \<open>Draining\<close> orders the kinds of jobs and shows that the queues run empty.

  \<^bold>\<open>Bounds.\<close> There is no fuel. Loops are structural or have a measure; a WHOIS lookup is attempted at most four
  times (\<open>max_retries\<close>), which the termination of \<open>whois_attempts\<close> rests on. Python integers are unbounded here as
  there; columns that PostgreSQL bounds are checked for the AS number and for the columns of an event, where the program
  writes them. The widths of the other text columns are declared in \<open>Schema\<close> and not checked on every write.

  \<^bold>\<open>Parameters.\<close> Code that is not in the repository is an argument: the SSH host, the \<open>whois\<close> program, the body the
  RIPE server returns, \<open>geoip2\<close>, Fernet (contract \<open>fernet_ok\<close>), byte decoding, the field parsing of Django forms,
  \<open>parse_datetime\<close> and \<open>make_aware\<close>, PostgreSQL's conversion of text to \<open>cidr\<close>, the authentication, negotiation,
  throttle, filter backends and paginator of Django REST framework, the packages that can be imported, Redis list lengths and stored task results.

  \<^bold>\<open>Where the model is coarser.\<close> A request or a task is one step: the clock stands still in it and nothing else runs
  meanwhile, except in \<open>Locks\<close>, where bodies overlap. Text is Latin-1. Coordinates and confidences are rationals. Text
  columns are ordered by code point, chart buckets are those of UTC, ties keep insertion order. An address is read back as
  the text it was stored with (no scope identifiers). Dates outside the years of \<open>datetime\<close> are not refused. Reads of a credential assume the encryption key is set; \<open>Encrypted_Field\<close> models the
  column itself. Pages are lists before pagination. The scheduler may send a task at any moment.

  \<^bold>\<open>Not modelled.\<close> Templates, static files and deployment; the pages and actions of the Django admin and its
  \<open>UserAdmin\<close>; the login and logout views of Django; pagination; log messages themselves; help texts, index names and
  verbose names of the schema; what Django, Celery and Sentry do with a setting; and the test suite: presentation, or code
  of other packages.
\<close>

end
